(* ===== verification/Prelude.thy ===== *)
theory Prelude
  imports Main "HOL-Library.Word"
begin

text \<open>
  What every component shares: Python 2 byte strings, slices with negative indices, results that
  may be an exception, and decimal rendering. A Python 2 \<open>str\<close> is a sequence of bytes, which is
  exactly HOL's \<open>string\<close> (a list of 8-bit \<open>char\<close>); \<open>ord\<close> and \<open>chr\<close> are \<open>of_char\<close> and \<open>char_of\<close>.
  Python integers are unbounded and are \<open>int\<close>; lengths and bounded counters are \<open>nat\<close>.
\<close>

named_theorems slice_simps \<open>evaluation of Python slices\<close>
named_theorems res_simps \<open>results that may be an exception\<close>
named_theorems len_simps \<open>lengths of the byte strings the code builds\<close>

type_synonym bytes = string

abbreviation byte_ord :: "char \<Rightarrow> int" where
  "byte_ord c \<equiv> of_char c"

abbreviation byte_chr :: "int \<Rightarrow> char" where
  "byte_chr n \<equiv> char_of n"

subsection \<open>Bytes\<close>

lemma byte_ord_less [simp]: "byte_ord c < 256"
  by (metis of_char_mod_256 pos_mod_bound zero_less_numeral)

lemma byte_ord_nonneg [simp]: "0 \<le> byte_ord c"
  by (metis of_char_mod_256 pos_mod_sign zero_less_numeral)

lemma byte_ord_chr [simp]: "0 \<le> n \<Longrightarrow> n < 256 \<Longrightarrow> byte_ord (byte_chr n) = n"
  by simp

lemma byte_ord_zero_iff: "byte_ord c = 0 \<longleftrightarrow> c = CHR 0x00"
  using of_char_eq_iff [of c "CHR 0x00", where 'a = int] by simp

lemma int_of_char [simp]: "int (of_char c) = byte_ord c"
  by (rule of_nat_of_char)

lemma byte_ord_char_of_nat [simp]: "byte_ord (char_of (n :: nat)) = int (n mod 256)"
  by (metis int_of_char of_char_of)

lemma byte_chr_0 [simp]: "byte_chr 0 = CHR 0x00"
  by (simp add: char_of_def)

lemma length_eq_append_cases:
  "length xs = m + n \<Longrightarrow> \<exists>ys zs. xs = ys @ zs \<and> length ys = m \<and> length zs = n"
  by (rule exI [of _ "take m xs"], rule exI [of _ "drop m xs"]) simp

subsection \<open>Slices\<close>

text \<open>
  Python's slices never raise: an index is first counted from the end when it is negative and
  then clipped to the sequence.
\<close>

definition clip_index :: "int \<Rightarrow> nat \<Rightarrow> nat" where
  "clip_index i n = (if i < 0 then nat (max 0 (i + int n)) else min (nat i) n)"

definition slice_to :: "'a list \<Rightarrow> int \<Rightarrow> 'a list" where
  "slice_to xs j = take (clip_index j (length xs)) xs"

definition slice_from :: "'a list \<Rightarrow> int \<Rightarrow> 'a list" where
  "slice_from xs i = drop (clip_index i (length xs)) xs"

definition slice :: "'a list \<Rightarrow> int \<Rightarrow> int \<Rightarrow> 'a list" where
  "slice xs i j = (let a = clip_index i (length xs); b = clip_index j (length xs)
                   in take (b - a) (drop a xs))"

lemma clip_index_of_nat [slice_simps, simp]: "clip_index (int i) n = min i n"
  by (simp add: clip_index_def)

lemma clip_index_nonneg: "0 \<le> i \<Longrightarrow> clip_index i n = min (nat i) n"
  by (simp add: clip_index_def)

lemma clip_index_neg [slice_simps]: "0 < k \<Longrightarrow> clip_index (- int k) n = n - k"
  by (auto simp: clip_index_def)

lemma clip_index_numeral [slice_simps, simp]: "clip_index (numeral k) n = min (numeral k) n"
  by (simp add: clip_index_def)

lemma clip_index_neg_numeral [slice_simps, simp]: "clip_index (- numeral k) n = n - numeral k"
  using clip_index_neg [of "numeral k" n] by simp

lemma clip_index_0_1 [slice_simps, simp]:
  "clip_index 0 n = 0" "clip_index 1 n = min 1 n" "clip_index (-1) n = n - 1"
  by (auto simp: clip_index_def)

lemma slice_to_nat [slice_simps, simp]: "slice_to xs (int n) = take n xs"
  by (simp add: slice_to_def min_def)

lemma slice_from_nat [slice_simps, simp]: "slice_from xs (int n) = drop n xs"
  by (simp add: slice_from_def min_def)

lemma slice_to_numeral [slice_simps, simp]: "slice_to xs (numeral k) = take (numeral k) xs"
  by (simp add: slice_to_def min_def)

lemma slice_from_numeral [slice_simps, simp]: "slice_from xs (numeral k) = drop (numeral k) xs"
  by (simp add: slice_from_def min_def)

lemma slice_from_0_1 [slice_simps, simp]: "slice_from xs 0 = xs" "slice_from xs 1 = drop 1 xs"
  by (simp_all add: slice_from_def min_def)

lemma slice_to_neg_numeral [slice_simps, simp]:
  "slice_to xs (- numeral k) = take (length xs - numeral k) xs"
  by (simp add: slice_to_def)

lemma slice_from_neg_numeral [slice_simps, simp]:
  "slice_from xs (- numeral k) = drop (length xs - numeral k) xs"
  by (simp add: slice_from_def)

lemma slice_to_neg [slice_simps]:
  "slice_to xs (- int k) = (if k = 0 then [] else take (length xs - k) xs)"
  by (auto simp: slice_to_def clip_index_neg)

lemma slice_nat [slice_simps, simp]: "slice xs (int i) (int j) = take (j - i) (drop i xs)"
  by (auto simp: slice_def Let_def min_def)

lemma length_slice_to [simp]: "length (slice_to xs i) \<le> length xs"
  by (simp add: slice_to_def)

lemma slice_to_from: "slice_to xs i @ slice_from xs i = xs"
  by (simp add: slice_to_def slice_from_def)

subsection \<open>Results that may be an exception\<close>

definition ebind :: "'e + 'a \<Rightarrow> ('a \<Rightarrow> 'e + 'b) \<Rightarrow> 'e + 'b" where
  "ebind m f = (case m of Inl e \<Rightarrow> Inl e | Inr x \<Rightarrow> f x)"

fun emap :: "('a \<Rightarrow> 'e + 'b) \<Rightarrow> 'a list \<Rightarrow> 'e + 'b list" where
  "emap f [] = Inr []"
| "emap f (x # xs) = ebind (f x) (\<lambda>y. ebind (emap f xs) (\<lambda>ys. Inr (y # ys)))"

lemma ebind_simps [res_simps, simp]: "ebind (Inl e) f = Inl e" "ebind (Inr x) f = f x"
  by (simp_all add: ebind_def)

lemma ebind_Inr_conv [res_simps]: "ebind m f = Inr y \<longleftrightarrow> (\<exists>x. m = Inr x \<and> f x = Inr y)"
  by (cases m) simp_all

lemma ebind_Inl_conv: "ebind m f = Inl e \<longleftrightarrow> m = Inl e \<or> (\<exists>x. m = Inr x \<and> f x = Inl e)"
  by (cases m) simp_all

lemma ebind_split: "P (ebind m f) \<longleftrightarrow> (\<forall>e. m = Inl e \<longrightarrow> P (Inl e)) \<and> (\<forall>x. m = Inr x \<longrightarrow> P (f x))"
  by (cases m) simp_all

lemma emap_Inr: "(\<And>x. x \<in> set xs \<Longrightarrow> f x = Inr (g x)) \<Longrightarrow> emap f xs = Inr (map g xs)"
  by (induction xs) auto

text \<open>
  Operations that change an object and may raise: a raise leaves the changes made so far in
  place, so the state is returned next to the result in both cases.
\<close>

type_synonym ('s, 'e, 'a) st = "'s \<Rightarrow> ('e + 'a) \<times> 's"

definition sret :: "'a \<Rightarrow> ('s, 'e, 'a) st" where
  "sret x = (\<lambda>s. (Inr x, s))"

definition sraise :: "'e \<Rightarrow> ('s, 'e, 'a) st" where
  "sraise e = (\<lambda>s. (Inl e, s))"

definition sbind :: "('s, 'e, 'a) st \<Rightarrow> ('a \<Rightarrow> ('s, 'e, 'b) st) \<Rightarrow> ('s, 'e, 'b) st" where
  "sbind m f = (\<lambda>s. case m s of (Inl e, s') \<Rightarrow> (Inl e, s') | (Inr x, s') \<Rightarrow> f x s')"

definition slift :: "'e + 'a \<Rightarrow> ('s, 'e, 'a) st" where
  "slift r = (\<lambda>s. (r, s))"

definition sget :: "('s, 'e, 's) st" where
  "sget = (\<lambda>s. (Inr s, s))"

definition smodify :: "('s \<Rightarrow> 's) \<Rightarrow> ('s, 'e, unit) st" where
  "smodify f = (\<lambda>s. (Inr (), f s))"

lemmas st_defs = sret_def sraise_def sbind_def slift_def sget_def smodify_def

subsection \<open>Decimal numerals\<close>

fun digits :: "nat \<Rightarrow> nat list" where
  "digits n = (if n < 10 then [n] else digits (n div 10) @ [n mod 10])"

declare digits.simps [simp del]

definition digit_char :: "nat \<Rightarrow> char" where
  "digit_char d = byte_chr (48 + int d)"

definition str_nat :: "nat \<Rightarrow> string" where
  "str_nat n = map digit_char (digits n)"

text \<open>\<open>str(n)\<close> of a Python integer.\<close>

definition str_int :: "int \<Rightarrow> string" where
  "str_int i = (if i < 0 then CHR ''-'' # str_nat (nat (- i)) else str_nat (nat i))"

definition is_digit :: "char \<Rightarrow> bool" where
  "is_digit c \<longleftrightarrow> 48 \<le> byte_ord c \<and> byte_ord c \<le> 57"

definition digit_val :: "char \<Rightarrow> nat" where
  "digit_val c = nat (byte_ord c - 48)"

definition nat_of_digits :: "string \<Rightarrow> nat" where
  "nat_of_digits s = foldl (\<lambda>a c. 10 * a + digit_val c) 0 s"

lemma digits_less_10: "d \<in> set (digits n) \<Longrightarrow> d < 10"
proof (induction n rule: digits.induct)
  case (1 n)
  then show ?case
    by (cases "n < 10") (auto simp: digits.simps [of n])
qed

lemma digits_nonempty [simp]: "digits n \<noteq> []"
  by (subst digits.simps) simp

lemma digit_char_props [simp]:
  assumes "d < 10"
  shows "is_digit (digit_char d)" and "digit_val (digit_char d) = d"
  using assms by (simp_all add: is_digit_def digit_char_def digit_val_def)

lemma foldl_digits: "foldl (\<lambda>a c. 10 * a + digit_val c) 0 (map digit_char (digits n)) = n"
proof (induction n rule: digits.induct)
  case (1 n)
  show ?case
  proof (cases "n < 10")
    case True
    then show ?thesis by (simp add: digits.simps [of n])
  next
    case False
    with 1 show ?thesis by (simp add: digits.simps [of n])
  qed
qed

lemma nat_of_digits_str_nat [simp]: "nat_of_digits (str_nat n) = n"
  by (simp add: nat_of_digits_def str_nat_def foldl_digits)

lemma str_nat_digits: "list_all is_digit (str_nat n)"
  by (auto simp: str_nat_def list_all_iff digits_less_10)

lemma str_nat_nonempty [simp]: "str_nat n \<noteq> []"
  by (simp add: str_nat_def)

lemma str_nat_inject: "str_nat m = str_nat n \<longleftrightarrow> m = n"
  by (metis nat_of_digits_str_nat)

end
