(* ===== verification/Errors.thy ===== *)
theory Errors
  imports Prelude
begin

text \<open>
  \<open>python/src/keyczar/errors.py\<close>: the exceptions of the library, with the values their
  constructors take, next to the Python exceptions that the code can let escape. An operation
  that may raise returns \<open>exn + 'a\<close>.
\<close>

text \<open>
  What indexes the dictionary \<open>Keyczar._keys\<close>, and so what \<open>KeyNotFoundError\<close> carries: \<open>None\<close>,
  a \<open>KeyVersion\<close> object (named by its address in the object store) or a hash identifier.
\<close>

datatype key_id = NoneId | VersionId nat | HashId string

datatype exn =
    KeyczarError string
  | BadVersionError int
  | Base64DecodingError
  | InvalidSignatureError
  | KeyNotFoundError key_id
  | ShortCiphertextError nat
  | ShortSignatureError nat
  | NoPrimaryKeyError
  \<comment> \<open>the Python exceptions the code does not translate\<close>
  | PyKeyError
  | PyIndexError
  | PyValueError
  | PyTypeError
  | PyAttributeError
  | PyAssertionError
  | PyStructError
  | PyUnboundLocalError
  | PyOSError
  | PyIOError
  | PyOverflowError
  | PyUnicodeError
  | PyException string
  \<comment> \<open>not an exception: \<open>os._exit\<close>, after which nothing runs\<close>
  | PyExit int
  \<comment> \<open>not an exception: a value of a type the model does not follow, such as a float for a size\<close>
  | OutsideModel

datatype exn_class =
    C_KeyczarError | C_BadVersionError | C_Base64DecodingError | C_InvalidSignatureError
  | C_KeyNotFoundError | C_ShortCiphertextError | C_ShortSignatureError | C_NoPrimaryKeyError
  | C_Exception

text \<open>The class statement of each exception: its direct base class.\<close>

fun base_class :: "exn_class \<Rightarrow> exn_class" where
  "base_class C_NoPrimaryKeyError = C_KeyNotFoundError"
| "base_class C_KeyczarError = C_Exception"
| "base_class C_Exception = C_Exception"
| "base_class _ = C_KeyczarError"

fun class_of_exn :: "exn \<Rightarrow> exn_class" where
  "class_of_exn (KeyczarError _) = C_KeyczarError"
| "class_of_exn (BadVersionError _) = C_BadVersionError"
| "class_of_exn Base64DecodingError = C_Base64DecodingError"
| "class_of_exn InvalidSignatureError = C_InvalidSignatureError"
| "class_of_exn (KeyNotFoundError _) = C_KeyNotFoundError"
| "class_of_exn (ShortCiphertextError _) = C_ShortCiphertextError"
| "class_of_exn (ShortSignatureError _) = C_ShortSignatureError"
| "class_of_exn NoPrimaryKeyError = C_NoPrimaryKeyError"
| "class_of_exn _ = C_Exception"

text \<open>\<open>except C:\<close> catches an exception whose class is \<open>C\<close> or descends from it.\<close>

definition caught_by :: "exn_class \<Rightarrow> exn \<Rightarrow> bool" where
  "caught_by c e \<longleftrightarrow>
     c = class_of_exn e \<or> c = base_class (class_of_exn e) \<or>
     c = base_class (base_class (class_of_exn e)) \<or> c = C_Exception"

abbreviation is_keyczar_error :: "exn \<Rightarrow> bool" where
  "is_keyczar_error e \<equiv> caught_by C_KeyczarError e"

text \<open>The text each constructor passes to its base class. \<open>repr_id\<close> renders the key identifier.\<close>

fun exn_message :: "(key_id \<Rightarrow> string) \<Rightarrow> exn \<Rightarrow> string" where
  "exn_message repr_id (KeyczarError m) = m"
| "exn_message repr_id (BadVersionError v) = ''Received a bad version number: '' @ str_int v"
| "exn_message repr_id InvalidSignatureError = ''Invalid ciphertext signature''"
| "exn_message repr_id (KeyNotFoundError k) =
     ''Key with hash_val identifier '' @ repr_id k @ '' not found.''"
| "exn_message repr_id (ShortCiphertextError n) =
     ''Input of length '' @ str_nat n @ '' is too short to be valid ciphertext.''"
| "exn_message repr_id (ShortSignatureError n) =
     ''Input of length '' @ str_nat n @ '' is too short to be valid signature.''"
| "exn_message repr_id NoPrimaryKeyError = ''No primary key found''"
| "exn_message repr_id _ = []"

lemma caught_by_KeyczarError [simp]:
  "caught_by C_KeyczarError e \<longleftrightarrow> class_of_exn e \<noteq> C_Exception"
  by (cases e) (simp_all add: caught_by_def)

lemma no_primary_is_key_not_found: "caught_by C_KeyNotFoundError NoPrimaryKeyError"
  by (simp add: caught_by_def)

lemma key_not_found_is_not_no_primary: "\<not> caught_by C_NoPrimaryKeyError (KeyNotFoundError k)"
  by (simp add: caught_by_def)

end
