(* ===== verification/KeyInfo.thy ===== *)
theory KeyInfo
  imports Errors
begin

text \<open>
  \<open>python/src/keyczar/keyinfo.py\<close>: the enumerations of key types, statuses, purposes and cipher
  modes with their attributes, and the dictionaries that read them from their names. Each object
  of the source is one constructor; equality of the objects is identity there and equality here.
\<close>

subsection \<open>Key types\<close>

datatype key_type = AES | HMAC_SHA1 | DSA_PRIV | DSA_PUB | RSA_PRIV | RSA_PUB

fun type_name :: "key_type \<Rightarrow> string" where
  "type_name AES = ''AES''"
| "type_name HMAC_SHA1 = ''HMAC_SHA1''"
| "type_name DSA_PRIV = ''DSA_PRIV''"
| "type_name DSA_PUB = ''DSA_PUB''"
| "type_name RSA_PRIV = ''RSA_PRIV''"
| "type_name RSA_PUB = ''RSA_PUB''"

fun type_id :: "key_type \<Rightarrow> int" where
  "type_id AES = 0"
| "type_id HMAC_SHA1 = 1"
| "type_id DSA_PRIV = 2"
| "type_id DSA_PUB = 3"
| "type_id RSA_PRIV = 4"
| "type_id RSA_PUB = 4"

fun sizes :: "key_type \<Rightarrow> int list" where
  "sizes AES = [128, 192, 256]"
| "sizes HMAC_SHA1 = [256]"
| "sizes DSA_PRIV = [1024]"
| "sizes DSA_PUB = [1024]"
| "sizes RSA_PRIV = [2048, 4096, 1024, 768, 512]"
| "sizes RSA_PUB = [2048, 4096, 1024, 768, 512]"

fun output_size :: "key_type \<Rightarrow> int" where
  "output_size AES = 0"
| "output_size HMAC_SHA1 = 20"
| "output_size DSA_PRIV = 48"
| "output_size DSA_PUB = 48"
| "output_size RSA_PRIV = 256"
| "output_size RSA_PUB = 256"

definition default_size :: "key_type \<Rightarrow> int" where
  "default_size t = hd (sizes t)"

definition IsValidSize :: "key_type \<Rightarrow> int \<Rightarrow> bool" where
  "IsValidSize t n \<longleftrightarrow> n \<in> set (sizes t)"

definition types_dict :: "(string \<times> key_type) list" where
  "types_dict = [(''AES'', AES), (''HMAC_SHA1'', HMAC_SHA1), (''DSA_PRIV'', DSA_PRIV),
     (''DSA_PUB'', DSA_PUB), (''RSA_PRIV'', RSA_PRIV), (''RSA_PUB'', RSA_PUB)]"

definition GetType :: "string \<Rightarrow> exn + key_type" where
  "GetType name = (case map_of types_dict name of
     Some t \<Rightarrow> Inr t | None \<Rightarrow> Inl (KeyczarError ''Invalid Key Type''))"

subsection \<open>Key statuses\<close>

datatype key_status = PRIMARY | ACTIVE | INACTIVE

fun status_name :: "key_status \<Rightarrow> string" where
  "status_name PRIMARY = ''PRIMARY''"
| "status_name ACTIVE = ''ACTIVE''"
| "status_name INACTIVE = ''INACTIVE''"

definition statuses_dict :: "(string \<times> key_status) list" where
  "statuses_dict = [(''PRIMARY'', PRIMARY), (''ACTIVE'', ACTIVE), (''INACTIVE'', INACTIVE)]"

definition GetStatus :: "string \<Rightarrow> exn + key_status" where
  "GetStatus v = (case map_of statuses_dict v of
     Some s \<Rightarrow> Inr s | None \<Rightarrow> Inl (KeyczarError ''Invalid Key Status''))"

subsection \<open>Key purposes\<close>

datatype key_purpose = DECRYPT_AND_ENCRYPT | ENCRYPT | SIGN_AND_VERIFY | VERIFY

fun purpose_name :: "key_purpose \<Rightarrow> string" where
  "purpose_name DECRYPT_AND_ENCRYPT = ''DECRYPT_AND_ENCRYPT''"
| "purpose_name ENCRYPT = ''ENCRYPT''"
| "purpose_name SIGN_AND_VERIFY = ''SIGN_AND_VERIFY''"
| "purpose_name VERIFY = ''VERIFY''"

definition purposes_dict :: "(string \<times> key_purpose) list" where
  "purposes_dict = [(''DECRYPT_AND_ENCRYPT'', DECRYPT_AND_ENCRYPT), (''ENCRYPT'', ENCRYPT),
     (''SIGN_AND_VERIFY'', SIGN_AND_VERIFY), (''VERIFY'', VERIFY)]"

definition GetPurpose :: "string \<Rightarrow> exn + key_purpose" where
  "GetPurpose name = (case map_of purposes_dict name of
     Some p \<Rightarrow> Inr p | None \<Rightarrow> Inl (KeyczarError ''Invalid Key Purpose''))"

subsection \<open>Cipher modes\<close>

datatype cipher_mode = CBC | CTR | ECB | DET_CBC

fun mode_name :: "cipher_mode \<Rightarrow> string" where
  "mode_name CBC = ''CBC''"
| "mode_name CTR = ''CTR''"
| "mode_name ECB = ''ECB''"
| "mode_name DET_CBC = ''DET_CBC''"

fun use_iv :: "cipher_mode \<Rightarrow> bool" where
  "use_iv CBC = True"
| "use_iv CTR = True"
| "use_iv ECB = False"
| "use_iv DET_CBC = False"

text \<open>The size functions, with Python 2's floor division (\<open>b\<close> is a block size, \<open>i\<close> a length).\<close>

fun GetOutputSize :: "cipher_mode \<Rightarrow> int \<Rightarrow> int \<Rightarrow> int" where
  "GetOutputSize CBC b i = (i div b + 2) * b"
| "GetOutputSize CTR b i = i + b div 2"
| "GetOutputSize ECB b i = b"
| "GetOutputSize DET_CBC b i = (i div b + 1) * b"

definition modes_dict :: "(string \<times> cipher_mode) list" where
  "modes_dict = [(''CBC'', CBC), (''CTR'', CTR), (''ECB'', ECB), (''DET_CBC'', DET_CBC)]"

definition GetMode :: "string \<Rightarrow> exn + cipher_mode" where
  "GetMode name = (case map_of modes_dict name of
     Some m \<Rightarrow> Inr m | None \<Rightarrow> Inl (KeyczarError ''Invalid Cipher Mode''))"

subsection \<open>The names read back\<close>

text \<open>
  The four tables share one contract: a table of named values in which every value is stored
  under its own name, so that the lookup inverts the name and rejects every other string.
\<close>

locale name_table =
  fixes table :: "(string \<times> 'v) list"
    and name :: "'v \<Rightarrow> string"
  assumes named: "(s, v) \<in> set table \<Longrightarrow> s = name v"
    and complete: "(name v, v) \<in> set table"
    and functional: "distinct (map fst table)"
begin

lemma lookup_name: "map_of table (name v) = Some v"
  using complete functional by (simp add: map_of_is_SomeI)

lemma lookup_Some_iff: "map_of table s = Some v \<longleftrightarrow> s = name v"
  using lookup_name map_of_SomeD named by metis

lemma lookup_None_iff: "map_of table s = None \<longleftrightarrow> (\<forall>v. s \<noteq> name v)"
  using lookup_Some_iff by (metis not_None_eq)

lemma name_inject: "name v = name w \<longleftrightarrow> v = w"
  using lookup_name by (metis option.inject)

end

interpretation type_table: name_table types_dict type_name
proof
  show "s = type_name v" if "(s, v) \<in> set types_dict" for s v
    using that by (auto simp: types_dict_def)
  show "(type_name v, v) \<in> set types_dict" for v
    by (cases v) (simp_all add: types_dict_def)
  show "distinct (map fst types_dict)"
    by (simp add: types_dict_def)
qed

interpretation status_table: name_table statuses_dict status_name
proof
  show "s = status_name v" if "(s, v) \<in> set statuses_dict" for s v
    using that by (auto simp: statuses_dict_def)
  show "(status_name v, v) \<in> set statuses_dict" for v
    by (cases v) (simp_all add: statuses_dict_def)
  show "distinct (map fst statuses_dict)"
    by (simp add: statuses_dict_def)
qed

interpretation purpose_table: name_table purposes_dict purpose_name
proof
  show "s = purpose_name v" if "(s, v) \<in> set purposes_dict" for s v
    using that by (auto simp: purposes_dict_def)
  show "(purpose_name v, v) \<in> set purposes_dict" for v
    by (cases v) (simp_all add: purposes_dict_def)
  show "distinct (map fst purposes_dict)"
    by (simp add: purposes_dict_def)
qed

interpretation mode_table: name_table modes_dict mode_name
proof
  show "s = mode_name v" if "(s, v) \<in> set modes_dict" for s v
    using that by (auto simp: modes_dict_def)
  show "(mode_name v, v) \<in> set modes_dict" for v
    by (cases v) (simp_all add: modes_dict_def)
  show "distinct (map fst modes_dict)"
    by (simp add: modes_dict_def)
qed

lemma GetType_iff: "GetType s = Inr t \<longleftrightarrow> s = type_name t"
  by (auto simp: GetType_def type_table.lookup_name split: option.splits
      dest: type_table.lookup_Some_iff [THEN iffD1])

lemma GetStatus_iff: "GetStatus s = Inr t \<longleftrightarrow> s = status_name t"
  by (auto simp: GetStatus_def status_table.lookup_name split: option.splits
      dest: status_table.lookup_Some_iff [THEN iffD1])

lemma GetPurpose_iff: "GetPurpose s = Inr t \<longleftrightarrow> s = purpose_name t"
  by (auto simp: GetPurpose_def purpose_table.lookup_name split: option.splits
      dest: purpose_table.lookup_Some_iff [THEN iffD1])

lemma GetMode_iff: "GetMode s = Inr t \<longleftrightarrow> s = mode_name t"
  by (auto simp: GetMode_def mode_table.lookup_name split: option.splits
      dest: mode_table.lookup_Some_iff [THEN iffD1])

lemma GetMode_unknown:
  "(\<forall>m. s \<noteq> mode_name m) \<longleftrightarrow> GetMode s = Inl (KeyczarError ''Invalid Cipher Mode'')"
  using mode_table.lookup_None_iff [of s] by (auto simp: GetMode_def split: option.splits)

lemma get_names [simp]:
  "GetType (type_name t) = Inr t" "GetStatus (status_name s) = Inr s"
  "GetPurpose (purpose_name p) = Inr p" "GetMode (mode_name m) = Inr m"
  by (simp_all add: GetType_iff GetStatus_iff GetPurpose_iff GetMode_iff)

lemma default_size_valid [simp]: "IsValidSize t (default_size t)"
  by (cases t) (simp_all add: IsValidSize_def default_size_def)

lemma valid_size_bytes: "IsValidSize t n \<Longrightarrow> 8 dvd n \<and> 0 < n"
  by (cases t) (auto simp: IsValidSize_def)

end
