(* ===== verification/Json.thy ===== *)
theory Json
  imports Errors
begin

text \<open>
  What the source uses of the \<open>json\<close> module: \<open>json.dumps\<close> with its default separators and
  \<open>ensure_ascii\<close>, and \<open>json.loads\<close>. Text is limited to code points below 256 (an escape beyond
  them reads as \<open>OutsideModel\<close>), a literal with a fraction or an exponent is kept as the text it
  was written with, and an object is the list of its members in the order of the text. Python's
  dictionaries list their members in no particular order: \<open>json_get_perm\<close> shows that a reader of
  the members by name does not see it.
\<close>

datatype json =
    JNull
  | JBool bool
  | JInt int
  | JFloat string
  | JStr string
  | JList "json list"
  | JObj "(string \<times> json) list"

subsection \<open>Writing\<close>

definition hex_digit :: "nat \<Rightarrow> char" where
  "hex_digit d = (if d < 10 then byte_chr (48 + int d) else byte_chr (87 + int d))"

definition json_escape :: "char \<Rightarrow> string" where
  "json_escape c = (let n = nat (byte_ord c) in
     if c = CHR 0x22 then [CHR 0x5C, CHR 0x22]
     else if c = CHR 0x5C then [CHR 0x5C, CHR 0x5C]
     else if n = 10 then [CHR 0x5C, CHR ''n'']
     else if n = 13 then [CHR 0x5C, CHR ''r'']
     else if n = 9 then [CHR 0x5C, CHR ''t'']
     else if n = 12 then [CHR 0x5C, CHR ''f'']
     else if n = 8 then [CHR 0x5C, CHR ''b'']
     else if n < 32 \<or> 126 < n
     then [CHR 0x5C, CHR ''u'', CHR ''0'', CHR ''0'', hex_digit (n div 16), hex_digit (n mod 16)]
     else [c])"

definition json_string :: "string \<Rightarrow> string" where
  "json_string s = CHR 0x22 # concat (map json_escape s) @ [CHR 0x22]"

fun join_with :: "string \<Rightarrow> string list \<Rightarrow> string" where
  "join_with sep [] = []"
| "join_with sep [x] = x"
| "join_with sep (x # y # xs) = x @ sep @ join_with sep (y # xs)"

fun json_dumps :: "json \<Rightarrow> string" where
  "json_dumps JNull = ''null''"
| "json_dumps (JBool b) = (if b then ''true'' else ''false'')"
| "json_dumps (JInt i) = str_int i"
| "json_dumps (JFloat t) = t"
| "json_dumps (JStr s) = json_string s"
| "json_dumps (JList vs) = CHR ''['' # join_with '', '' (map json_dumps vs) @ '']''"
| "json_dumps (JObj ms) =
     CHR ''{'' # join_with '', '' (map (\<lambda>(k, v). json_string k @ '': '' @ json_dumps v) ms) @ ''}''"

subsection \<open>Reading\<close>

definition json_ws :: "char \<Rightarrow> bool" where
  "json_ws c \<longleftrightarrow> c = CHR '' '' \<or> c = CHR 0x09 \<or> c = CHR 0x0A \<or> c = CHR 0x0D"

definition skip_ws :: "string \<Rightarrow> string" where
  "skip_ws s = dropWhile json_ws s"

definition hex_val :: "char \<Rightarrow> nat option" where
  "hex_val c = (let n = nat (byte_ord c) in
     if 48 \<le> n \<and> n \<le> 57 then Some (n - 48)
     else if 97 \<le> n \<and> n \<le> 102 then Some (n - 87)
     else if 65 \<le> n \<and> n \<le> 70 then Some (n - 55) else None)"

definition hex4 :: "char \<Rightarrow> char \<Rightarrow> char \<Rightarrow> char \<Rightarrow> exn + char" where
  "hex4 a b c d = (case (hex_val a, hex_val b, hex_val c, hex_val d) of
     (Some w, Some x, Some y, Some z) \<Rightarrow>
       (if w = 0 \<and> x = 0 then Inr (byte_chr (int (16 * y + z))) else Inl OutsideModel)
   | _ \<Rightarrow> Inl PyValueError)"

definition unescape1 :: "char \<Rightarrow> char option" where
  "unescape1 c = map_of [(CHR 0x22, CHR 0x22), (CHR 0x5C, CHR 0x5C), (CHR ''/'', CHR ''/''),
     (CHR ''b'', CHR 0x08), (CHR ''f'', CHR 0x0C), (CHR ''n'', CHR 0x0A), (CHR ''r'', CHR 0x0D),
     (CHR ''t'', CHR 0x09)] c"

text \<open>The rest of a string literal, after the opening quote; control characters are errors.\<close>

fun json_str :: "string \<Rightarrow> exn + string \<times> string" where
  "json_str [] = Inl PyValueError"
| "json_str (c # s) =
     (if c = CHR 0x22 then Inr ([], s)
      else if c = CHR 0x5C then
        (case s of
           [] \<Rightarrow> Inl PyValueError
         | e # s' \<Rightarrow>
             (if e = CHR ''u'' then
                (case s' of
                   h1 # h2 # h3 # h4 # r \<Rightarrow>
                     ebind (hex4 h1 h2 h3 h4) (\<lambda>x. ebind (json_str r) (\<lambda>(t, r'). Inr (x # t, r')))
                 | _ \<Rightarrow> Inl PyValueError)
              else (case unescape1 e of
                  None \<Rightarrow> Inl PyValueError
                | Some x \<Rightarrow> ebind (json_str s') (\<lambda>(t, r'). Inr (x # t, r')))))
      else if byte_ord c < 32 then Inl PyValueError
      else ebind (json_str s) (\<lambda>(t, r'). Inr (c # t, r')))"

text \<open>
  A number: an optional sign, digits without a leading zero, and then perhaps a fraction and an
  exponent. A dot or an exponent mark without digits after it is not part of the number.
\<close>

definition int_part :: "string \<Rightarrow> string \<times> string" where
  "int_part s = (case s of [] \<Rightarrow> ([], [])
     | c # r \<Rightarrow> if c = CHR ''0'' then ([c], r) else (takeWhile is_digit s, dropWhile is_digit s))"

definition frac_part :: "string \<Rightarrow> string \<times> string" where
  "frac_part s = (case s of
       c # r \<Rightarrow> if c = CHR ''.'' \<and> takeWhile is_digit r \<noteq> []
                then (c # takeWhile is_digit r, dropWhile is_digit r) else ([], s)
     | [] \<Rightarrow> ([], s))"

definition exp_part :: "string \<Rightarrow> string \<times> string" where
  "exp_part s = (case s of
       c # r \<Rightarrow> (let sg = takeWhile (\<lambda>x. x = CHR ''+'' \<or> x = CHR ''-'') (take 1 r);
                    ds = drop (length sg) r
                in if (c = CHR ''e'' \<or> c = CHR ''E'') \<and> takeWhile is_digit ds \<noteq> []
                   then (c # sg @ takeWhile is_digit ds, dropWhile is_digit ds) else ([], s))
     | [] \<Rightarrow> ([], s))"

definition json_number :: "string \<Rightarrow> exn + json \<times> string" where
  "json_number s =
     (let (sg, s1) = (case s of c # r \<Rightarrow> if c = CHR ''-'' then ([c], r) else ([], s) | [] \<Rightarrow> ([], s));
          (ip, s2) = int_part s1;
          (fp, s3) = frac_part s2;
          (ep, s4) = exp_part s3
      in if ip = [] then Inl PyValueError
         else if fp = [] \<and> ep = []
         then Inr (JInt (if sg = [] then int (nat_of_digits ip) else - int (nat_of_digits ip)), s4)
         else Inr (JFloat (sg @ ip @ fp @ ep), s4))"

definition strip_prefix :: "string \<Rightarrow> string \<Rightarrow> string option" where
  "strip_prefix p s = (if take (length p) s = p then Some (drop (length p) s) else None)"

definition json_atom :: "string \<Rightarrow> exn + json \<times> string" where
  "json_atom s = (case strip_prefix ''null'' s of Some r \<Rightarrow> Inr (JNull, r) | None \<Rightarrow>
     (case strip_prefix ''true'' s of Some r \<Rightarrow> Inr (JBool True, r) | None \<Rightarrow>
     (case strip_prefix ''false'' s of Some r \<Rightarrow> Inr (JBool False, r) | None \<Rightarrow>
     (case strip_prefix ''NaN'' s of Some r \<Rightarrow> Inr (JFloat ''NaN'', r) | None \<Rightarrow>
     (case strip_prefix ''Infinity'' s of Some r \<Rightarrow> Inr (JFloat ''Infinity'', r) | None \<Rightarrow>
     (case strip_prefix ''-Infinity'' s of Some r \<Rightarrow> Inr (JFloat ''-Infinity'', r) | None \<Rightarrow>
     json_number s))))))"

text \<open>
  The values, on fuel; every recursive call is for a shorter text, so the length of the text is
  enough (\<open>json_loads_dumps\<close> shows it for everything that was written).
\<close>

fun json_value :: "nat \<Rightarrow> string \<Rightarrow> exn + json \<times> string"
  and json_elems :: "nat \<Rightarrow> string \<Rightarrow> exn + json list \<times> string"
  and json_members :: "nat \<Rightarrow> string \<Rightarrow> exn + (string \<times> json) list \<times> string" where
  "json_value 0 s = Inl PyValueError"
| "json_value (Suc n) s = (case s of
     [] \<Rightarrow> Inl PyValueError
   | c # r \<Rightarrow>
      (if c = CHR 0x22 then ebind (json_str r) (\<lambda>(t, r'). Inr (JStr t, r'))
       else if c = CHR ''['' then
         (case skip_ws r of
            [] \<Rightarrow> Inl PyValueError
          | d # r' \<Rightarrow> if d = CHR '']'' then Inr (JList [], r')
                     else ebind (json_elems n (d # r')) (\<lambda>(vs, r2). Inr (JList vs, r2)))
       else if c = CHR ''{'' then
         (case skip_ws r of
            [] \<Rightarrow> Inl PyValueError
          | d # r' \<Rightarrow> if d = CHR ''}'' then Inr (JObj [], r')
                     else ebind (json_members n (d # r')) (\<lambda>(ms, r2). Inr (JObj ms, r2)))
       else json_atom s))"
| "json_elems 0 s = Inl PyValueError"
| "json_elems (Suc n) s =
     ebind (json_value n s) (\<lambda>(v, r). case skip_ws r of
         [] \<Rightarrow> Inl PyValueError
       | d # r' \<Rightarrow> (if d = CHR '','' then
                     ebind (json_elems n (skip_ws r')) (\<lambda>(vs, r2). Inr (v # vs, r2))
                   else if d = CHR '']'' then Inr ([v], r') else Inl PyValueError))"
| "json_members 0 s = Inl PyValueError"
| "json_members (Suc n) s = (case s of
     [] \<Rightarrow> Inl PyValueError
   | q # s' \<Rightarrow> (if q \<noteq> CHR 0x22 then Inl PyValueError else
       ebind (json_str s') (\<lambda>(k, r0). case skip_ws r0 of
         [] \<Rightarrow> Inl PyValueError
       | col # r1 \<Rightarrow> (if col \<noteq> CHR '':'' then Inl PyValueError else
           ebind (json_value n (skip_ws r1)) (\<lambda>(v, r). case skip_ws r of
             [] \<Rightarrow> Inl PyValueError
           | d # r' \<Rightarrow> (if d = CHR '','' then
                 ebind (json_members n (skip_ws r')) (\<lambda>(ms, r2). Inr ((k, v) # ms, r2))
               else if d = CHR ''}'' then Inr ([(k, v)], r') else Inl PyValueError))))))"

definition json_loads :: "string \<Rightarrow> exn + json" where
  "json_loads s = ebind (json_value (Suc (length s)) (skip_ws s)) (\<lambda>(v, r).
     if skip_ws r = [] then Inr v else Inl PyValueError)"

subsection \<open>Member access\<close>

text \<open>
  \<open>v[name]\<close>: of the members with the same name the last one counts; a missing name is a
  \<open>KeyError\<close>, and indexing something else with a string a \<open>TypeError\<close>.
\<close>

definition json_get :: "string \<Rightarrow> json \<Rightarrow> exn + json" where
  "json_get name v = (case v of
       JObj ms \<Rightarrow> (case map_of (rev ms) name of Some x \<Rightarrow> Inr x | None \<Rightarrow> Inl PyKeyError)
     | _ \<Rightarrow> Inl PyTypeError)"

text \<open>The value where the code needs text, an integer or a truth value to go on.\<close>

fun as_str :: "json \<Rightarrow> exn + string" where
  "as_str (JStr s) = Inr s"
| "as_str _ = Inl OutsideModel"

fun as_int :: "json \<Rightarrow> exn + int" where
  "as_int (JInt i) = Inr i"
| "as_int _ = Inl OutsideModel"

fun as_bool :: "json \<Rightarrow> exn + bool" where
  "as_bool (JBool b) = Inr b"
| "as_bool _ = Inl OutsideModel"

fun as_list :: "json \<Rightarrow> exn + json list" where
  "as_list (JList vs) = Inr vs"
| "as_list _ = Inl OutsideModel"

definition get_str :: "string \<Rightarrow> json \<Rightarrow> exn + string" where
  "get_str name v = ebind (json_get name v) as_str"

definition get_int :: "string \<Rightarrow> json \<Rightarrow> exn + int" where
  "get_int name v = ebind (json_get name v) as_int"

lemma json_get_perm:
  assumes "distinct (map fst ms)" and "distinct (map fst ms')" and "set ms = set ms'"
  shows "json_get name (JObj ms) = json_get name (JObj ms')"
proof -
  have "map_of (rev ms) = map_of (rev ms')"
    using assms by (subst map_of_inject_set) (simp_all flip: rev_map)
  then show ?thesis by (simp add: json_get_def)
qed

subsection \<open>What is written reads back\<close>

lemma hex_digit_val: "d < 16 \<Longrightarrow> hex_val (hex_digit d) = Some d"
proof -
  assume d: "d < 16"
  have "byte_ord (hex_digit d) = (if d < 10 then 48 + int d else 87 + int d)"
    using d by (auto simp: hex_digit_def intro!: byte_ord_chr)
  then have "nat (byte_ord (hex_digit d)) = (if d < 10 then 48 + d else 87 + d)"
    by (simp only:) (simp add: nat_add_distrib split: if_splits)
  then show ?thesis using d unfolding hex_val_def Let_def by (simp only:) auto
qed

lemma hex4_escape:
  "hex4 CHR ''0'' CHR ''0'' (hex_digit (nat (byte_ord c) div 16)) (hex_digit (nat (byte_ord c) mod 16)) = Inr c"
proof -
  have "nat (byte_ord c) < 16 * 16" using byte_ord_less [of c] by linarith
  then have "nat (byte_ord c) div 16 < 16" by (rule less_mult_imp_div_less)
  moreover have "16 * (nat (byte_ord c) div 16) + nat (byte_ord c) mod 16 = nat (byte_ord c)"
    by (rule mult_div_mod_eq)
  moreover have "hex_val CHR ''0'' = Some 0" by (simp add: hex_val_def)
  ultimately show ?thesis
    by (simp only: hex4_def hex_digit_val prod.case option.case simp_thms if_True) simp
qed

lemma json_str_escape:
  "json_str (json_escape c @ s) = ebind (json_str s) (\<lambda>(t, r). Inr (c # t, r))"
proof -
  have printable: "json_str (c # s) = ebind (json_str s) (\<lambda>(t, r). Inr (c # t, r))"
    if "c \<noteq> CHR 0x22" "c \<noteq> CHR 0x5C" "32 \<le> nat (byte_ord c)"
  proof -
    have "32 \<le> byte_ord c" using that(3) by linarith
    with that(1,2) show ?thesis by simp
  qed
  have ctrl: "unescape1 CHR ''n'' = Some CHR 0x0A" "unescape1 CHR ''r'' = Some CHR 0x0D"
    "unescape1 CHR ''t'' = Some CHR 0x09" "unescape1 CHR ''f'' = Some CHR 0x0C"
    "unescape1 CHR ''b'' = Some CHR 0x08" "unescape1 CHR 0x22 = Some CHR 0x22"
    "unescape1 CHR 0x5C = Some CHR 0x5C"
    by (simp_all add: unescape1_def)
  have ord: "c = CHR 0x0A" if "of_char c = (10 :: nat)"
    using that of_char_eq_iff [of c "CHR 0x0A", where 'a = nat] by simp
  have ord': "c = CHR 0x0D" if "of_char c = (13 :: nat)"
    using that of_char_eq_iff [of c "CHR 0x0D", where 'a = nat] by simp
  have ord'': "c = CHR 0x09" if "of_char c = (9 :: nat)"
    using that of_char_eq_iff [of c "CHR 0x09", where 'a = nat] by simp
  have ord3: "c = CHR 0x0C" if "of_char c = (12 :: nat)"
    using that of_char_eq_iff [of c "CHR 0x0C", where 'a = nat] by simp
  have ord4: "c = CHR 0x08" if "of_char c = (8 :: nat)"
    using that of_char_eq_iff [of c "CHR 0x08", where 'a = nat] by simp
  show ?thesis
    unfolding json_escape_def Let_def
    using printable hex4_escape [of c]
    by (auto simp: ctrl dest: ord ord' ord'' ord3 ord4)
qed

lemma json_str_string: "json_str (concat (map json_escape t) @ CHR 0x22 # r) = Inr (t, r)"
  by (induction t) (simp_all add: json_str_escape)

lemma digits_head: "0 < n \<Longrightarrow> hd (digits n) \<noteq> 0"
proof (induction n rule: digits.induct)
  case (1 n)
  then show ?case by (subst digits.simps) (auto simp: hd_append)
qed

definition follows :: "string \<Rightarrow> bool" where
  "follows r \<longleftrightarrow> r = [] \<or> hd r \<in> {CHR '','', CHR '']'', CHR ''}'', CHR 0x0A}"

lemma follows_parts:
  assumes "follows r"
  shows "frac_part r = ([], r)" and "exp_part r = ([], r)"
    and "takeWhile is_digit r = []" and "dropWhile is_digit r = r"
  using assms by (cases r; auto simp: follows_def frac_part_def exp_part_def is_digit_def Let_def)+

lemma int_part_str_nat:
  assumes "follows r"
  shows "int_part (str_nat n @ r) = (str_nat n, r)"
proof (cases "n = 0")
  case True
  then show ?thesis by (simp add: str_nat_def digits.simps digit_char_def int_part_def char_of_def)
next
  case False
  obtain d ds where d: "digits n = d # ds" by (cases "digits n") auto
  then have d9: "d < 10" "d \<noteq> 0" using digits_less_10 [of d n] digits_head [of n] False by auto
  have "digit_val CHR ''0'' = 0" by (simp add: digit_val_def)
  with d9 have "digit_char d \<noteq> CHR ''0''" using digit_char_props(2) [of d] by metis
  moreover have "takeWhile is_digit (str_nat n @ r) = str_nat n"
    and "dropWhile is_digit (str_nat n @ r) = r"
    using str_nat_digits [of n] follows_parts [OF assms]
    by (simp_all add: list_all_iff)
  ultimately show ?thesis by (simp add: int_part_def str_nat_def d)
qed

lemma str_nat_not_minus: "str_nat n = c # s \<Longrightarrow> is_digit c"
  using str_nat_digits [of n] by simp

lemma json_number_str_int:
  assumes "follows r"
  shows "json_number (str_int i @ r) = Inr (JInt i, r)"
proof (cases "i < 0")
  case True
  with assms show ?thesis
    by (simp add: str_int_def json_number_def int_part_str_nat follows_parts)
next
  case False
  obtain c s where cs: "str_nat (nat i) = c # s" by (cases "str_nat (nat i)") auto
  then have "c \<noteq> CHR ''-''" using str_nat_not_minus by (fastforce simp: is_digit_def)
  with False cs int_part_str_nat [OF assms, of "nat i"] assms show ?thesis
    using nat_of_digits_str_nat [of "nat i"]
    by (simp add: str_int_def json_number_def follows_parts)
qed

text \<open>Values without float literals.\<close>

fun json_plain :: "json \<Rightarrow> bool" where
  "json_plain (JFloat _) = False"
| "json_plain (JList vs) = list_all json_plain vs"
| "json_plain (JObj ms) = list_all (\<lambda>m. json_plain (snd m)) ms"
| "json_plain _ = True"

definition value_head :: "string \<Rightarrow> bool" where
  "value_head s \<longleftrightarrow> (\<exists>c t. s = c # t \<and> \<not> json_ws c \<and> c \<noteq> CHR '']'' \<and> c \<noteq> CHR ''}'')"

lemma digit_head: "is_digit c \<Longrightarrow> \<not> json_ws c \<and> c \<notin> {CHR '']'', CHR ''}'', CHR 0x22, CHR ''['', CHR ''{'', CHR ''n'', CHR ''t'', CHR ''f'', CHR ''N'', CHR ''I''}"
  by (auto simp: is_digit_def json_ws_def)

lemma str_int_head:
  obtains c t where "str_int i = c # t" "is_digit c \<or> c = CHR ''-'' \<and> t \<noteq> [] \<and> is_digit (hd t)"
proof (cases "i < 0")
  case True
  then show ?thesis using that str_nat_digits [of "nat (- i)"]
    by (cases "str_nat (nat (- i))") (auto simp: str_int_def)
next
  case False
  then show ?thesis using that str_nat_digits [of "nat i"]
    by (cases "str_nat (nat i)") (auto simp: str_int_def)
qed

lemma dumps_head: "json_plain v \<Longrightarrow> value_head (json_dumps v @ r)"
proof (cases v)
  case (JInt i)
  obtain c t where "str_int i = c # t" "is_digit c \<or> c = CHR ''-'' \<and> t \<noteq> [] \<and> is_digit (hd t)"
    by (rule str_int_head)
  then show ?thesis using JInt digit_head [of c] by (auto simp: value_head_def json_ws_def)
qed (auto simp: value_head_def json_ws_def json_string_def)

lemma skip_ws_head: "value_head s \<Longrightarrow> skip_ws s = s"
  by (auto simp: value_head_def skip_ws_def)

lemma skip_ws_simps [simp]:
  "skip_ws (CHR '' '' # s) = skip_ws s" "skip_ws (CHR '','' # s) = CHR '','' # s"
  "skip_ws (CHR '']'' # s) = CHR '']'' # s" "skip_ws (CHR ''}'' # s) = CHR ''}'' # s"
  "skip_ws (CHR 0x22 # s) = CHR 0x22 # s" "skip_ws (CHR '':'' # s) = CHR '':'' # s"
  "skip_ws [] = []"
  by (simp_all add: skip_ws_def json_ws_def)

lemma strip_prefix_head: "c \<noteq> d \<Longrightarrow> strip_prefix (d # p) (c # s) = None"
  by (simp add: strip_prefix_def)

lemma json_atom_str_int:
  assumes "follows r"
  shows "json_atom (str_int i @ r) = Inr (JInt i, r)"
proof -
  obtain c t where s: "str_int i = c # t" and c: "is_digit c \<or> c = CHR ''-'' \<and> t \<noteq> [] \<and> is_digit (hd t)"
    by (rule str_int_head)
  have "c \<noteq> CHR ''n'' \<and> c \<noteq> CHR ''t'' \<and> c \<noteq> CHR ''f'' \<and> c \<noteq> CHR ''N'' \<and> c \<noteq> CHR ''I''"
  proof (cases "is_digit c")
    case True
    then show ?thesis using digit_head [of c] by simp
  next
    case False
    with c have "c = CHR ''-''" by blast
    then show ?thesis by simp
  qed
  note no = this
  have no': "strip_prefix ''-Infinity'' (c # t @ r) = None"
  proof (cases "is_digit c")
    case True
    then have "c \<noteq> CHR ''-''" by (auto simp: is_digit_def)
    then show ?thesis by (simp add: strip_prefix_head)
  next
    case False
    then obtain d u where "t = d # u" "is_digit d" using c by (cases t) auto
    then have "d \<noteq> CHR ''I''" by (auto simp: is_digit_def)
    then show ?thesis using \<open>t = d # u\<close> by (auto simp: strip_prefix_def)
  qed
  have "json_number (c # t @ r) = Inr (JInt i, r)"
    using json_number_str_int [OF assms, of i] s by simp
  with no no' show ?thesis unfolding s by (simp add: json_atom_def strip_prefix_head)
qed

lemma json_value_int:
  assumes "follows r"
  shows "json_value (Suc n) (str_int i @ r) = Inr (JInt i, r)"
proof -
  obtain c t where s: "str_int i = c # t" and c: "is_digit c \<or> c = CHR ''-'' \<and> t \<noteq> [] \<and> is_digit (hd t)"
    by (rule str_int_head)
  have "c \<noteq> CHR 0x22 \<and> c \<noteq> CHR ''['' \<and> c \<noteq> CHR ''{''"
  proof (cases "is_digit c")
    case True
    then show ?thesis using digit_head [of c] by simp
  next
    case False
    with c have "c = CHR ''-''" by blast
    then show ?thesis by simp
  qed
  moreover have "json_atom (c # t @ r) = Inr (JInt i, r)"
    using json_atom_str_int [OF assms, of i] unfolding s by simp
  ultimately show ?thesis unfolding s by simp
qed

abbreviation dump_member :: "string \<times> json \<Rightarrow> string" where
  "dump_member \<equiv> \<lambda>(k, v). json_string k @ '': '' @ json_dumps v"

text \<open>The induction hypothesis for a value, and what it gives for the elements of a sequence.\<close>

definition reads_back :: "json \<Rightarrow> bool" where
  "reads_back v \<longleftrightarrow> (\<forall>n r. length (json_dumps v) \<le> n \<longrightarrow> follows r \<longrightarrow>
     json_value n (json_dumps v @ r) = Inr (v, r))"

lemma follows_simps [simp]:
  "follows (CHR '','' # s)" "follows (CHR '']'' # s)" "follows (CHR ''}'' # s)" "follows (CHR 0x0A # s)" "follows []"
  by (simp_all add: follows_def)

lemma json_elems_dumps:
  assumes "\<forall>v \<in> set (v # vs). json_plain v \<and> reads_back v"
    and "length (join_with '', '' (map json_dumps (v # vs))) < n"
  shows "json_elems n (join_with '', '' (map json_dumps (v # vs)) @ CHR '']'' # r) = Inr (v # vs, r)"
  using assms
proof (induction vs arbitrary: v n)
  case Nil
  then obtain m where n: "n = Suc m" by (cases n) auto
  have "json_value m (json_dumps v @ CHR '']'' # r) = Inr (v, CHR '']'' # r)"
    using Nil n by (simp add: reads_back_def)
  with n show ?case by simp
next
  case (Cons w vs)
  then obtain m where n: "n = Suc m" by (cases n) auto
  let ?rest = "join_with '', '' (map json_dumps (w # vs)) @ CHR '']'' # r"
  have v: "json_value m (json_dumps v @ '', '' @ ?rest) = Inr (v, '', '' @ ?rest)"
    using Cons.prems n by (simp add: reads_back_def)
  have "value_head ?rest"
    using Cons.prems(1) dumps_head [of w] by (cases vs) auto
  then have sk: "skip_ws ?rest = ?rest" by (rule skip_ws_head)
  have rest: "json_elems m ?rest = Inr (w # vs, r)"
    using Cons.prems n by (intro Cons.IH) simp_all
  show ?case unfolding n using v sk rest by simp
qed

lemma value_head_string: "value_head (json_string k @ s)"
  by (simp add: value_head_def json_string_def json_ws_def)

lemma json_members_dumps:
  assumes "\<forall>m \<in> set (m # ms). json_plain (snd m) \<and> reads_back (snd m)"
    and "length (join_with '', '' (map dump_member (m # ms))) < n"
  shows "json_members n (join_with '', '' (map dump_member (m # ms)) @ CHR ''}'' # r) = Inr (m # ms, r)"
  using assms
proof (induction ms arbitrary: m n)
  case Nil
  obtain k v where m: "m = (k, v)" by fastforce
  from Nil obtain j where n: "n = Suc j" by (cases n) auto
  have v: "json_value j (json_dumps v @ CHR ''}'' # r) = Inr (v, CHR ''}'' # r)"
    using Nil n m by (simp add: reads_back_def)
  have "skip_ws (json_dumps v @ CHR ''}'' # r) = json_dumps v @ CHR ''}'' # r"
    using Nil m by (intro skip_ws_head dumps_head) simp
  with v show ?case by (simp add: n m json_string_def json_str_string)
next
  case (Cons m' ms)
  obtain k v where m: "m = (k, v)" by fastforce
  from Cons.prems obtain j where n: "n = Suc j" by (cases n) auto
  let ?rest = "join_with '', '' (map dump_member (m' # ms)) @ CHR ''}'' # r"
  have v: "json_value j (json_dumps v @ '', '' @ ?rest) = Inr (v, '', '' @ ?rest)"
    using Cons.prems n m by (simp add: reads_back_def)
  have sv: "skip_ws (json_dumps v @ '', '' @ ?rest) = json_dumps v @ '', '' @ ?rest"
    using Cons.prems m by (intro skip_ws_head dumps_head) simp
  have "value_head ?rest"
    using value_head_string by (cases m'; cases ms) simp_all
  then have sk: "skip_ws ?rest = ?rest" by (rule skip_ws_head)
  have rest: "json_members j ?rest = Inr (m' # ms, r)"
    using Cons.prems n by (intro Cons.IH) (simp_all add: m)
  have "json_members n (json_string k @ '': '' @ json_dumps v @ '', '' @ ?rest) = Inr ((k, v) # m' # ms, r)"
    using v sv sk rest by (simp add: n json_string_def json_str_string)
  then show ?case by (simp add: m)
qed

lemma reads_back_plain: "json_plain v \<Longrightarrow> reads_back v"
proof (induction v)
  case (JList vs)
  show ?case unfolding reads_back_def
  proof (intro allI impI)
    fix n r
    assume len: "length (json_dumps (JList vs)) \<le> n" and "follows r"
    then obtain m where n: "n = Suc m" by (cases n) auto
    show "json_value n (json_dumps (JList vs) @ r) = Inr (JList vs, r)"
    proof (cases vs)
      case Nil
      with n show ?thesis by simp
    next
      case (Cons w ws)
      let ?t = "join_with '', '' (map json_dumps (w # ws))"
      have all: "\<forall>v \<in> set (w # ws). json_plain v \<and> reads_back v"
        using JList Cons by (auto simp: list_all_iff)
      have "json_elems m (?t @ CHR '']'' # r) = Inr (w # ws, r)"
        using len n Cons by (intro json_elems_dumps all) simp
      moreover have "value_head (?t @ CHR '']'' # r)"
        using all dumps_head [of w] by (cases ws) auto
      ultimately show ?thesis
        using skip_ws_head [of "?t @ CHR '']'' # r"] unfolding Cons n value_head_def by auto
    qed
  qed
next
  case (JObj ms)
  show ?case unfolding reads_back_def
  proof (intro allI impI)
    fix n r
    assume len: "length (json_dumps (JObj ms)) \<le> n" and "follows r"
    then obtain j where n: "n = Suc j" by (cases n) auto
    show "json_value n (json_dumps (JObj ms) @ r) = Inr (JObj ms, r)"
    proof (cases ms)
      case Nil
      with n show ?thesis by simp
    next
      case (Cons m ms')
      let ?t = "join_with '', '' (map dump_member (m # ms'))"
      have "json_plain v \<and> reads_back v" if "(k, v) \<in> set ms" for k v
        using JObj.IH [OF that, of v] JObj.prems that by (auto simp: list_all_iff)
      then have all: "\<forall>m \<in> set (m # ms'). json_plain (snd m) \<and> reads_back (snd m)"
        unfolding Cons by (metis prod.collapse)
      have "json_members j (?t @ CHR ''}'' # r) = Inr (m # ms', r)"
        using len n Cons by (intro json_members_dumps all) simp
      moreover have "value_head (?t @ CHR ''}'' # r)"
        using value_head_string by (cases m; cases ms') simp_all
      ultimately show ?thesis
        using skip_ws_head [of "?t @ CHR ''}'' # r"] unfolding Cons n value_head_def by auto
    qed
  qed
next
  case (JInt i)
  show ?case unfolding reads_back_def
  proof (intro allI impI)
    fix n r
    assume "length (json_dumps (JInt i)) \<le> n" and r: "follows r"
    moreover obtain c t where "str_int i = c # t" by (rule str_int_head)
    ultimately obtain m where "n = Suc m" by (cases n) auto
    then show "json_value n (json_dumps (JInt i) @ r) = Inr (JInt i, r)"
      using json_value_int [OF r] by simp
  qed
next
  case (JStr t)
  show ?case unfolding reads_back_def
  proof (intro allI impI)
    fix n r
    assume "length (json_dumps (JStr t)) \<le> n"
    then obtain m where "n = Suc m" by (cases n) (auto simp: json_string_def)
    then show "json_value n (json_dumps (JStr t) @ r) = Inr (JStr t, r)"
      by (simp add: json_string_def json_str_string)
  qed
next
  case JNull
  show ?case unfolding reads_back_def
  proof (intro allI impI)
    fix n r
    assume "length (json_dumps JNull) \<le> n"
    then obtain m where "n = Suc m" by (cases n) auto
    then show "json_value n (json_dumps JNull @ r) = Inr (JNull, r)"
      by (simp add: json_atom_def strip_prefix_def)
  qed
next
  case (JBool b)
  show ?case unfolding reads_back_def
  proof (intro allI impI)
    fix n r
    assume "length (json_dumps (JBool b)) \<le> n"
    then obtain m where "n = Suc m" by (cases n) (auto split: if_splits)
    then show "json_value n (json_dumps (JBool b) @ r) = Inr (JBool b, r)"
      by (cases b) (simp_all add: json_atom_def strip_prefix_def)
  qed
qed simp

lemma json_loads_dumps: "json_plain v \<Longrightarrow> json_loads (json_dumps v) = Inr v"
proof -
  assume v: "json_plain v"
  have "skip_ws (json_dumps v) = json_dumps v"
    using dumps_head [OF v, of "[]"] by (simp add: skip_ws_head)
  moreover have "json_value (Suc (length (json_dumps v))) (json_dumps v @ []) = Inr (v, [])"
    using reads_back_plain [OF v] by (simp add: reads_back_def del: append_Nil2 json_value.simps)
  ultimately show ?thesis by (simp add: json_loads_def del: json_value.simps)
qed

text \<open>The same for the line that \<open>print\<close> makes of it.\<close>

lemma json_loads_line: "json_plain v \<Longrightarrow> json_loads (json_dumps v @ [CHR 0x0A]) = Inr v"
proof -
  assume v: "json_plain v"
  have "skip_ws (json_dumps v @ [CHR 0x0A]) = json_dumps v @ [CHR 0x0A]"
    using dumps_head [OF v] by (rule skip_ws_head)
  moreover have "json_value (Suc (length (json_dumps v @ [CHR 0x0A]))) (json_dumps v @ [CHR 0x0A]) = Inr (v, [CHR 0x0A])"
    using reads_back_plain [OF v] by (simp add: reads_back_def del: json_value.simps)
  ultimately show ?thesis by (simp add: json_loads_def skip_ws_def json_ws_def del: json_value.simps)
qed

declare json_dumps.simps [simp del]

end
