(* ===== verification/KeyData.thy ===== *)
theory KeyData
  imports KeyInfo Json
begin

text \<open>
  \<open>python/src/keyczar/keydata.py\<close>: \<open>KeyVersion\<close> and \<open>KeyMetadata\<close>. The library shares version
  objects between the metadata, the key table and the primary version of a key set, and changes
  their status in place; so versions live in a store, a list in which an object is its position,
  and everything else refers to positions. A metadata's dictionary of versions is the list of
  its entries.
\<close>

record key_version =
  version_number :: int
  status :: key_status
  exportable :: bool

type_synonym store = "key_version list"

definition alloc :: "key_version \<Rightarrow> (store, 'e, nat) st" where
  "alloc v = (\<lambda>h. (Inr (length h), h @ [v]))"

text \<open>The setter of \<open>status\<close> ignores \<open>None\<close>.\<close>

definition KeyVersion_SetStatus :: "key_status option \<Rightarrow> key_version \<Rightarrow> key_version" where
  "KeyVersion_SetStatus new_status v = (case new_status of None \<Rightarrow> v | Some s \<Rightarrow> v\<lparr>status := s\<rparr>)"

definition set_status :: "nat \<Rightarrow> key_status \<Rightarrow> store \<Rightarrow> store" where
  "set_status r s h = h[r := KeyVersion_SetStatus (Some s) (h ! r)]"

definition KeyVersion_json :: "key_version \<Rightarrow> json" where
  "KeyVersion_json v = JObj [(''versionNumber'', JInt (version_number v)),
     (''status'', JStr (status_name (status v))), (''exportable'', JBool (exportable v))]"

definition KeyVersion_str :: "key_version \<Rightarrow> string" where
  "KeyVersion_str v = json_dumps (KeyVersion_json v)"

definition KeyVersion_Read :: "json \<Rightarrow> exn + key_version" where
  "KeyVersion_Read version =
     ebind (get_int ''versionNumber'' version) (\<lambda>n.
     ebind (get_str ''status'' version) (\<lambda>sn. ebind (GetStatus sn) (\<lambda>s.
     ebind (ebind (json_get ''exportable'' version) as_bool) (\<lambda>x.
       Inr \<lparr>version_number = n, status = s, exportable = x\<rparr>))))"

record key_metadata =
  kmd_name :: string
  purpose :: key_purpose
  kmd_type :: key_type
  encrypted :: bool
  version_dict :: "(int \<times> nat) list"

definition KeyMetadata_init :: "string \<Rightarrow> key_purpose \<Rightarrow> key_type \<Rightarrow> bool \<Rightarrow> key_metadata" where
  "KeyMetadata_init name p t enc = \<lparr>kmd_name = name, purpose = p, kmd_type = t, encrypted = enc,
     version_dict = []\<rparr>"

definition kmd_versions :: "key_metadata \<Rightarrow> nat list" where
  "kmd_versions m = map snd (version_dict m)"

definition KeyMetadata_json :: "store \<Rightarrow> key_metadata \<Rightarrow> exn + json" where
  "KeyMetadata_json h m =
     ebind (emap (\<lambda>r. json_loads (KeyVersion_str (h ! r))) (kmd_versions m)) (\<lambda>vs.
     Inr (JObj [(''name'', JStr (kmd_name m)), (''purpose'', JStr (purpose_name (purpose m))),
        (''type'', JStr (type_name (kmd_type m))), (''encrypted'', JBool (encrypted m)),
        (''versions'', JList vs)]))"

definition KeyMetadata_str :: "store \<Rightarrow> key_metadata \<Rightarrow> exn + string" where
  "KeyMetadata_str h m = ebind (KeyMetadata_json h m) (\<lambda>j. Inr (json_dumps j))"

definition kmd_AddVersion :: "store \<Rightarrow> nat \<Rightarrow> key_metadata \<Rightarrow> bool \<times> key_metadata" where
  "kmd_AddVersion h version m = (let num = version_number (h ! version) in
     if num \<notin> fst ` set (version_dict m)
     then (True, m\<lparr>version_dict := version_dict m @ [(num, version)]\<rparr>) else (False, m))"

definition no_such_version :: "int \<Rightarrow> exn" where
  "no_such_version n = KeyczarError (''No such version number: '' @ str_int n)"

definition kmd_RemoveVersion :: "int \<Rightarrow> (key_metadata, exn, unit) st" where
  "kmd_RemoveVersion n = (\<lambda>m.
     if n \<in> fst ` set (version_dict m)
     then (Inr (), m\<lparr>version_dict := filter (\<lambda>e. fst e \<noteq> n) (version_dict m)\<rparr>)
     else (Inl (no_such_version n), m))"

definition kmd_GetVersion :: "int \<Rightarrow> key_metadata \<Rightarrow> exn + nat" where
  "kmd_GetVersion n m = (case map_of (version_dict m) n of
     Some r \<Rightarrow> Inr r | None \<Rightarrow> Inl (no_such_version n))"

fun read_versions :: "json list \<Rightarrow> key_metadata \<Rightarrow> (store, exn, key_metadata) st" where
  "read_versions [] m = sret m"
| "read_versions (j # js) m = sbind (slift (KeyVersion_Read j)) (\<lambda>v.
     sbind (alloc v) (\<lambda>r. sbind sget (\<lambda>h. read_versions js (snd (kmd_AddVersion h r m)))))"

definition KeyMetadata_Read :: "string \<Rightarrow> (store, exn, key_metadata) st" where
  "KeyMetadata_Read text =
     sbind (slift (ebind (json_loads text) (\<lambda>meta.
       ebind (get_str ''name'' meta) (\<lambda>name.
       ebind (ebind (get_str ''purpose'' meta) GetPurpose) (\<lambda>p.
       ebind (ebind (get_str ''type'' meta) GetType) (\<lambda>t.
       ebind (ebind (json_get ''encrypted'' meta) as_bool) (\<lambda>enc.
       ebind (ebind (json_get ''versions'' meta) as_list) (\<lambda>vs.
         Inr (KeyMetadata_init name p t enc, vs))))))))) (\<lambda>(kmd, vs). read_versions vs kmd)"

subsection \<open>Well-formed metadata\<close>

text \<open>Every entry refers to an object of the store that has the entry's number; no two agree.\<close>

definition kmd_ok :: "store \<Rightarrow> key_metadata \<Rightarrow> bool" where
  "kmd_ok h m \<longleftrightarrow> distinct (map fst (version_dict m)) \<and>
     (\<forall>(n, r) \<in> set (version_dict m). r < length h \<and> version_number (h ! r) = n)"

lemma kmd_ok_init: "kmd_ok h (KeyMetadata_init name p t enc)"
  by (simp add: kmd_ok_def KeyMetadata_init_def)

lemma kmd_ok_alloc: "kmd_ok h m \<Longrightarrow> kmd_ok (h @ hs) m"
  by (fastforce simp: kmd_ok_def nth_append)

lemma kmd_ok_AddVersion: "kmd_ok h m \<Longrightarrow> r < length h \<Longrightarrow> kmd_ok h (snd (kmd_AddVersion h r m))"
  by (auto simp: kmd_ok_def kmd_AddVersion_def Let_def)

lemma kmd_ok_RemoveVersion: "kmd_ok h m \<Longrightarrow> kmd_ok h (snd (kmd_RemoveVersion n m))"
  by (auto simp: kmd_ok_def kmd_RemoveVersion_def distinct_map_filter)

lemma length_set_status [simp]: "length (set_status r s h) = length h"
  by (simp add: set_status_def)

lemma version_number_set_status [simp]:
  "version_number (set_status r s h ! i) = version_number (h ! i)"
proof (cases "i = r \<and> r < length h")
  case True
  then show ?thesis by (simp add: set_status_def KeyVersion_SetStatus_def)
next
  case False
  then show ?thesis by (auto simp: set_status_def list_update_beyond)
qed

lemma status_set_status:
  "i < length h \<Longrightarrow> status (set_status r s h ! i) = (if i = r then s else status (h ! i))"
  by (simp add: set_status_def KeyVersion_SetStatus_def nth_list_update)

lemma kmd_ok_set_status [simp]: "kmd_ok (set_status r s h) m = kmd_ok h m"
  by (simp add: kmd_ok_def)

lemma kmd_versions_distinct:
  assumes "kmd_ok h m"
  shows "distinct (kmd_versions m)"
proof -
  have "map fst (version_dict m) = map (\<lambda>r. version_number (h ! r)) (kmd_versions m)"
    using assms by (auto simp: kmd_ok_def kmd_versions_def)
  then have "distinct (map (\<lambda>r. version_number (h ! r)) (kmd_versions m))"
    using assms by (metis kmd_ok_def)
  then show ?thesis by (simp add: distinct_map)
qed

text \<open>
  The dictionary of versions keeps the contract of a finite map from version numbers: what
  \<open>GetVersion\<close> finds after the other two. Its clients need nothing else of it.
\<close>

locale version_table =
  fixes get :: "int \<Rightarrow> 'd \<Rightarrow> 'r option"
    and num :: "'r \<Rightarrow> int"
    and add :: "'r \<Rightarrow> 'd \<Rightarrow> bool \<times> 'd"
    and remove :: "int \<Rightarrow> 'd \<Rightarrow> 'd option"
    and table_ok :: "'d \<Rightarrow> bool"
  assumes add_result: "fst (add r d) \<longleftrightarrow> get (num r) d = None"
    and get_add: "get n (snd (add r d)) = (if n = num r \<and> get n d = None then Some r else get n d)"
    and remove_result: "remove n d = None \<longleftrightarrow> get n d = None"
    and get_remove: "table_ok d \<Longrightarrow> remove n d = Some d' \<Longrightarrow> get m d' = (if m = n then None else get m d)"
    and ok_add: "table_ok d \<Longrightarrow> table_ok (snd (add r d))"
    and ok_remove: "table_ok d \<Longrightarrow> remove n d = Some d' \<Longrightarrow> table_ok d'"
begin

lemma add_twice: "fst (add r' (snd (add r d))) \<Longrightarrow> num r \<noteq> num r'"
  using add_result get_add by (metis option.distinct(1))

lemma add_keeps: "get n d = Some r' \<Longrightarrow> get n (snd (add r d)) = Some r'"
  by (simp add: get_add)

lemma remove_add:
  assumes "table_ok d" and "fst (add r d)" and "remove (num r) (snd (add r d)) = Some d'"
  shows "get n d' = get n d"
  using assms get_remove [OF ok_add [OF assms(1)] assms(3), of n] get_add add_result by auto

lemma remove_twice: "table_ok d \<Longrightarrow> remove n d = Some d' \<Longrightarrow> remove n d' = None"
  by (simp add: remove_result get_remove)

end

definition kmd_find :: "int \<Rightarrow> key_metadata \<Rightarrow> nat option" where
  "kmd_find n m = (case kmd_GetVersion n m of Inl e \<Rightarrow> None | Inr r \<Rightarrow> Some r)"

definition kmd_drop :: "int \<Rightarrow> key_metadata \<Rightarrow> key_metadata option" where
  "kmd_drop n m = (case kmd_RemoveVersion n m of (Inl e, m') \<Rightarrow> None | (Inr u, m') \<Rightarrow> Some m')"

lemma kmd_find_map: "kmd_find n m = map_of (version_dict m) n"
  by (simp add: kmd_find_def kmd_GetVersion_def split: option.split)

lemma map_of_remove: "map_of (filter (\<lambda>e. fst e \<noteq> n) xs) m = (if m = n then None else map_of xs m)"
  by (induction xs) auto

interpretation versions: version_table kmd_find "\<lambda>r. version_number (h ! r)" "kmd_AddVersion h" kmd_drop
    "\<lambda>m. distinct (map fst (version_dict m))" for h
proof
  show "fst (kmd_AddVersion h r m) \<longleftrightarrow> kmd_find (version_number (h ! r)) m = None" for r m
    by (auto simp: kmd_AddVersion_def kmd_find_map Let_def map_of_eq_None_iff)
  show "kmd_find n (snd (kmd_AddVersion h r m)) =
      (if n = version_number (h ! r) \<and> kmd_find n m = None then Some r else kmd_find n m)" for n r m
  proof (cases "version_number (h ! r) \<in> fst ` set (version_dict m)")
    case True
    then have "kmd_find (version_number (h ! r)) m \<noteq> None" by (simp add: kmd_find_map map_of_eq_None_iff)
    with True show ?thesis by (auto simp: kmd_AddVersion_def Let_def)
  next
    case False
    then have "map_of (version_dict m) (version_number (h ! r)) = None" by (simp add: map_of_eq_None_iff)
    with False show ?thesis
      by (auto simp: kmd_AddVersion_def kmd_find_map Let_def map_add_def split: option.splits)
  qed
  show "kmd_drop n m = None \<longleftrightarrow> kmd_find n m = None" for n m
    by (auto simp: kmd_drop_def kmd_RemoveVersion_def kmd_find_map map_of_eq_None_iff)
  show "kmd_find k m' = (if k = n then None else kmd_find k m)"
    if "kmd_drop n m = Some m'" for n k m m'
    using that by (auto simp: kmd_drop_def kmd_RemoveVersion_def kmd_find_map map_of_remove split: if_splits)
  show "distinct (map fst (version_dict (snd (kmd_AddVersion h r m))))"
    if "distinct (map fst (version_dict m))" for r m
    using that by (auto simp: kmd_AddVersion_def Let_def)
  show "distinct (map fst (version_dict m'))"
    if "distinct (map fst (version_dict m))" "kmd_drop n m = Some m'" for n m m'
    using that by (auto simp: kmd_drop_def kmd_RemoveVersion_def distinct_map_filter split: if_splits)
qed

subsection \<open>Metadata reads back\<close>

lemma KeyVersion_Read_json: "KeyVersion_Read (KeyVersion_json v) = Inr v"
  by (simp add: KeyVersion_Read_def KeyVersion_json_def get_int_def get_str_def json_get_def)

lemma KeyVersion_json_plain: "json_plain (KeyVersion_json v)"
  by (simp add: KeyVersion_json_def)

text \<open>What a metadata says, without the positions of its objects.\<close>

definition kmd_view :: "store \<Rightarrow> key_metadata
    \<Rightarrow> string \<times> key_purpose \<times> key_type \<times> bool \<times> key_version list" where
  "kmd_view h m = (kmd_name m, purpose m, kmd_type m, encrypted m, map (\<lambda>r. h ! r) (kmd_versions m))"

lemma read_versions_ok:
  assumes "kmd_ok h m" and "distinct (map version_number vs)"
    and "\<forall>v \<in> set vs. version_number v \<notin> fst ` set (version_dict m)"
  shows "\<exists>h' m'. read_versions (map KeyVersion_json vs) m h = (Inr m', h') \<and> kmd_ok h' m'
     \<and> kmd_name m' = kmd_name m \<and> purpose m' = purpose m \<and> kmd_type m' = kmd_type m \<and> encrypted m' = encrypted m
     \<and> (\<exists>hs. h' = h @ hs) \<and> map (\<lambda>r. h' ! r) (kmd_versions m') = map (\<lambda>r. h ! r) (kmd_versions m) @ vs"
  using assms
proof (induction vs arbitrary: h m)
  case Nil
  then show ?case by (simp add: sret_def)
next
  case (Cons v vs)
  let ?h = "h @ [v]" and ?r = "length h"
  let ?m = "snd (kmd_AddVersion ?h ?r m)"
  have m: "?m = m\<lparr>version_dict := version_dict m @ [(version_number v, ?r)]\<rparr>"
    using Cons.prems(3) by (simp add: kmd_AddVersion_def Let_def)
  have ok: "kmd_ok ?h ?m" using Cons.prems(1) by (intro kmd_ok_AddVersion kmd_ok_alloc) simp_all
  have "\<forall>w \<in> set vs. version_number w \<notin> fst ` set (version_dict ?m)"
    unfolding m using Cons.prems(2,3) by (auto simp: image_iff)
  then obtain h' m' where ih: "read_versions (map KeyVersion_json vs) ?m ?h = (Inr m', h')" "kmd_ok h' m'"
    "kmd_name m' = kmd_name ?m" "purpose m' = purpose ?m" "kmd_type m' = kmd_type ?m" "encrypted m' = encrypted ?m"
    "\<exists>hs. h' = ?h @ hs" "map (\<lambda>r. h' ! r) (kmd_versions m') = map (\<lambda>r. ?h ! r) (kmd_versions ?m) @ vs"
    using Cons.IH [OF ok] Cons.prems(2) by auto
  have "map (\<lambda>r. ?h ! r) (kmd_versions m) = map (\<lambda>r. h ! r) (kmd_versions m)"
    using Cons.prems(1) by (auto simp: kmd_ok_def kmd_versions_def nth_append)
  then have "map (\<lambda>r. ?h ! r) (kmd_versions ?m) = map (\<lambda>r. h ! r) (kmd_versions m) @ [v]"
    by (simp add: m kmd_versions_def)
  moreover have "read_versions (map KeyVersion_json (v # vs)) m h = (Inr m', h')"
    using ih(1) by (simp add: KeyVersion_Read_json sbind_def slift_def alloc_def sget_def)
  ultimately show ?case using ih by (auto simp: m)
qed

lemma KeyMetadata_Read_str:
  assumes "kmd_ok h m"
  shows "\<exists>s m' h'. KeyMetadata_str h m = Inr s \<and> KeyMetadata_Read s h0 = (Inr m', h') \<and> kmd_ok h' m'
     \<and> (\<exists>hs. h' = h0 @ hs) \<and> kmd_view h' m' = kmd_view h m"
proof -
  let ?vs = "map (\<lambda>r. h ! r) (kmd_versions m)"
  let ?j = "JObj [(''name'', JStr (kmd_name m)), (''purpose'', JStr (purpose_name (purpose m))),
        (''type'', JStr (type_name (kmd_type m))), (''encrypted'', JBool (encrypted m)),
        (''versions'', JList (map KeyVersion_json ?vs))]"
  have "emap (\<lambda>r. json_loads (KeyVersion_str (h ! r))) (kmd_versions m) = Inr (map (\<lambda>r. KeyVersion_json (h ! r)) (kmd_versions m))"
    by (rule emap_Inr) (simp add: KeyVersion_str_def json_loads_dumps KeyVersion_json_plain)
  then have s: "KeyMetadata_str h m = Inr (json_dumps ?j)"
    by (simp add: KeyMetadata_str_def KeyMetadata_json_def comp_def)
  have "json_plain ?j" by (simp add: list_all_iff KeyVersion_json_plain)
  then have ld: "json_loads (json_dumps ?j) = Inr ?j" by (rule json_loads_dumps)
  let ?m0 = "KeyMetadata_init (kmd_name m) (purpose m) (kmd_type m) (encrypted m)"
  have "map version_number ?vs = map fst (version_dict m)"
    using assms by (auto simp: kmd_ok_def kmd_versions_def)
  then have dist: "distinct (map version_number ?vs)" using assms by (simp only: kmd_ok_def)
  have "kmd_ok h0 ?m0" by (rule kmd_ok_init)
  from read_versions_ok [OF this dist] obtain h' m' where
    r: "read_versions (map KeyVersion_json ?vs) ?m0 h0 = (Inr m', h')" "kmd_ok h' m'"
    "kmd_name m' = kmd_name ?m0" "purpose m' = purpose ?m0" "kmd_type m' = kmd_type ?m0" "encrypted m' = encrypted ?m0"
    "\<exists>hs. h' = h0 @ hs" "map (\<lambda>r. h' ! r) (kmd_versions m') = map (\<lambda>r. h0 ! r) (kmd_versions ?m0) @ ?vs"
    by (auto simp: KeyMetadata_init_def)
  have m0: "kmd_name ?m0 = kmd_name m" "purpose ?m0 = purpose m" "kmd_type ?m0 = kmd_type m"
    "encrypted ?m0 = encrypted m" "kmd_versions ?m0 = []"
    by (simp_all add: KeyMetadata_init_def kmd_versions_def)
  have "KeyMetadata_Read (json_dumps ?j) h0 = (Inr m', h')"
    using r(1) unfolding KeyMetadata_Read_def ld
    by (simp add: get_str_def json_get_def sbind_def slift_def comp_def)
  moreover have "kmd_view h' m' = kmd_view h m" using r m0 by (simp add: kmd_view_def)
  ultimately show ?thesis using s r by blast
qed

end
