(* ===== verification/PyHash.thy ===== *)
theory PyHash
  imports Prelude
begin

text \<open>
  The parts of Python's standard library that the code calls for hashing: \<open>hashlib.sha1\<close>
  (FIPS 180) and \<open>hmac.new(key, msg, sha1)\<close> (RFC 2104). A hash object is the bytes fed to it
  so far: \<open>update\<close> appends and \<open>digest\<close> hashes what was fed.
\<close>

unbundle bit_operations_syntax

type_synonym w32 = "32 word"

subsection \<open>SHA-1\<close>

definition be_int :: "bytes \<Rightarrow> int" where
  "be_int s = foldl (\<lambda>a c. 256 * a + byte_ord c) 0 s"

definition be_word :: "bytes \<Rightarrow> w32" where
  "be_word s = word_of_int (be_int s)"

definition word_bytes :: "w32 \<Rightarrow> bytes" where
  "word_bytes w = map (\<lambda>k. byte_chr (uint (drop_bit k w AND 0xFF))) [24, 16, 8, 0]"

definition be_bytes :: "nat \<Rightarrow> int \<Rightarrow> bytes" where
  "be_bytes k n = map (\<lambda>i. byte_chr (n div 256 ^ (k - 1 - i) mod 256)) [0..<k]"

definition sha1_pad :: "bytes \<Rightarrow> bytes" where
  "sha1_pad msg = msg @ CHR 0x80 # replicate ((119 - length msg mod 64) mod 64) (CHR 0x00)
     @ be_bytes 8 (8 * int (length msg))"

text \<open>The message schedule, newest word first.\<close>

fun sha1_expand :: "nat \<Rightarrow> w32 list \<Rightarrow> w32 list" where
  "sha1_expand 0 ws = ws"
| "sha1_expand (Suc n) ws =
     sha1_expand n (word_rotl 1 (ws ! 2 XOR ws ! 7 XOR ws ! 13 XOR ws ! 15) # ws)"

definition sha1_f :: "nat \<Rightarrow> w32 \<Rightarrow> w32 \<Rightarrow> w32 \<Rightarrow> w32" where
  "sha1_f t b c d =
     (if t < 20 then (b AND c) OR (NOT b AND d)
      else if t < 40 then b XOR c XOR d
      else if t < 60 then (b AND c) OR (b AND d) OR (c AND d)
      else b XOR c XOR d)"

definition sha1_k :: "nat \<Rightarrow> w32" where
  "sha1_k t = (if t < 20 then 0x5A827999 else if t < 40 then 0x6ED9EBA1
     else if t < 60 then 0x8F1BBCDC else 0xCA62C1D6)"

type_synonym sha1_state = "w32 \<times> w32 \<times> w32 \<times> w32 \<times> w32"

fun sha1_round :: "sha1_state \<Rightarrow> nat \<times> w32 \<Rightarrow> sha1_state" where
  "sha1_round (a, b, c, d, e) (t, w) =
     (word_rotl 5 a + sha1_f t b c d + e + sha1_k t + w, a, word_rotl 30 b, c, d)"

definition sha1_words :: "bytes \<Rightarrow> w32 list" where
  "sha1_words blk = map (\<lambda>i. be_word (take 4 (drop (4 * i) blk))) [0..<16]"

fun sha1_add :: "sha1_state \<Rightarrow> sha1_state \<Rightarrow> sha1_state" where
  "sha1_add (a, b, c, d, e) (a', b', c', d', e') = (a + a', b + b', c + c', d + d', e + e')"

definition sha1_block :: "sha1_state \<Rightarrow> bytes \<Rightarrow> sha1_state" where
  "sha1_block h blk =
     sha1_add h (foldl sha1_round h (zip [0..<80] (rev (sha1_expand 64 (rev (sha1_words blk))))))"

fun sha1_blocks :: "sha1_state \<Rightarrow> bytes \<Rightarrow> sha1_state" where
  "sha1_blocks h s = (if length s < 64 then h else sha1_blocks (sha1_block h (take 64 s)) (drop 64 s))"

declare sha1_blocks.simps [simp del]

definition sha1_init :: sha1_state where
  "sha1_init = (0x67452301, 0xEFCDAB89, 0x98BADCFE, 0x10325476, 0xC3D2E1F0)"

fun sha1_out :: "sha1_state \<Rightarrow> bytes" where
  "sha1_out (a, b, c, d, e) = word_bytes a @ word_bytes b @ word_bytes c @ word_bytes d @ word_bytes e"

definition sha1 :: "bytes \<Rightarrow> bytes" where
  "sha1 msg = sha1_out (sha1_blocks sha1_init (sha1_pad msg))"

lemma length_word_bytes [simp]: "length (word_bytes w) = 4"
  by (simp add: word_bytes_def)

lemma length_sha1 [len_simps, simp]: "length (sha1 msg) = 20"
  by (cases "sha1_blocks sha1_init (sha1_pad msg)") (simp add: sha1_def)

lemma length_be_bytes [len_simps, simp]: "length (be_bytes k n) = k"
  by (simp add: be_bytes_def)

text \<open>The padded message is whole blocks, so every byte of the message is hashed.\<close>

lemma sha1_pad_blocks: "64 dvd length (sha1_pad msg)"
proof -
  define r where "r = length msg mod 64"
  have r: "r < 64" by (simp add: r_def)
  have "(r + 1 + (119 - r) mod 64 + 8) mod 64 = 0"
  proof (cases "r \<le> 55")
    case True
    then have "119 - r = 64 + (55 - r)" by simp
    with True show ?thesis by (simp only: mod_add_self1) simp
  next
    case False
    with r show ?thesis by simp
  qed
  then have "(length msg + 1 + (119 - length msg mod 64) mod 64 + 8) mod 64 = 0"
    unfolding r_def by (metis (no_types, lifting) add.assoc mod_add_left_eq)
  moreover have "length (sha1_pad msg) = length msg + 1 + (119 - length msg mod 64) mod 64 + 8"
    by (simp add: sha1_pad_def)
  ultimately show ?thesis
    by (simp only: dvd_eq_mod_eq_0)
qed

subsection \<open>HMAC-SHA1\<close>

definition sha1_block_size :: nat where
  "sha1_block_size = 64"

definition xor_byte :: "int \<Rightarrow> char \<Rightarrow> char" where
  "xor_byte n c = byte_chr (n XOR byte_ord c)"

definition hmac_key_block :: "bytes \<Rightarrow> bytes" where
  "hmac_key_block key =
     (let k = (if length key > sha1_block_size then sha1 key else key)
      in k @ replicate (sha1_block_size - length k) (CHR 0x00))"

definition hmac_sha1 :: "bytes \<Rightarrow> bytes \<Rightarrow> bytes" where
  "hmac_sha1 key msg =
     (let k = hmac_key_block key
      in sha1 (map (xor_byte 0x5C) k @ sha1 (map (xor_byte 0x36) k @ msg)))"

lemma length_hmac_sha1 [len_simps, simp]: "length (hmac_sha1 key msg) = 20"
  by (simp add: hmac_sha1_def Let_def)

lemma length_hmac_key_block [len_simps]: "length (hmac_key_block key) = 64"
  by (auto simp: hmac_key_block_def sha1_block_size_def Let_def)

end
