(* ===== verification/ByteUtil.thy ===== *)
theory ByteUtil
  imports Errors PyHash
begin

text \<open>
  \<open>python/src/keyczar/util.py\<close>, the conversions between integers, bytes and bit strings, the
  padding and masking of byte strings, and the hash helpers built on SHA-1 (\<open>Hash\<close>,
  \<open>PrefixHash\<close>, \<open>MGF\<close>, \<open>MakeEmsaMessage\<close>).
\<close>

subsection \<open>Constants\<close>

definition HLEN :: nat where
  "HLEN = length (sha1 [])"

lemma HLEN_20 [len_simps, simp]: "HLEN = 20"
  by (simp add: HLEN_def)

subsection \<open>Bit strings\<close>

definition PadByte :: "string \<Rightarrow> string" where
  "PadByte bits = (let r = length bits mod 8 in replicate ((8 - r) mod 8) CHR ''0'' @ bits)"

text \<open>The code calls it on \<open>ord\<close> of a byte, so its argument is not negative.\<close>

fun IntToBin :: "nat \<Rightarrow> string" where
  "IntToBin n =
     (if n = 0 \<or> n = 1 then str_nat n
      else if n mod 2 = 0 then IntToBin (n div 2) @ ''0''
      else IntToBin (n div 2) @ ''1'')"

declare IntToBin.simps [simp del]

definition BytesToBin :: "bytes \<Rightarrow> string" where
  "BytesToBin s = concat (map (\<lambda>c. PadByte (IntToBin (nat (byte_ord c)))) s)"

text \<open>\<open>int(x, 2)\<close> of a string of binary digits; any other character is a \<open>ValueError\<close>.\<close>

fun int_base2 :: "string \<Rightarrow> int \<Rightarrow> exn + int" where
  "int_base2 [] acc = Inr acc"
| "int_base2 (c # cs) acc =
     (if c = CHR ''0'' then int_base2 cs (2 * acc)
      else if c = CHR ''1'' then int_base2 cs (2 * acc + 1)
      else Inl PyValueError)"

definition octet_slices :: "string \<Rightarrow> string list" where
  "octet_slices bits = map (\<lambda>i. take 8 (drop (8 * i) bits)) [0..<length bits div 8]"

definition BinToBytes :: "string \<Rightarrow> exn + bytes" where
  "BinToBytes bits = emap (\<lambda>x. ebind (int_base2 x 0) (\<lambda>v. Inr (byte_chr v))) (octet_slices (PadByte bits))"

subsection \<open>Integers and bytes\<close>

function BigIntToBytes_loop :: "int \<Rightarrow> char list \<Rightarrow> char list" where
  "BigIntToBytes_loop n chars =
     (if n > 0 then BigIntToBytes_loop (n div 256) (chars @ [byte_chr (n mod 256)]) else chars)"
  by pat_completeness auto
termination
  by (relation "measure (\<lambda>(n, chars). nat n)") auto

declare BigIntToBytes_loop.simps [simp del]

definition BigIntToBytes :: "int \<Rightarrow> bytes" where
  "BigIntToBytes n = rev (BigIntToBytes_loop n [])"

definition IntToBytes :: "int \<Rightarrow> bytes" where
  "IntToBytes n = map (\<lambda>m. byte_chr (m mod 256)) [n div 2 ^ 24, n div 2 ^ 16, n div 2 ^ 8, n]"

definition BytesToLong :: "bytes \<Rightarrow> int" where
  "BytesToLong s = (let l = length s in
     sum_list (map (\<lambda>i. byte_ord (s ! i) * 256 ^ (l - 1 - i)) [0..<l]))"

subsection \<open>Padding and masking\<close>

definition PadBytes :: "bytes \<Rightarrow> int \<Rightarrow> bytes" where
  "PadBytes s n = replicate (nat n) CHR 0x00 @ s"

definition lstrip_char :: "char \<Rightarrow> bytes \<Rightarrow> bytes" where
  "lstrip_char c s = dropWhile (\<lambda>x. x = c) s"

definition TrimBytes :: "bytes \<Rightarrow> bytes" where
  "TrimBytes s = (let trimmed = lstrip_char CHR 0x00 s in
     if trimmed = [] then [CHR 0x00] else trimmed)"

definition Xor :: "bytes \<Rightarrow> bytes \<Rightarrow> bytes" where
  "Xor a b =
     (let m = max (length a) (length b);
          a' = (if m > length a then PadBytes a (int m - int (length a)) else a);
          b' = (if m > length a then b
                else if m > length b then PadBytes b (int m - int (length b)) else b);
          x = map byte_ord a'; y = map byte_ord b'
      in map (\<lambda>i. byte_chr (x ! i XOR y ! i)) [0..<m])"

subsection \<open>Hashes\<close>

definition Hash :: "bytes list \<Rightarrow> bytes" where
  "Hash inputs = sha1 (foldl (\<lambda>fed i. fed @ i) [] inputs)"

definition PrefixHash :: "bytes list \<Rightarrow> bytes" where
  "PrefixHash inputs =
     sha1 (foldl (\<lambda>fed i. (fed @ IntToBytes (int (length i))) @ i) [] inputs)"

definition magic_sha1_header :: "int list" where
  "magic_sha1_header = [0x30, 0x21, 0x30, 0x9, 0x6, 0x5, 0x2b, 0xe, 0x3, 0x2,
                        0x1a, 0x5, 0x0, 0x4, 0x14]"

definition MakeEmsaMessage :: "bytes \<Rightarrow> int \<Rightarrow> bytes" where
  "MakeEmsaMessage msg modulus_size =
     (let encoded = map byte_chr magic_sha1_header @ Hash [msg];
          pad_string = replicate (nat (modulus_size div 8 - int (length encoded) - 3)) (byte_chr 0xFF)
      in [byte_chr 1] @ pad_string @ [byte_chr 0] @ encoded)"

text \<open>
  \<open>int(math.ceil(mlen / float(HLEN)))\<close>: below the bound checked first the quotient is exact
  enough for the float ceiling to be the integer one.
\<close>

definition MGF :: "bytes \<Rightarrow> int \<Rightarrow> exn + bytes" where
  "MGF seed mlen =
     (if mlen > 2 ^ 32 * int HLEN then Inl (KeyczarError ''MGF1 mask length too long.'')
      else let output = foldl (\<lambda>out i. out @ Hash [seed, IntToBytes (int i)]) []
                          [0..<nat (- ((- mlen) div int HLEN))]
           in Inr (slice_to output mlen))"

subsection \<open>Facts about bit strings\<close>

lemma PadByte_length: "8 dvd length (PadByte bits)"
proof -
  define r where "r = length bits mod 8"
  have r: "r < 8" by (simp add: r_def)
  have "((8 - r) mod 8 + length bits) mod 8 = ((8 - r) mod 8 + r) mod 8"
    unfolding r_def by (rule mod_add_right_eq [symmetric])
  also have "\<dots> = 0"
    using r by (cases "r = 0") auto
  finally have "8 dvd (8 - r) mod 8 + length bits"
    by (rule mod_0_imp_dvd)
  then show ?thesis
    by (simp add: PadByte_def Let_def r_def)
qed

lemma int_base2_append:
  "int_base2 (xs @ ys) a = ebind (int_base2 xs a) (int_base2 ys)"
  by (induction xs arbitrary: a) auto

lemma int_base2_zeros: "int_base2 (replicate k CHR ''0'') 0 = Inr 0"
  by (induction k) auto

lemma str_nat_bits [simp]: "str_nat 0 = ''0''" "str_nat (Suc 0) = ''1''"
  by (simp_all add: str_nat_def digits.simps digit_char_def char_of_def)

lemma int_base2_IntToBin: "int_base2 (IntToBin n) 0 = Inr (int n)"
proof (induction n rule: IntToBin.induct)
  case (1 n)
  show ?case
  proof (cases "n = 0 \<or> n = 1")
    case True
    then show ?thesis by (auto simp: IntToBin.simps [of n])
  next
    case False
    have "int n = 2 * (int n div 2) + int n mod 2" by simp
    with 1 False show ?thesis
      by (auto simp: IntToBin.simps [of n] int_base2_append zdiv_int not_mod_2_eq_0_eq_1) presburger+
  qed
qed

lemma length_IntToBin: "n < 2 ^ k \<Longrightarrow> 0 < k \<Longrightarrow> length (IntToBin n) \<le> k"
proof (induction n arbitrary: k rule: IntToBin.induct)
  case (1 n)
  show ?case
  proof (cases "n = 0 \<or> n = 1")
    case True
    with 1 show ?thesis by (auto simp: IntToBin.simps [of n])
  next
    case False
    obtain j where k: "k = Suc j" using "1.prems" by (cases k) auto
    with "1.prems" False have j: "0 < j" by (cases j) auto
    from "1.prems" k have "n div 2 < 2 ^ j" by simp
    with 1 False j have "length (IntToBin (n div 2)) \<le> j"
      by (cases "n mod 2 = 0") auto
    with False k show ?thesis by (simp add: IntToBin.simps [of n])
  qed
qed

lemma IntToBin_nonempty: "IntToBin n \<noteq> []"
  by (subst IntToBin.simps) auto

lemma length_byte_bits [simp]: "length (PadByte (IntToBin (of_char c))) = 8"
proof -
  let ?b = "IntToBin (of_char c)"
  have "of_char c < (2 ^ 8 :: nat)" using nat_of_char_less_256 [of c] by simp
  then have le: "length ?b \<le> 8" by (rule length_IntToBin) simp
  have pos: "0 < length ?b" using IntToBin_nonempty by simp
  show ?thesis
  proof (cases "length ?b = 8")
    case True
    then show ?thesis by (simp add: PadByte_def Let_def)
  next
    case False
    with le pos show ?thesis by (simp add: PadByte_def Let_def)
  qed
qed

lemma byte_bits_value [simp]: "int_base2 (PadByte (IntToBin (of_char c))) 0 = Inr (byte_ord c)"
  by (simp add: PadByte_def Let_def int_base2_append int_base2_zeros int_base2_IntToBin)

lemma length_BytesToBin [len_simps]: "length (BytesToBin s) = 8 * length s"
  by (induction s) (simp_all add: BytesToBin_def)

lemma octet_slices_step:
  assumes "length x = 8"
  shows "octet_slices (x @ rest) = x # octet_slices rest"
proof -
  have "[0..<length (x @ rest) div 8] = 0 # map Suc [0..<length rest div 8]"
    using assms by (simp add: upt_conv_Cons map_Suc_upt div_add_self1 del: upt_Suc)
  then show ?thesis
    using assms by (simp add: octet_slices_def)
qed

lemma octet_slices_BytesToBin:
  "octet_slices (BytesToBin s) = map (\<lambda>c. PadByte (IntToBin (of_char c))) s"
proof (induction s)
  case Nil
  then show ?case by (simp add: BytesToBin_def octet_slices_def)
next
  case (Cons c s)
  then show ?case
    using octet_slices_step [OF length_byte_bits [of c], of "BytesToBin s"]
    by (simp add: BytesToBin_def)
qed

lemma BinToBytes_BytesToBin: "BinToBytes (BytesToBin s) = Inr s"
proof -
  have "PadByte (BytesToBin s) = BytesToBin s"
    by (simp add: PadByte_def length_BytesToBin)
  then have "BinToBytes (BytesToBin s) =
      emap (\<lambda>x. ebind (int_base2 x 0) (\<lambda>v. Inr (byte_chr v)))
        (map (\<lambda>c. PadByte (IntToBin (of_char c))) s)"
    by (simp add: BinToBytes_def octet_slices_BytesToBin)
  also have "\<dots> = Inr s"
    by (induction s) simp_all
  finally show ?thesis .
qed

subsection \<open>Facts about integers and bytes\<close>

lemma be_int_snoc: "be_int (s @ [c]) = 256 * be_int s + byte_ord c"
  by (simp add: be_int_def)

text \<open>The positional sum of the code is Horner's rule.\<close>

lemma BytesToLong_snoc: "BytesToLong (s @ [c]) = 256 * BytesToLong s + byte_ord c"
proof -
  have step: "byte_ord ((s @ [c]) ! i) * 256 ^ (length s - i)
      = 256 * (byte_ord (s ! i) * 256 ^ (length s - 1 - i))" if "i < length s" for i
    using that by (simp add: nth_append Suc_diff_Suc power_Suc [symmetric] del: power_Suc)
  have "(\<Sum>i\<leftarrow>[0..<length s]. byte_ord ((s @ [c]) ! i) * 256 ^ (length s - i))
      = (\<Sum>i\<leftarrow>[0..<length s]. 256 * (byte_ord (s ! i) * 256 ^ (length s - 1 - i)))"
    by (rule arg_cong [where f = sum_list], rule map_cong) (auto simp: step)
  then show ?thesis
    by (simp add: BytesToLong_def Let_def sum_list_const_mult)
qed

lemma BytesToLong_be_int: "BytesToLong s = be_int s"
proof (induction s rule: rev_induct)
  case Nil
  then show ?case by (simp add: BytesToLong_def be_int_def)
next
  case (snoc c s)
  then show ?case by (simp add: BytesToLong_snoc be_int_snoc)
qed

lemma BytesToLong_Nil [simp]: "BytesToLong [] = 0"
  by (simp add: BytesToLong_def)

lemma BytesToLong_bounds: "0 \<le> BytesToLong s \<and> BytesToLong s < 256 ^ length s"
proof (induction s rule: rev_induct)
  case Nil
  then show ?case by simp
next
  case (snoc c s)
  then have "BytesToLong s + 1 \<le> 256 ^ length s" by simp
  then have "256 * BytesToLong s + 256 \<le> 256 * 256 ^ length s" by simp
  with snoc byte_ord_less [of c] show ?case
    by (simp add: BytesToLong_snoc del: byte_ord_less)
qed

lemma BytesToLong_zeros: "BytesToLong (replicate k CHR 0x00 @ s) = BytesToLong s"
proof (induction s rule: rev_induct)
  case Nil
  show ?case
  proof (induction k)
    case (Suc k)
    then show ?case
      by (simp add: replicate_append_same [symmetric] BytesToLong_snoc del: replicate_Suc)
        (simp add: replicate_append_same [symmetric] BytesToLong_snoc)
  qed simp
next
  case (snoc c s)
  then show ?case
    using BytesToLong_snoc [of "replicate k CHR 0x00 @ s" c] by (simp add: BytesToLong_snoc)
qed

lemma lstrip_split: "\<exists>k. s = replicate k c @ lstrip_char c s"
proof -
  have "takeWhile (\<lambda>x. x = c) s = replicate (length (takeWhile (\<lambda>x. x = c) s)) c"
    by (intro replicate_eqI) (auto dest: set_takeWhileD)
  then show ?thesis
    unfolding lstrip_char_def by (metis takeWhile_dropWhile_id)
qed

lemma BytesToLong_lstrip: "BytesToLong (lstrip_char CHR 0x00 s) = BytesToLong s"
  using lstrip_split [of s "CHR 0x00"] BytesToLong_zeros by metis

lemma BytesToLong_PadBytes: "BytesToLong (PadBytes s n) = BytesToLong s"
  by (simp add: PadBytes_def BytesToLong_zeros)

lemma BytesToLong_TrimBytes: "BytesToLong (TrimBytes s) = BytesToLong s"
  using BytesToLong_lstrip [of s] BytesToLong_snoc [of "[]" "CHR 0x00"]
  by (auto simp: TrimBytes_def Let_def)

lemma BigIntToBytes_loop_append:
  "BigIntToBytes_loop n chars = chars @ BigIntToBytes_loop n []"
proof (induction "nat n" arbitrary: n chars rule: less_induct)
  case less
  show ?case
  proof (cases "n > 0")
    case True
    then have "nat (n div 256) < nat n" by auto
    with True show ?thesis
      by (simp add: BigIntToBytes_loop.simps [of n]
          less [of "n div 256" "chars @ [byte_chr n]"] less [of "n div 256" "[byte_chr n]"])
  next
    case False
    then show ?thesis by (simp add: BigIntToBytes_loop.simps [of n])
  qed
qed

lemma BigIntToBytes_rec:
  "BigIntToBytes n =
     (if n > 0 then BigIntToBytes (n div 256) @ [byte_chr (n mod 256)] else [])"
  using BigIntToBytes_loop_append [of "n div 256" "[byte_chr (n mod 256)]"]
  by (simp add: BigIntToBytes_def BigIntToBytes_loop.simps [of n])

lemma BytesToLong_BigIntToBytes: "0 \<le> n \<Longrightarrow> BytesToLong (BigIntToBytes n) = n"
proof (induction "nat n" arbitrary: n rule: less_induct)
  case less
  show ?case
  proof (cases "n > 0")
    case True
    with less(1) [of "n div 256"] show ?thesis
      by (subst BigIntToBytes_rec) (simp add: BytesToLong_snoc)
  next
    case False
    with less show ?thesis by (subst BigIntToBytes_rec) simp
  qed
qed

lemma length_BigIntToBytes: "n < 256 ^ k \<Longrightarrow> length (BigIntToBytes n) \<le> k"
proof (induction k arbitrary: n)
  case 0
  then show ?case by (subst BigIntToBytes_rec) auto
next
  case (Suc k)
  have "n div 256 < 256 ^ k" using Suc.prems by simp
  with Suc.IH show ?case by (subst BigIntToBytes_rec) auto
qed

lemma lstrip_snoc:
  "lstrip_char c (s @ [d]) = (if lstrip_char c s = [] \<and> d = c then [] else lstrip_char c s @ [d])"
  by (auto simp: lstrip_char_def dropWhile_append)

text \<open>The two conversions are inverse up to leading zero bytes.\<close>

lemma BigIntToBytes_BytesToLong: "BigIntToBytes (BytesToLong s) = lstrip_char CHR 0x00 s"
proof (induction s rule: rev_induct)
  case Nil
  show ?case by (subst BigIntToBytes_rec) (simp add: lstrip_char_def)
next
  case (snoc c s)
  let ?n = "BytesToLong (s @ [c])"
  have n: "?n = 256 * BytesToLong s + byte_ord c" by (rule BytesToLong_snoc)
  have div: "?n div 256 = BytesToLong s" and md: "byte_chr (?n mod 256) = c"
    by (simp_all add: n div_pos_pos_trivial)
  show ?case
  proof (cases "?n > 0")
    case True
    have "lstrip_char CHR 0x00 s \<noteq> [] \<or> c \<noteq> CHR 0x00"
    proof (rule ccontr)
      assume "\<not> ?thesis"
      then have "BytesToLong s = 0" "byte_ord c = 0"
        using BytesToLong_lstrip [of s] by simp_all
      with True n show False by simp
    qed
    with True snoc div md show ?thesis
      by (subst BigIntToBytes_rec) (auto simp: lstrip_snoc)
  next
    case False
    with n BytesToLong_bounds [of s] byte_ord_nonneg [of c]
    have "BytesToLong s = 0" "byte_ord c = 0" by linarith+
    then have "c = CHR 0x00" by (simp add: byte_ord_zero_iff)
    moreover have "lstrip_char CHR 0x00 s = []"
      using snoc \<open>BytesToLong s = 0\<close> by (simp add: BigIntToBytes_rec [of 0])
    ultimately show ?thesis
      using False by (subst BigIntToBytes_rec) (simp add: lstrip_snoc)
  qed
qed

lemma length_IntToBytes [len_simps, simp]: "length (IntToBytes n) = 4"
  by (simp add: IntToBytes_def)

lemma BytesToLong_IntToBytes: "BytesToLong (IntToBytes n) = n mod 2 ^ 32"
proof -
  have step: "x mod (256 * c) = 256 * (x div 256 mod c) + x mod 256" if "0 \<le> c" for x c :: int
    using that by (rule zmod_zmult2_eq)
  have s1: "n mod 4294967296 = 256 * (n div 256 mod 16777216) + n mod 256"
    using step [of 16777216 n] by simp
  have s2: "n div 256 mod 16777216 = 256 * (n div 65536 mod 65536) + n div 256 mod 256"
    using step [of 65536 "n div 256"] by (simp add: zdiv_zmult2_eq [symmetric])
  have s3: "n div 65536 mod 65536 = 256 * (n div 16777216 mod 256) + n div 65536 mod 256"
    using step [of 256 "n div 65536"] by (simp add: zdiv_zmult2_eq [symmetric])
  have "BytesToLong (IntToBytes n) = 256 * (256 * (256 * (n div 16777216 mod 256)
      + n div 65536 mod 256) + n div 256 mod 256) + n mod 256"
    by (simp only: BytesToLong_be_int be_int_def IntToBytes_def list.map foldl.simps of_char_of
        mod_mod_trivial) simp
  then show ?thesis
    by (simp only: s1 s2 s3 power_numeral Num.pow.simps Num.sqr.simps numeral_times_numeral)
qed

lemma IntToBytes_inject:
  assumes "0 \<le> m" "m < 2 ^ 32" "0 \<le> n" "n < 2 ^ 32"
  shows "IntToBytes m = IntToBytes n \<longleftrightarrow> m = n"
  using assms BytesToLong_IntToBytes [of m] BytesToLong_IntToBytes [of n]
  by (metis mod_pos_pos_trivial)

subsection \<open>Facts about padding and masking\<close>

lemma length_PadBytes [len_simps]: "length (PadBytes s n) = nat n + length s"
  by (simp add: PadBytes_def)

lemma TrimBytes_nonempty: "TrimBytes s \<noteq> []"
  by (simp add: TrimBytes_def Let_def)

lemma TrimBytes_PadBytes: "TrimBytes (PadBytes s n) = TrimBytes s"
proof -
  have "lstrip_char c (replicate k c @ s) = lstrip_char c s" for c :: char and k
    by (induction k) (auto simp: lstrip_char_def)
  then show ?thesis by (simp add: TrimBytes_def PadBytes_def)
qed

lemma xor_byte_less: "byte_ord a XOR byte_ord b < 256" "0 \<le> byte_ord a XOR byte_ord b"
proof -
  have byte: "take_bit 8 (byte_ord c) = byte_ord c" for c
    by (simp add: take_bit_eq_mod)
  have "take_bit 8 (byte_ord a XOR byte_ord b) = byte_ord a XOR byte_ord b"
    by (simp only: take_bit_xor byte)
  then show "byte_ord a XOR byte_ord b < 256"
    using take_bit_int_less_exp [of 8 "byte_ord a XOR byte_ord b"] by simp
  show "0 \<le> byte_ord a XOR byte_ord b" by simp
qed

text \<open>On operands of one length, as every caller has them, \<open>Xor\<close> is bytewise.\<close>

lemma Xor_same_length:
  assumes "length a = length b"
  shows "Xor a b = map2 (\<lambda>x y. byte_chr (byte_ord x XOR byte_ord y)) a b"
  using assms by (auto simp: Xor_def Let_def intro!: nth_equalityI)

lemma length_Xor [len_simps]: "length (Xor a b) = max (length a) (length b)"
  by (simp add: Xor_def Let_def)

lemma byte_xor_cancel: "byte_chr (byte_ord (byte_chr (byte_ord x XOR byte_ord y)) XOR byte_ord y) = x"
proof -
  have "byte_ord (byte_chr (byte_ord x XOR byte_ord y)) = byte_ord x XOR byte_ord y"
    by (rule byte_ord_chr) (simp_all add: xor_byte_less)
  then show ?thesis by (simp add: xor.assoc)
qed

lemma Xor_cancel:
  assumes "length a = length b"
  shows "Xor (Xor a b) b = a"
proof -
  have "length (Xor a b) = length b" using assms by (simp add: length_Xor)
  then have "Xor (Xor a b) b = map2 (\<lambda>x y. byte_chr (byte_ord x XOR byte_ord y)) (Xor a b) b"
    by (rule Xor_same_length)
  also have "\<dots> = a"
    using assms byte_xor_cancel by (auto simp: Xor_same_length intro!: nth_equalityI)
  finally show ?thesis .
qed

subsection \<open>Facts about hashes\<close>

lemma foldl_append_concat: "foldl (\<lambda>acc x. acc @ f x) a xs = a @ concat (map f xs)"
  by (induction xs arbitrary: a) simp_all

lemma Hash_concat: "Hash inputs = sha1 (concat inputs)"
  using foldl_append_concat [of "\<lambda>x. x" "[]" inputs] by (simp add: Hash_def)

lemma length_Hash [len_simps, simp]: "length (Hash inputs) = 20"
  by (simp add: Hash_def)

lemma length_PrefixHash [len_simps, simp]: "length (PrefixHash inputs) = 20"
  by (simp add: PrefixHash_def)

text \<open>What \<open>PrefixHash\<close> feeds to SHA-1.\<close>

definition prefix_encode :: "bytes list \<Rightarrow> bytes" where
  "prefix_encode inputs = concat (map (\<lambda>i. IntToBytes (int (length i)) @ i) inputs)"

lemma PrefixHash_encode: "PrefixHash inputs = sha1 (prefix_encode inputs)"
  using foldl_append_concat [of "\<lambda>i. IntToBytes (int (length i)) @ i" "[]" inputs]
  by (simp add: PrefixHash_def prefix_encode_def)

lemma prefix_encode_inject:
  assumes "\<forall>x \<in> set xs \<union> set ys. length x < 2 ^ 32" and "prefix_encode xs = prefix_encode ys"
  shows "xs = ys"
  using assms
proof (induction xs arbitrary: ys)
  case Nil
  then show ?case
    by (cases ys) (auto simp: prefix_encode_def simp flip: length_0_conv)
next
  case (Cons x xs)
  obtain y ys' where ys: "ys = y # ys'"
    using Cons.prems(2) by (cases ys) (auto simp: prefix_encode_def simp flip: length_0_conv)
  have eq: "IntToBytes (int (length x)) @ x @ prefix_encode xs
      = IntToBytes (int (length y)) @ y @ prefix_encode ys'"
    using Cons.prems(2) by (simp add: prefix_encode_def ys)
  then have "IntToBytes (int (length x)) = IntToBytes (int (length y))"
    by (simp add: append_eq_append_conv)
  moreover have "int (length x) < 2 ^ 32" "int (length y) < 2 ^ 32"
    using Cons.prems(1) ys by auto
  ultimately have "length x = length y"
    by (simp add: IntToBytes_inject)
  with eq have "x = y \<and> prefix_encode xs = prefix_encode ys'"
    by (simp add: append_eq_append_conv)
  with Cons.IH [of ys'] Cons.prems(1) ys show ?case by simp
qed

lemma length_MakeEmsaMessage:
  "304 \<le> modulus_size \<Longrightarrow> int (length (MakeEmsaMessage msg modulus_size)) = modulus_size div 8 - 1"
  by (simp add: MakeEmsaMessage_def Let_def magic_sha1_header_def)

lemma MakeEmsaMessage_eq_iff:
  "MakeEmsaMessage msg n = MakeEmsaMessage msg' n \<longleftrightarrow> Hash [msg] = Hash [msg']"
  by (simp add: MakeEmsaMessage_def Let_def)

lemma length_concat_const: "(\<And>i. length (f i) = k) \<Longrightarrow> length (concat (map f xs)) = k * length xs"
  by (induction xs) simp_all

lemma MGF_Inr:
  assumes "int n \<le> 2 ^ 32 * 20"
  shows "\<exists>mask. MGF seed (int n) = Inr mask \<and> length mask = n"
proof -
  let ?k = "nat (- ((- int n) div 20))"
  define out where "out = concat (map (\<lambda>i. Hash [seed, IntToBytes (int i)]) [0..<?k])"
  have len: "length out = 20 * ?k"
    unfolding out_def by (rule trans [OF length_concat_const [where k = 20]]) simp_all
  have "int n \<le> 20 * - ((- int n) div 20)" "0 \<le> - ((- int n) div 20)"
    by linarith+
  then have "n \<le> 20 * ?k" by linarith
  with len have "length (take n out) = n" by simp
  moreover have "MGF seed (int n) = Inr (take n out)"
    using assms unfolding MGF_def out_def by (simp add: foldl_append_concat)
  ultimately show ?thesis by blast
qed

lemma MGF_length: "MGF seed (int n) = Inr out \<Longrightarrow> length out = n"
  using MGF_Inr [of n seed] by (cases "int n \<le> 2 ^ 32 * 20") (auto simp: MGF_def)

end
