(* ===== verification/CryptoLib.thy ===== *)
theory CryptoLib
  imports ByteUtil KeyInfo
begin

text \<open>
  What the source takes from outside the repository: entropy, and the packages PyCrypto
  (\<open>Crypto.Cipher.AES\<close>, \<open>Crypto.PublicKey\<close>), M2Crypto (\<open>EVP.Cipher\<close>) and pyasn1. The packages are
  the fields of a record \<open>crypto\<close>, an argument of every definition that calls them; what the
  code relies on is stated as predicates over that record. Nothing else is assumed of them.
\<close>

subsection \<open>Entropy\<close>

text \<open>\<open>os.urandom\<close> reads the next bytes of an unbounded source.\<close>

type_synonym entropy = "nat \<Rightarrow> char"

definition RandBytes :: "int \<Rightarrow> (entropy, exn, bytes) st" where
  "RandBytes n = (\<lambda>r. if n < 0 then (Inl PyValueError, r)
     else (Inr (map r [0..<nat n]), \<lambda>i. r (i + nat n)))"

lemma RandBytes_nat [simp]: "0 \<le> n \<Longrightarrow> RandBytes n r = (Inr (map r [0..<nat n]), \<lambda>i. r (i + nat n))"
  by (simp add: RandBytes_def)

lemma length_RandBytes [len_simps]: "RandBytes n r = (Inr s, r') \<Longrightarrow> length s = nat n"
  by (auto simp: RandBytes_def split: if_splits)

subsection \<open>Objects of the packages\<close>

text \<open>
  RSA and DSA key objects hold the numbers they were constructed from (a public key has no
  private part). A cipher object is stateful: it continues the chaining where the last call left
  it, so it is the key, the initialisation vector and the data it was fed.
\<close>

record rsa_obj =
  rsa_n :: int
  rsa_e :: int
  rsa_priv :: "(int \<times> int \<times> int \<times> int) option"   \<comment> \<open>d, p, q, u\<close>

record dsa_obj =
  dsa_y :: int
  dsa_g :: int
  dsa_p :: int
  dsa_q :: int
  dsa_x :: "int option"

text \<open>The DER values of pyasn1 that the code builds and inspects.\<close>

datatype asn1 =
    AInt int
  | ANull
  | AOid "nat list"
  | AOctets bytes
  | ABits string
  | ASeq "asn1 list"

text \<open>
  \<open>cbc_enc k iv d\<close> is everything \<open>AES.new(k, MODE_CBC, iv)\<close> has returned once \<open>d\<close> has been fed to its
  \<open>encrypt\<close>, and likewise for the others; a call returns what it adds to that.
  The last field is the floating-point logarithm of the C library, whose rounding the source does
  not control.
\<close>

record crypto =
  ACTIVE_CRYPT_LIB :: string   \<comment> \<open>the variable of \<open>keys.py\<close>, which may be overridden\<close>
  EVP_present :: bool          \<comment> \<open>whether M2Crypto could be imported\<close>
  aes_new :: "bytes \<Rightarrow> bytes \<Rightarrow> exn + unit"
  cbc_enc :: "bytes \<Rightarrow> bytes \<Rightarrow> bytes \<Rightarrow> exn + bytes"
  cbc_dec :: "bytes \<Rightarrow> bytes \<Rightarrow> bytes \<Rightarrow> exn + bytes"
  evp_new :: "string \<Rightarrow> bytes \<Rightarrow> bytes \<Rightarrow> int \<Rightarrow> exn + unit"
  evp_update :: "string \<Rightarrow> bytes \<Rightarrow> bytes \<Rightarrow> int \<Rightarrow> bytes \<Rightarrow> exn + bytes"
  evp_final :: "string \<Rightarrow> bytes \<Rightarrow> bytes \<Rightarrow> int \<Rightarrow> bytes \<Rightarrow> exn + bytes"
  rsa_generate :: "int \<Rightarrow> (entropy, exn, rsa_obj) st"
  rsa_encrypt :: "rsa_obj \<Rightarrow> bytes \<Rightarrow> exn + bytes"
  rsa_decrypt :: "rsa_obj \<Rightarrow> bytes \<Rightarrow> exn + bytes"
  rsa_sign :: "rsa_obj \<Rightarrow> bytes \<Rightarrow> exn + int"
  rsa_verify :: "rsa_obj \<Rightarrow> bytes \<Rightarrow> int \<Rightarrow> exn + bool"
  dsa_generate :: "int \<Rightarrow> (entropy, exn, dsa_obj) st"
  dsa_sign :: "dsa_obj \<Rightarrow> bytes \<Rightarrow> int \<Rightarrow> exn + int \<times> int"
  dsa_verify :: "dsa_obj \<Rightarrow> bytes \<Rightarrow> int \<times> int \<Rightarrow> exn + bool"
  rand_int :: "int \<Rightarrow> int \<Rightarrow> (entropy, exn, int) st"
  der_encode :: "asn1 \<Rightarrow> exn + bytes"
  der_decode :: "bytes \<Rightarrow> exn + asn1"
  log256 :: "int \<Rightarrow> int"   \<comment> \<open>\<open>math.floor(math.log(n, 256))\<close> for positive \<open>n\<close>\<close>

subsection \<open>What the code relies on\<close>

definition block_size :: nat where
  "block_size = 16"

lemma block_size_16 [simp]: "block_size = 16"
  by (simp add: block_size_def)

text \<open>
  AES in CBC mode: keys of 16, 24 or 32 bytes and vectors of one block are accepted; data is
  taken in whole blocks; the length stays; what was returned stays when more is fed; decryption
  inverts encryption.
\<close>

definition aes_args :: "bytes \<Rightarrow> bytes \<Rightarrow> bool" where
  "aes_args k iv \<longleftrightarrow> length k \<in> {16, 24, 32} \<and> length iv = 16"

definition blocks :: "bytes \<Rightarrow> bool" where
  "blocks d \<longleftrightarrow> 16 dvd length d"

definition cbc_cipher :: "(bytes \<Rightarrow> bytes \<Rightarrow> bytes \<Rightarrow> exn + bytes) \<Rightarrow> bool" where
  "cbc_cipher f \<longleftrightarrow>
     (\<forall>k iv d. aes_args k iv \<longrightarrow> blocks d \<longrightarrow> (\<exists>c. f k iv d = Inr c \<and> length c = length d)) \<and>
     (\<forall>k iv a b c e. aes_args k iv \<longrightarrow> blocks a \<longrightarrow> blocks b \<longrightarrow> f k iv a = Inr c \<longrightarrow>
        f k iv (a @ b) = Inr e \<longrightarrow> take (length a) e = c)"

definition aes_laws :: "crypto \<Rightarrow> bool" where
  "aes_laws L \<longleftrightarrow> cbc_cipher (cbc_enc L) \<and> cbc_cipher (cbc_dec L) \<and>
     (\<forall>k iv. aes_args k iv \<longrightarrow> aes_new L k iv = Inr ()) \<and>
     (\<forall>k iv d c. aes_args k iv \<longrightarrow> blocks d \<longrightarrow> cbc_enc L k iv d = Inr c \<longrightarrow> cbc_dec L k iv c = Inr d)"

text \<open>M2Crypto's ciphers with padding switched off agree with PyCrypto's on whole blocks.\<close>

definition evp_alg :: "bytes \<Rightarrow> string" where
  "evp_alg k = ''aes_'' @ str_nat (8 * length k) @ ''_cbc''"

definition evp_laws :: "crypto \<Rightarrow> bool" where
  "evp_laws L \<longleftrightarrow> (\<forall>k iv d opn. aes_args k iv \<longrightarrow> blocks d \<longrightarrow> opn \<in> {0, 1} \<longrightarrow>
     evp_new L (evp_alg k) k iv opn = Inr () \<and>
     evp_update L (evp_alg k) k iv opn d = (if opn = 1 then cbc_enc L k iv d else cbc_dec L k iv d) \<and>
     evp_final L (evp_alg k) k iv opn d = Inr [])"

text \<open>
  A pair of RSA keys with a modulus of \<open>k\<close> bytes: decryption gives back an encrypted message
  that fits, without its leading zero bytes; the signature of a message is a number of at most
  \<open>k\<close> bytes that verifies.
\<close>

definition rsa_pair :: "crypto \<Rightarrow> rsa_obj \<Rightarrow> rsa_obj \<Rightarrow> bool" where
  "rsa_pair L prv pub \<longleftrightarrow>
     (\<forall>m c. 0 < length m \<longrightarrow> BytesToLong m < rsa_n pub \<longrightarrow> rsa_encrypt L pub m = Inr c \<longrightarrow>
        rsa_decrypt L prv c = Inr (lstrip_char CHR 0x00 m)) \<and>
     (\<forall>m s. BytesToLong m < rsa_n pub \<longrightarrow> rsa_sign L prv m = Inr s \<longrightarrow>
        0 \<le> s \<and> s < rsa_n pub \<and> rsa_verify L pub m s = Inr True)"

definition dsa_pair :: "crypto \<Rightarrow> dsa_obj \<Rightarrow> dsa_obj \<Rightarrow> bool" where
  "dsa_pair L prv pub \<longleftrightarrow>
     (\<forall>m k r s. dsa_sign L prv m k = Inr (r, s) \<longrightarrow> dsa_verify L pub m (r, s) = Inr True)"

text \<open>DER: what was encoded decodes to it.\<close>

definition der_laws :: "crypto \<Rightarrow> bool" where
  "der_laws L \<longleftrightarrow> (\<forall>v s. der_encode L v = Inr s \<longrightarrow> der_decode L s = Inr v)"

lemma cbc_cipherE:
  assumes "cbc_cipher f" "aes_args k iv" "blocks d"
  obtains c where "f k iv d = Inr c" "length c = length d" "blocks c"
proof -
  obtain c where "f k iv d = Inr c" "length c = length d"
    using assms unfolding cbc_cipher_def by blast
  with assms(3) show ?thesis by (intro that [of c]) (simp_all add: blocks_def)
qed

lemma cbc_cipher_prefix:
  assumes "cbc_cipher f" "aes_args k iv" "blocks a" "blocks b"
  obtains c d where "f k iv a = Inr c" "f k iv (a @ b) = Inr (c @ d)"
    "length c = length a" "length d = length b"
proof -
  have "blocks (a @ b)" using assms(3,4) by (auto simp: blocks_def)
  then obtain e where e: "f k iv (a @ b) = Inr e" "length e = length (a @ b)"
    using cbc_cipherE [OF assms(1,2)] by metis
  obtain c where c: "f k iv a = Inr c" "length c = length a"
    using cbc_cipherE [OF assms(1-3)] by metis
  have "take (length a) e = c" using assms c e by (auto simp: cbc_cipher_def)
  then have "e = c @ drop (length a) e" by (metis append_take_drop_id)
  then show ?thesis using that [of c "drop (length a) e"] c e by simp
qed

lemma blocks_simps [simp]: "blocks []"
  "blocks a \<Longrightarrow> blocks (a @ b) \<longleftrightarrow> blocks b"
  by (simp_all add: blocks_def dvd_add_right_iff)

subsection \<open>An instance\<close>

text \<open>
  A record that satisfies every law: the identity for the ciphers, and small codes for the rest.
  It only shows that the laws can hold together.
\<close>

definition id_cipher :: "bytes \<Rightarrow> bytes \<Rightarrow> bytes \<Rightarrow> exn + bytes" where
  "id_cipher k iv d = (if aes_args k iv \<and> blocks d then Inr d else Inl PyValueError)"

definition demo_crypto :: crypto where
  "demo_crypto = \<lparr>
     ACTIVE_CRYPT_LIB = ''pycrypto'', EVP_present = False,
     aes_new = (\<lambda>k iv. if aes_args k iv then Inr () else Inl PyValueError),
     cbc_enc = id_cipher, cbc_dec = id_cipher,
     evp_new = (\<lambda>a k iv opn. Inr ()),
     evp_update = (\<lambda>a k iv opn. id_cipher k iv), evp_final = (\<lambda>a k iv opn d. Inr []),
     rsa_generate = (\<lambda>n. sret \<lparr>rsa_n = 2 ^ nat n - 1, rsa_e = 1, rsa_priv = Some (1, 1, 1, 1)\<rparr>),
     rsa_encrypt = (\<lambda>k m. Inr (BigIntToBytes (BytesToLong m))),
     rsa_decrypt = (\<lambda>k c. Inr c),
     rsa_sign = (\<lambda>k m. Inr (BytesToLong m)),
     rsa_verify = (\<lambda>k m s. Inr (BytesToLong m = s)),
     dsa_generate = (\<lambda>n. sret \<lparr>dsa_y = 1, dsa_g = 1, dsa_p = 3, dsa_q = 5, dsa_x = Some 1\<rparr>),
     dsa_sign = (\<lambda>k m n. Inr (BytesToLong m, n)),
     dsa_verify = (\<lambda>k m (r, s). Inr (r = BytesToLong m)),
     rand_int = (\<lambda>a b. sret a),
     der_encode = (\<lambda>v. case v of ASeq [AInt r, AInt s] \<Rightarrow>
         (if 0 \<le> r \<and> r < 2 ^ 32 \<and> 0 \<le> s then Inr (IntToBytes r @ BigIntToBytes s)
          else Inl OutsideModel)
       | _ \<Rightarrow> Inl OutsideModel),
     der_decode = (\<lambda>d. Inr (ASeq [AInt (BytesToLong (take 4 d)), AInt (BytesToLong (drop 4 d))])),
     log256 = (\<lambda>n. int (length (BigIntToBytes n)) - 1)\<rparr>"

lemma id_cipher_cbc: "cbc_cipher id_cipher"
  by (auto simp: cbc_cipher_def id_cipher_def)

lemma demo_aes_laws: "aes_laws demo_crypto"
  using id_cipher_cbc by (auto simp: aes_laws_def demo_crypto_def id_cipher_def split: if_splits)

lemma demo_evp_laws: "evp_laws demo_crypto"
  by (auto simp: evp_laws_def demo_crypto_def)

lemma demo_rsa_pair: "rsa_pair demo_crypto prv pub"
  by (auto simp: rsa_pair_def demo_crypto_def BigIntToBytes_BytesToLong BytesToLong_bounds)

lemma demo_dsa_pair: "dsa_pair demo_crypto prv pub"
  by (auto simp: dsa_pair_def demo_crypto_def)

lemma demo_der_laws: "der_laws demo_crypto"
  by (auto simp: der_laws_def demo_crypto_def BytesToLong_IntToBytes BytesToLong_BigIntToBytes
      split: asn1.splits list.splits if_splits)

end
