(* ===== verification/Base64.thy ===== *)
theory Base64
  imports ByteUtil
begin

text \<open>
  \<open>python/src/keyczar/util.py\<close>, \<open>Base64WSEncode\<close> and \<open>Base64WSDecode\<close>, on top of what Python 2's
  \<open>base64\<close> module does: \<open>b2a_base64\<close> on the way out, and on the way in the scanner
  \<open>a2b_base64\<close>, which keeps a bit accumulator, skips the characters outside the alphabet and
  fails only when bits are left over.
\<close>

subsection \<open>The standard library's codec\<close>

definition b64_chr :: "int \<Rightarrow> char" where
  "b64_chr i = byte_chr
     (if i < 26 then i + 65 else if i < 52 then i + 71 else if i < 62 then i - 4
      else if i = 62 then 43 else 47)"

definition b64_val :: "char \<Rightarrow> int option" where
  "b64_val c = (let n = byte_ord c in
     if 65 \<le> n \<and> n \<le> 90 then Some (n - 65)
     else if 97 \<le> n \<and> n \<le> 122 then Some (n - 71)
     else if 48 \<le> n \<and> n \<le> 57 then Some (n + 4)
     else if n = 43 then Some 62
     else if n = 47 then Some 63
     else None)"

fun b2a_base64 :: "bytes \<Rightarrow> string" where
  "b2a_base64 [] = []"
| "b2a_base64 [a] =
     (let x = byte_ord a in [b64_chr (x div 4), b64_chr (x mod 4 * 16), CHR ''='', CHR ''=''])"
| "b2a_base64 [a, b] =
     (let x = byte_ord a; y = byte_ord b in
      [b64_chr (x div 4), b64_chr (x mod 4 * 16 + y div 16), b64_chr (y mod 16 * 4), CHR ''=''])"
| "b2a_base64 (a # b # c # s) =
     (let x = byte_ord a; y = byte_ord b; z = byte_ord c in
      b64_chr (x div 4) # b64_chr (x mod 4 * 16 + y div 16)
      # b64_chr (y mod 16 * 4 + z div 64) # b64_chr (z mod 64) # b2a_base64 s)"

definition to_urlsafe :: "char \<Rightarrow> char" where
  "to_urlsafe c = (if c = CHR ''+'' then CHR ''-'' else if c = CHR ''/'' then CHR ''_'' else c)"

definition from_urlsafe :: "char \<Rightarrow> char" where
  "from_urlsafe c = (if c = CHR ''-'' then CHR ''+'' else if c = CHR ''_'' then CHR ''/'' else c)"

definition urlsafe_b64encode :: "bytes \<Rightarrow> string" where
  "urlsafe_b64encode s = map to_urlsafe (b2a_base64 s)"

text \<open>
  \<open>binascii_find_valid\<close>: the character number \<open>num\<close> (from 0) among those the decoding table
  knows; the table has an entry for the padding character.
\<close>

fun find_valid :: "string \<Rightarrow> nat \<Rightarrow> char option" where
  "find_valid [] num = None"
| "find_valid (c # cs) num =
     (if b64_val c \<noteq> None \<or> c = CHR ''=''
      then (if num = 0 then Some c else find_valid cs (num - 1))
      else find_valid cs num)"

text \<open>
  \<open>binascii.a2b_base64\<close>: \<open>None\<close> is the error \<open>Incorrect padding\<close>. The accumulator \<open>leftchar\<close>
  holds \<open>leftbits\<close> bits; a padding character in the right place ends the scan and drops them.
\<close>

fun a2b_base64 :: "nat \<Rightarrow> int \<Rightarrow> nat \<Rightarrow> string \<Rightarrow> bytes option" where
  "a2b_base64 quad_pos leftchar leftbits [] = (if leftbits \<noteq> 0 then None else Some [])"
| "a2b_base64 quad_pos leftchar leftbits (c # cs) =
     (if byte_ord c > 127 \<or> c = CHR 0x0D \<or> c = CHR 0x0A \<or> c = CHR '' ''
      then a2b_base64 quad_pos leftchar leftbits cs
      else if c = CHR ''='' then
        (if quad_pos < 2 \<or> (quad_pos = 2 \<and> find_valid (c # cs) 1 \<noteq> Some CHR ''='')
         then a2b_base64 quad_pos leftchar leftbits cs
         else Some [])
      else (case b64_val c of
          None \<Rightarrow> a2b_base64 quad_pos leftchar leftbits cs
        | Some v \<Rightarrow>
            (let quad' = (quad_pos + 1) mod 4; lc = leftchar * 64 + v; lb = leftbits + 6 in
             if lb \<ge> 8
             then map_option ((#) (byte_chr (lc div 2 ^ (lb - 8) mod 256)))
                    (a2b_base64 quad' (lc mod 2 ^ (lb - 8)) (lb - 8) cs)
             else a2b_base64 quad' lc lb cs)))"

definition urlsafe_b64decode :: "string \<Rightarrow> exn + bytes" where
  "urlsafe_b64decode s = (case a2b_base64 0 0 0 (map from_urlsafe s) of
     None \<Rightarrow> Inl PyTypeError | Some r \<Rightarrow> Inr r)"

text \<open>\<open>str.splitlines()\<close>; the first argument is the line read so far.\<close>

function splitlines :: "string \<Rightarrow> string \<Rightarrow> string list" where
  "splitlines cur [] = (if cur = [] then [] else [cur])"
| "splitlines cur (c # s) =
     (if c = CHR 0x0D
      then cur # splitlines [] (if s \<noteq> [] \<and> hd s = CHR 0x0A then tl s else s)
      else if c = CHR 0x0A then cur # splitlines [] s
      else splitlines (cur @ [c]) s)"
  by pat_completeness auto
termination
  by (relation "measure (\<lambda>(cur, s). length s)") (auto simp: le_imp_less_Suc)

subsection \<open>The code\<close>

definition Base64WSEncode :: "bytes \<Rightarrow> string" where
  "Base64WSEncode s = filter (\<lambda>c. c \<noteq> CHR ''='') (urlsafe_b64encode s)"

definition Base64WSDecode :: "string \<Rightarrow> exn + bytes" where
  "Base64WSDecode s0 =
     (let s1 = concat (splitlines [] s0);
          s = filter (\<lambda>c. c \<noteq> CHR '' '') s1;
          d = length s mod 4
      in if d = 1 then Inl Base64DecodingError
         else let s' = (if d = 2 then s @ ''=='' else if d = 3 then s @ ''='' else s)
              in case urlsafe_b64decode s' of
                   Inl e \<Rightarrow> (if e = PyTypeError then Inl Base64DecodingError else Inl e)
                 | Inr r \<Rightarrow> Inr r)"

text \<open>The deprecated names.\<close>

definition Encode :: "bytes \<Rightarrow> string" where
  "Encode s = Base64WSEncode s"

definition Decode :: "string \<Rightarrow> exn + bytes" where
  "Decode s = Base64WSDecode s"

subsection \<open>Lines\<close>

definition not_newline :: "char \<Rightarrow> bool" where
  "not_newline c \<longleftrightarrow> c \<noteq> CHR 0x0D \<and> c \<noteq> CHR 0x0A"

lemma concat_splitlines: "concat (splitlines cur s) = cur @ filter not_newline s"
proof (induction cur s rule: splitlines.induct)
  case (1 cur)
  then show ?case by simp
next
  case (2 cur c s)
  have crlf: "filter not_newline (if s \<noteq> [] \<and> hd s = CHR 0x0A then tl s else s)
      = filter not_newline s"
    by (cases s) (auto simp: not_newline_def)
  show ?case
  proof (cases "c = CHR 0x0D")
    case True
    then have "\<not> not_newline c" by (simp add: not_newline_def)
    with 2(1) [OF True] crlf True show ?thesis by (simp del: filter.simps) simp
  next
    case False
    with 2(2,3) show ?thesis by (cases "c = CHR 0x0A") (simp_all add: not_newline_def)
  qed
qed

text \<open>\<open>Base64WSDecode\<close> sees its argument without line ends and blanks.\<close>

definition strip_ws :: "string \<Rightarrow> string" where
  "strip_ws s = filter (\<lambda>c. c \<noteq> CHR '' '' \<and> c \<noteq> CHR 0x0D \<and> c \<noteq> CHR 0x0A) s"

lemma strip_ws_eq: "filter (\<lambda>c. c \<noteq> CHR '' '') (concat (splitlines [] s)) = strip_ws s"
  by (simp add: concat_splitlines strip_ws_def not_newline_def conj_commute conj_left_commute)

subsection \<open>The alphabet\<close>

lemma char_eq_ord: "c = d \<longleftrightarrow> byte_ord c = byte_ord d"
  by simp

lemma special_chars:
  "c = CHR ''+'' \<longleftrightarrow> byte_ord c = 43" "c = CHR ''-'' \<longleftrightarrow> byte_ord c = 45"
  "c = CHR ''/'' \<longleftrightarrow> byte_ord c = 47" "c = CHR ''_'' \<longleftrightarrow> byte_ord c = 95"
  "c = CHR ''='' \<longleftrightarrow> byte_ord c = 61" "c = CHR '' '' \<longleftrightarrow> byte_ord c = 32"
  "c = CHR 0x0D \<longleftrightarrow> byte_ord c = 13" "c = CHR 0x0A \<longleftrightarrow> byte_ord c = 10"
  by (subst char_eq_ord, simp)+

definition b64_digit :: "char \<Rightarrow> bool" where
  "b64_digit c \<longleftrightarrow> b64_val (from_urlsafe c) \<noteq> None"

lemma ord_b64_chr:
  assumes "0 \<le> i" "i < 64"
  shows "byte_ord (b64_chr i) =
     (if i < 26 then i + 65 else if i < 52 then i + 71 else if i < 62 then i - 4
      else if i = 62 then 43 else 47)"
  using assms unfolding b64_chr_def by (subst of_char_of) auto

lemma ord_from_to_urlsafe:
  "byte_ord c \<noteq> 45 \<Longrightarrow> byte_ord c \<noteq> 95 \<Longrightarrow> from_urlsafe (to_urlsafe c) = c"
  by (auto simp: from_urlsafe_def to_urlsafe_def)

lemma b64_chr_val [simp]:
  assumes "0 \<le> i" "i < 64"
  shows "b64_val (from_urlsafe (to_urlsafe (b64_chr i))) = Some i"
proof -
  have "from_urlsafe (to_urlsafe (b64_chr i)) = b64_chr i"
    using assms by (intro ord_from_to_urlsafe) (simp_all add: ord_b64_chr)
  then show ?thesis
    using assms by (auto simp: b64_val_def Let_def ord_b64_chr)
qed

lemma b64_chr_digit [simp]: "0 \<le> i \<Longrightarrow> i < 64 \<Longrightarrow> b64_digit (to_urlsafe (b64_chr i))"
  by (simp add: b64_digit_def)

lemma b64_val_range: "b64_val c = Some v \<Longrightarrow> 0 \<le> v \<and> v < 64"
  by (auto simp: b64_val_def Let_def split: if_splits)

lemma b64_val_ascii:
  assumes "b64_val c = Some v"
  shows "byte_ord c \<le> 127" and "c \<noteq> CHR ''=''" and "c \<noteq> CHR 0x0D" and "c \<noteq> CHR 0x0A"
    and "c \<noteq> CHR '' ''"
  using assms by (auto simp: b64_val_def Let_def split: if_splits)

lemma b64_digit_not_special:
  assumes "b64_digit c"
  shows "c \<noteq> CHR ''=''" and "c \<noteq> CHR 0x0D" and "c \<noteq> CHR 0x0A" and "c \<noteq> CHR '' ''"
  using assms by (auto simp: b64_digit_def b64_val_def from_urlsafe_def)

subsection \<open>The scanner on encoded data\<close>

declare a2b_base64.simps(2) [simp del]

lemma scan_skip:
  assumes "\<forall>c \<in> set junk. b64_val c = None \<and> c \<noteq> CHR ''=''"
  shows "a2b_base64 q l b (junk @ cs) = a2b_base64 q l b cs"
  using assms by (induction junk) (auto simp: a2b_base64.simps(2))

lemma scan_pads [simp]: "a2b_base64 2 l b ''=='' = Some []" "a2b_base64 3 l b ''='' = Some []"
  by (simp_all add: a2b_base64.simps(2))

definition url_chr :: "int \<Rightarrow> char" where
  "url_chr i = to_urlsafe (b64_chr i)"

lemma url_chr_val [simp]: "0 \<le> i \<Longrightarrow> i < 64 \<Longrightarrow> b64_val (from_urlsafe (url_chr i)) = Some i"
  by (simp add: url_chr_def)

lemma scan_url [simp]:
  assumes "0 \<le> i" "i < 64"
  shows "a2b_base64 q l b (from_urlsafe (url_chr i) # cs) =
    (if b \<ge> 2 then map_option ((#) (byte_chr ((l * 64 + i) div 2 ^ (b - 2))))
          (a2b_base64 ((q + 1) mod 4) ((l * 64 + i) mod 2 ^ (b - 2)) (b - 2) cs)
     else a2b_base64 ((q + 1) mod 4) (l * 64 + i) (b + 6) cs)"
  using b64_val_ascii [OF url_chr_val [OF assms]] assms by (simp add: a2b_base64.simps(2) Let_def)

lemma url_chr_digit [simp]: "0 \<le> i \<Longrightarrow> i < 64 \<Longrightarrow> b64_digit (url_chr i)"
  by (simp add: url_chr_def)

lemma url_chr_not_pad [simp]: "0 \<le> i \<Longrightarrow> i < 64 \<Longrightarrow> url_chr i \<noteq> CHR ''=''"
  using b64_digit_not_special(1) url_chr_digit by blast

lemma sextet_ranges [simp]:
  "0 \<le> byte_ord x div 4" "byte_ord x div 4 < 64"
  "0 \<le> byte_ord x mod 4 * 16" "byte_ord x mod 4 * 16 < 64"
  "0 \<le> byte_ord x mod 4 * 16 + byte_ord y div 16" "byte_ord x mod 4 * 16 + byte_ord y div 16 < 64"
  "0 \<le> byte_ord x mod 16 * 4" "byte_ord x mod 16 * 4 < 64"
  "0 \<le> byte_ord x mod 16 * 4 + byte_ord y div 64" "byte_ord x mod 16 * 4 + byte_ord y div 64 < 64"
  using byte_ord_less [of x] byte_ord_nonneg [of x] byte_ord_less [of y] byte_ord_nonneg [of y]
  by (linarith | simp del: byte_ord_less byte_ord_nonneg)+

lemma encode_simps [simp]:
  "Base64WSEncode [] = []"
  "Base64WSEncode [a] = [url_chr (byte_ord a div 4), url_chr (byte_ord a mod 4 * 16)]"
  "Base64WSEncode [a, b] = [url_chr (byte_ord a div 4),
     url_chr (byte_ord a mod 4 * 16 + byte_ord b div 16), url_chr (byte_ord b mod 16 * 4)]"
  "Base64WSEncode (a # b # c # s) = url_chr (byte_ord a div 4)
     # url_chr (byte_ord a mod 4 * 16 + byte_ord b div 16)
     # url_chr (byte_ord b mod 16 * 4 + byte_ord c div 64) # url_chr (byte_ord c mod 64)
     # Base64WSEncode s"
  by (simp_all add: Base64WSEncode_def urlsafe_b64encode_def Let_def url_chr_def [symmetric])
    (simp_all add: to_urlsafe_def)

lemma join16:
  fixes q r w :: int
  assumes "0 \<le> w" "w < 16"
  shows "(q * 64 + (r * 16 + w)) div 16 = q * 4 + r" "(q * 64 + (r * 16 + w)) mod 16 = w"
proof -
  have eq: "q * 64 + (r * 16 + w) = w + 16 * (q * 4 + r)" by simp
  show "(q * 64 + (r * 16 + w)) div 16 = q * 4 + r" "(q * 64 + (r * 16 + w)) mod 16 = w"
    unfolding eq using assms by (simp_all only: div_mult_self2 mod_mult_self2) simp_all
qed

lemma join4:
  fixes q r w :: int
  assumes "0 \<le> w" "w < 4"
  shows "(q * 64 + (r * 4 + w)) div 4 = q * 16 + r" "(q * 64 + (r * 4 + w)) mod 4 = w"
proof -
  have eq: "q * 64 + (r * 4 + w) = w + 4 * (q * 16 + r)" by simp
  show "(q * 64 + (r * 4 + w)) div 4 = q * 16 + r" "(q * 64 + (r * 4 + w)) mod 4 = w"
    unfolding eq using assms by (simp_all only: div_mult_self2 mod_mult_self2) simp_all
qed

lemma byte_parts:
  "byte_ord x div 4 * 4 + byte_ord x mod 4 = byte_ord x"
  "byte_ord x div 16 * 16 + byte_ord x mod 16 = byte_ord x"
  "byte_ord x div 64 * 64 + byte_ord x mod 64 = byte_ord x"
  by simp_all

lemma byte_high:
  "0 \<le> byte_ord x div 16" "byte_ord x div 16 < 16" "0 \<le> byte_ord x div 64" "byte_ord x div 64 < 4"
  using byte_ord_less [of x] byte_ord_nonneg [of x]
  by (linarith | simp del: byte_ord_less byte_ord_nonneg)+

lemma sextets_join [simp]:
  "(byte_ord x div 4 * 64 + (byte_ord x mod 4 * 16 + byte_ord y div 16)) div 16 = byte_ord x"
  "(byte_ord x div 4 * 64 + (byte_ord x mod 4 * 16 + byte_ord y div 16)) mod 16 = byte_ord y div 16"
  "(byte_ord y div 16 * 64 + (byte_ord y mod 16 * 4 + byte_ord z div 64)) div 4 = byte_ord y"
  "(byte_ord y div 16 * 64 + (byte_ord y mod 16 * 4 + byte_ord z div 64)) mod 4 = byte_ord z div 64"
  "byte_ord z div 64 * 64 + byte_ord z mod 64 = byte_ord z"
  "(byte_ord x div 4 * 64 + byte_ord x mod 4 * 16) div 16 = byte_ord x"
  "(byte_ord y div 16 * 64 + byte_ord y mod 16 * 4) div 4 = byte_ord y"
  using join16 [of 0 "byte_ord x div 4" "byte_ord x mod 4"]
    join4 [of 0 "byte_ord y div 16" "byte_ord y mod 16"]
  by (simp_all only: join16 join4 byte_high byte_parts add_0_right zero_le_numeral zero_less_numeral)

lemma scan_group:
  assumes "0 \<le> i" "i < 64" "0 \<le> j" "j < 64" "0 \<le> k" "k < 64" "0 \<le> m" "m < 64"
  shows "a2b_base64 0 0 0 (from_urlsafe (url_chr i) # from_urlsafe (url_chr j)
      # from_urlsafe (url_chr k) # from_urlsafe (url_chr m) # cs)
    = map_option (\<lambda>r. byte_chr ((i * 64 + j) div 16)
        # byte_chr (((i * 64 + j) mod 16 * 64 + k) div 4)
        # byte_chr (((i * 64 + j) mod 16 * 64 + k) mod 4 * 64 + m) # r) (a2b_base64 0 0 0 cs)"
  using assms by (simp add: option.map_comp comp_def)

lemma scan_tail1:
  assumes "0 \<le> i" "i < 64" "0 \<le> j" "j < 64"
  shows "a2b_base64 0 0 0 (from_urlsafe (url_chr i) # from_urlsafe (url_chr j) # cs)
    = map_option ((#) (byte_chr ((i * 64 + j) div 16))) (a2b_base64 2 ((i * 64 + j) mod 16) 4 cs)"
  using assms by (simp add: numeral_2_eq_2)

lemma scan_tail2:
  assumes "0 \<le> i" "i < 64" "0 \<le> j" "j < 64" "0 \<le> k" "k < 64"
  shows "a2b_base64 0 0 0 (from_urlsafe (url_chr i) # from_urlsafe (url_chr j)
      # from_urlsafe (url_chr k) # cs)
    = map_option (\<lambda>r. byte_chr ((i * 64 + j) div 16)
        # byte_chr (((i * 64 + j) mod 16 * 64 + k) div 4) # r)
        (a2b_base64 3 (((i * 64 + j) mod 16 * 64 + k) mod 4) 2 cs)"
  using assms by (simp add: option.map_comp comp_def)

lemmas scan_simps = scan_group scan_tail1 scan_tail2 sextet_ranges sextets_join
  byte_high byte_parts pos_mod_sign pos_mod_bound zero_less_numeral char_of_char

definition b64_pad :: "bytes \<Rightarrow> string" where
  "b64_pad s = (if length s mod 3 = 1 then ''=='' else if length s mod 3 = 2 then ''='' else [])"

lemma from_urlsafe_pad [simp]: "from_urlsafe CHR ''='' = CHR ''=''"
  by (simp add: from_urlsafe_def)

lemma b64_pad_simps [simp]:
  "b64_pad [] = []" "b64_pad [a] = ''==''" "b64_pad [a, b] = ''=''"
  "b64_pad (a # b # c # s) = b64_pad s"
proof -
  have "length (a # b # c # s) mod 3 = length s mod 3"
    by (simp only: list.size add_Suc_right add_0_right mod_Suc_eq) presburger
  then show "b64_pad (a # b # c # s) = b64_pad s" by (simp only: b64_pad_def)
qed (simp_all add: b64_pad_def)

lemma from_urlsafe_eq_pad: "from_urlsafe c = CHR ''='' \<longleftrightarrow> c = CHR ''=''"
  by (simp add: from_urlsafe_def)

lemma scan_encode:
  assumes junk: "\<forall>c \<in> set junk. \<not> b64_digit c \<and> c \<noteq> CHR ''=''"
  shows "a2b_base64 0 0 0 (map from_urlsafe (Base64WSEncode s @ junk @ b64_pad s)) = Some s"
proof -
  have skip: "a2b_base64 q l b (map from_urlsafe junk @ cs) = a2b_base64 q l b cs" for q l b cs
    using junk by (intro scan_skip) (auto simp: b64_digit_def from_urlsafe_eq_pad)
  show ?thesis
  proof (induction s rule: b2a_base64.induct)
    case 1
    then show ?case using skip [of 0 0 0 "[]"] by simp
  next
    case (2 a)
    then show ?case
      by (simp only: encode_simps b64_pad_simps map_append list.map append_Cons append_Nil
          scan_simps skip) simp
  next
    case (3 a b)
    then show ?case
      by (simp only: encode_simps b64_pad_simps map_append list.map append_Cons append_Nil
          scan_simps skip) (simp add: skip)
  next
    case (4 a b c s)
    then show ?case
      by (simp only: encode_simps b64_pad_simps map_append list.map append_Cons append_Nil
          scan_simps) simp
  qed
qed

subsection \<open>Encoding and decoding\<close>

lemma encode_digits: "\<forall>c \<in> set (Base64WSEncode s). b64_digit c"
  by (induction s rule: b2a_base64.induct) simp_all

lemma encode_not_special:
  assumes "c \<in> set (Base64WSEncode s)"
  shows "c \<noteq> CHR ''=''" "c \<noteq> CHR 0x0D" "c \<noteq> CHR 0x0A" "c \<noteq> CHR '' ''"
  using b64_digit_not_special [OF bspec [OF encode_digits assms]] by simp_all

lemma strip_ws_encode: "strip_ws (Base64WSEncode s) = Base64WSEncode s"
  unfolding strip_ws_def by (rule filter_True) (use encode_not_special in blast)

lemma length_encode:
  "length (Base64WSEncode s) = 4 * (length s div 3)
     + (if length s mod 3 = 0 then 0 else if length s mod 3 = 1 then 2 else 3)"
proof (induction s rule: b2a_base64.induct)
  case (4 a b c s)
  have "length (a # b # c # s) = length s + 1 * 3" by simp
  then have "length (a # b # c # s) div 3 = length s div 3 + 1"
    and "length (a # b # c # s) mod 3 = length s mod 3"
    by (simp_all only: div_mult_self1 mod_mult_self1)
  with 4 show ?case by (simp only: encode_simps list.size) simp
qed simp_all

lemma length_encode_mod:
  "length (Base64WSEncode s) mod 4 =
     (if length s mod 3 = 0 then 0 else if length s mod 3 = 1 then 2 else 3)"
  by (simp add: length_encode)

text \<open>
  Decoding gives back what was encoded, also when characters outside the alphabet follow: they
  are skipped, not rejected.
\<close>

lemma decode_with_junk:
  assumes "\<forall>c \<in> set junk. \<not> b64_digit c \<and> c \<notin> {CHR ''='', CHR '' '', CHR 0x0D, CHR 0x0A}"
    and "4 dvd length junk"
  shows "Base64WSDecode (Base64WSEncode s @ junk) = Inr s"
proof -
  let ?e = "Base64WSEncode s @ junk"
  have strip: "filter (\<lambda>c. c \<noteq> CHR '' '') (concat (splitlines [] ?e)) = ?e"
    using assms(1) unfolding strip_ws_eq strip_ws_def
    by (intro filter_True) (auto dest: encode_not_special)
  have len: "length ?e mod 4 = (if length s mod 3 = 0 then 0 else if length s mod 3 = 1 then 2 else 3)"
    using assms(2) length_encode_mod [of s] by (auto elim!: dvdE)
  have pad: "(if length ?e mod 4 = 2 then ?e @ ''=='' else if length ?e mod 4 = 3 then ?e @ ''='' else ?e)
      = Base64WSEncode s @ junk @ b64_pad s"
    unfolding len b64_pad_def by simp presburger
  have "urlsafe_b64decode (Base64WSEncode s @ junk @ b64_pad s) = Inr s"
    using scan_encode [of junk s] assms(1) by (simp add: urlsafe_b64decode_def)
  then show ?thesis
    unfolding Base64WSDecode_def strip Let_def pad using len by auto
qed

lemma decode_encode [simp]: "Base64WSDecode (Base64WSEncode s) = Inr s"
  using decode_with_junk [of "[]" s] by simp

lemma encode_inject: "Base64WSEncode s = Base64WSEncode t \<longleftrightarrow> s = t"
  by (metis decode_encode sum.inject(2))

lemma decode_strip: "Base64WSDecode (strip_ws s) = Base64WSDecode s"
proof -
  have "strip_ws (strip_ws s) = strip_ws s" by (simp add: strip_ws_def)
  then show ?thesis by (simp only: Base64WSDecode_def Let_def strip_ws_eq)
qed

lemma urlsafe_b64decode_errors: "urlsafe_b64decode s = Inl e \<Longrightarrow> e = PyTypeError"
  by (simp add: urlsafe_b64decode_def split: option.splits)

lemma decode_errors:
  assumes "Base64WSDecode s = Inl e"
  shows "e = Base64DecodingError"
proof -
  have only: "(case urlsafe_b64decode x of Inl e \<Rightarrow> if e = PyTypeError then Inl Base64DecodingError else Inl e
      | Inr r \<Rightarrow> Inr r) = Inl e' \<Longrightarrow> e' = Base64DecodingError" for x and e' :: exn
    using urlsafe_b64decode_errors [of x] by (cases "urlsafe_b64decode x") auto
  show ?thesis
    using assms unfolding Base64WSDecode_def Let_def
    by (cases "length (filter (\<lambda>c. c \<noteq> CHR '' '') (concat (splitlines [] s))) mod 4 = 1")
       (simp_all add: only del: One_nat_def)
qed

subsection \<open>Splitting at block boundaries\<close>

lemma encode_append: "length x = 3 * k \<Longrightarrow> Base64WSEncode (x @ y) = Base64WSEncode x @ Base64WSEncode y"
proof (induction k arbitrary: x)
  case (Suc k)
  then obtain a b c z where "x = a # b # c # z" "length z = 3 * k"
    by (auto simp: length_Suc_conv numeral_3_eq_3)
  with Suc.IH [of z] show ?case by simp
qed simp

lemma take_drop_encode:
  "take (4 * k) (Base64WSEncode s) = Base64WSEncode (take (3 * k) s)
   \<and> drop (4 * k) (Base64WSEncode s) = Base64WSEncode (drop (3 * k) s)"
proof (cases "3 * k \<le> length s")
  case True
  have "Base64WSEncode s = Base64WSEncode (take (3 * k) s) @ Base64WSEncode (drop (3 * k) s)"
    using True encode_append [of "take (3 * k) s" k "drop (3 * k) s"] by simp
  moreover have "length (Base64WSEncode (take (3 * k) s)) = 4 * k"
    using True by (simp add: length_encode)
  ultimately show ?thesis by simp
next
  case False
  then have "length s div 3 < k" by (simp add: less_mult_imp_div_less mult.commute)
  then have "length (Base64WSEncode s) \<le> 4 * k" by (simp add: length_encode)
  with False show ?thesis by simp
qed

end
