(* ===== verification/SymmetricKeys.thy ===== *)
theory SymmetricKeys
  imports CryptoLib Base64 Json
begin

text \<open>
  \<open>python/src/keyczar/keys.py\<close>: the base class \<open>Key\<close>, \<open>HmacKey\<close>, \<open>HmacKeyStream\<close>, \<open>AesKey\<close> and
  the adaptors that give PyCrypto's and M2Crypto's ciphers one interface. The theorems are
  that the constant-time comparison is equality, that decryption inverts encryption with either
  library, and that a ciphertext is decrypted only under its own signature.
\<close>

subsection \<open>Keys\<close>

definition VERSION :: int where
  "VERSION = 0"

definition VERSION_BYTE :: bytes where
  "VERSION_BYTE = [CHR 0x00]"

definition KEY_HASH_SIZE :: nat where
  "KEY_HASH_SIZE = 4"

definition HEADER_SIZE :: nat where
  "HEADER_SIZE = 1 + KEY_HASH_SIZE"

lemma header_consts [simp]: "VERSION = 0" "KEY_HASH_SIZE = 4" "HEADER_SIZE = 5"
  by (simp_all add: VERSION_def KEY_HASH_SIZE_def HEADER_SIZE_def)

text \<open>The setter of the property \<open>size\<close> ignores a size the key type does not have.\<close>

definition SetSize :: "key_type \<Rightarrow> int \<Rightarrow> int \<Rightarrow> int" where
  "SetSize t old new_size = (if IsValidSize t new_size then new_size else old)"

definition key_bytes :: "string \<Rightarrow> exn + bytes" where
  "key_bytes key_string = Base64WSDecode key_string"

text \<open>\<open>Key._Hash\<close>, which every subclass overrides, and \<open>Key.Header\<close>.\<close>

definition Key_Hash :: "string \<Rightarrow> exn + string" where
  "Key_Hash key_string = ebind (key_bytes key_string) (\<lambda>kb.
     let fullhash = Hash [IntToBytes (int (length kb)), kb]
     in Inr (Base64WSEncode (take KEY_HASH_SIZE fullhash)))"

definition Key_Header :: "exn + string \<Rightarrow> exn + bytes" where
  "Key_Header hash_id = ebind hash_id (\<lambda>h. ebind (Base64WSDecode h) (\<lambda>b.
     Inr (byte_chr VERSION # b)))"

subsection \<open>HMAC keys\<close>

record hmac_key =
  hmac_key_string :: string
  hmac_size :: int

definition HmacKey_init :: "string \<Rightarrow> int \<Rightarrow> hmac_key" where
  "HmacKey_init key_string sz = \<lparr>hmac_key_string = key_string,
     hmac_size = SetSize HMAC_SHA1 (default_size HMAC_SHA1) sz\<rparr>"

definition hmac_json :: "hmac_key \<Rightarrow> json" where
  "hmac_json k = JObj [(''size'', JInt (hmac_size k)), (''hmacKeyString'', JStr (hmac_key_string k))]"

definition hmac_str :: "hmac_key \<Rightarrow> string" where
  "hmac_str k = json_dumps (hmac_json k)"

definition hmac_key_bytes :: "hmac_key \<Rightarrow> exn + bytes" where
  "hmac_key_bytes k = key_bytes (hmac_key_string k)"

definition hmac_Hash :: "hmac_key \<Rightarrow> exn + string" where
  "hmac_Hash k = ebind (hmac_key_bytes k) (\<lambda>kb.
     let fullhash = Hash [kb] in Inr (Base64WSEncode (take KEY_HASH_SIZE fullhash)))"

definition HmacKey_Generate :: "int \<Rightarrow> (entropy, exn, hmac_key) st" where
  "HmacKey_Generate sz = sbind (RandBytes (sz div 8)) (\<lambda>kb.
     let key_string = Base64WSEncode kb in sret (HmacKey_init key_string sz))"

definition HmacKey_Read :: "string \<Rightarrow> exn + hmac_key" where
  "HmacKey_Read key = ebind (json_loads key) (\<lambda>mac.
     ebind (get_str ''hmacKeyString'' mac) (\<lambda>ks.
     ebind (get_int ''size'' mac) (\<lambda>sz. Inr (HmacKey_init ks sz))))"

definition hmac_Sign :: "hmac_key \<Rightarrow> bytes \<Rightarrow> exn + bytes" where
  "hmac_Sign k msg = ebind (hmac_key_bytes k) (\<lambda>kb. Inr (hmac_sha1 kb msg))"

definition VerifySignedData :: "bytes \<Rightarrow> bytes \<Rightarrow> bool" where
  "VerifySignedData mac_bytes sig_bytes =
     (if length sig_bytes \<noteq> length mac_bytes then False
      else foldl (\<lambda>result (x, y). result OR (byte_ord x XOR byte_ord y)) 0 (zip mac_bytes sig_bytes) = 0)"

definition hmac_Verify :: "hmac_key \<Rightarrow> bytes \<Rightarrow> bytes \<Rightarrow> exn + bool" where
  "hmac_Verify k msg sig_bytes = ebind (hmac_Sign k msg) (\<lambda>m. Inr (VerifySignedData m sig_bytes))"

text \<open>The streaming form: a \<open>hmac\<close> object is its key and what it was fed.\<close>

record hmac_stream =
  hs_key :: bytes
  hs_fed :: bytes

definition CreateStreamable :: "hmac_key \<Rightarrow> exn + hmac_stream" where
  "CreateStreamable k = ebind (hmac_key_bytes k) (\<lambda>kb. Inr \<lparr>hs_key = kb, hs_fed = []\<rparr>)"

definition hs_Update :: "bytes \<Rightarrow> hmac_stream \<Rightarrow> hmac_stream" where
  "hs_Update data h = h\<lparr>hs_fed := hs_fed h @ data\<rparr>"

definition hs_Sign :: "hmac_stream \<Rightarrow> bytes" where
  "hs_Sign h = hmac_sha1 (hs_key h) (hs_fed h)"

subsection \<open>Cipher adaptors\<close>

record aes_cipher =
  ac_key :: bytes
  ac_iv :: bytes
  ac_fed :: bytes

definition AES_new :: "crypto \<Rightarrow> bytes \<Rightarrow> bytes \<Rightarrow> exn + aes_cipher" where
  "AES_new L kb iv = ebind (aes_new L kb iv) (\<lambda>_. Inr \<lparr>ac_key = kb, ac_iv = iv, ac_fed = []\<rparr>)"

definition ac_encrypt :: "crypto \<Rightarrow> bytes \<Rightarrow> (aes_cipher, exn, bytes) st" where
  "ac_encrypt L d = (\<lambda>c. case cbc_enc L (ac_key c) (ac_iv c) (ac_fed c @ d) of
       Inl e \<Rightarrow> (Inl e, c)
     | Inr out \<Rightarrow> (Inr (drop (length (ac_fed c)) out), c\<lparr>ac_fed := ac_fed c @ d\<rparr>))"

definition ac_decrypt :: "crypto \<Rightarrow> bytes \<Rightarrow> (aes_cipher, exn, bytes) st" where
  "ac_decrypt L d = (\<lambda>c. case cbc_dec L (ac_key c) (ac_iv c) (ac_fed c @ d) of
       Inl e \<Rightarrow> (Inl e, c)
     | Inr out \<Rightarrow> (Inr (drop (length (ac_fed c)) out), c\<lparr>ac_fed := ac_fed c @ d\<rparr>))"

text \<open>\<open>AESAdaptor\<close>: everything but \<open>final\<close> is the cipher's own.\<close>

definition AESAdaptor_final :: "(aes_cipher, exn, bytes) st" where
  "AESAdaptor_final = sret []"

text \<open>
  \<open>EVPAdaptor\<close>: one M2Crypto cipher per direction, made when it is first needed. A cipher is
  what \<open>EVP.Cipher\<close> was called with and what it was fed.
\<close>

record evp_cipher =
  ec_alg :: string
  ec_op :: int
  ec_fed :: bytes

record evp_adaptor =
  ciphers :: "(int \<times> evp_cipher) list"
  ea_key_bytes :: bytes
  ea_IV :: bytes
  ea_key_size :: int

definition OP_ACTIVE :: int where "OP_ACTIVE = -1"
definition OP_DECRYPT :: int where "OP_DECRYPT = 0"
definition OP_ENCRYPT :: int where "OP_ENCRYPT = 1"

definition OP_TYPES :: "int list" where
  "OP_TYPES = [OP_ACTIVE, OP_DECRYPT, OP_ENCRYPT]"

definition EVPAdaptor_init :: "bytes \<Rightarrow> bytes \<Rightarrow> evp_adaptor" where
  "EVPAdaptor_init kb iv = \<lparr>ciphers = [], ea_key_bytes = kb, ea_IV = iv, ea_key_size = int (length kb)\<rparr>"

text \<open>\<open>__Cipher\<close> returns the index of the cipher in \<open>ciphers\<close>, which stands for the object.\<close>

definition evp_Cipher :: "crypto \<Rightarrow> int \<Rightarrow> (evp_adaptor, exn, int \<times> evp_cipher) st" where
  "evp_Cipher L selector = (\<lambda>a.
     if selector \<notin> set OP_TYPES then (Inl PyAssertionError, a)
     else if selector = OP_ACTIVE \<and> (length (ciphers a) > 1 \<or> length (ciphers a) = 0)
     then (Inl PyAssertionError, a)
     else if selector = OP_ACTIVE then (Inr (hd (ciphers a)), a)
     else (case map_of (ciphers a) selector of
         Some c \<Rightarrow> (Inr (selector, c), a)
       | None \<Rightarrow>
           (let alg = ''aes_'' @ str_int (ea_key_size a * 8) @ ''_cbc''
            in case evp_new L alg (ea_key_bytes a) (ea_IV a) selector of
                 Inl e \<Rightarrow> (Inl e, a)
               | Inr _ \<Rightarrow>
                   (let c = \<lparr>ec_alg = alg, ec_op = selector, ec_fed = []\<rparr>
                    in (Inr (selector, c), a\<lparr>ciphers := ciphers a @ [(selector, c)]\<rparr>)))))"

definition evp_set_cipher :: "int \<Rightarrow> evp_cipher \<Rightarrow> evp_adaptor \<Rightarrow> evp_adaptor" where
  "evp_set_cipher i c a = a\<lparr>ciphers := map (\<lambda>(j, d). if j = i then (j, c) else (j, d)) (ciphers a)\<rparr>"

text \<open>\<open>EVP.Cipher.update\<close>: what it returns on top of what it returned before.\<close>

definition evp_cipher_update :: "crypto \<Rightarrow> int \<times> evp_cipher \<Rightarrow> bytes \<Rightarrow> (evp_adaptor, exn, bytes) st" where
  "evp_cipher_update L ic d = (\<lambda>a. case ic of (i, c) \<Rightarrow>
     (case evp_update L (ec_alg c) (ea_key_bytes a) (ea_IV a) (ec_op c) (ec_fed c) of
        Inl e \<Rightarrow> (Inl e, a)
      | Inr before \<Rightarrow>
          (case evp_update L (ec_alg c) (ea_key_bytes a) (ea_IV a) (ec_op c) (ec_fed c @ d) of
             Inl e \<Rightarrow> (Inl e, a)
           | Inr out \<Rightarrow> (Inr (drop (length before) out),
                evp_set_cipher i (c\<lparr>ec_fed := ec_fed c @ d\<rparr>) a))))"

definition evp_decrypt :: "crypto \<Rightarrow> bytes \<Rightarrow> (evp_adaptor, exn, bytes) st" where
  "evp_decrypt L d = sbind (evp_Cipher L OP_DECRYPT) (\<lambda>ic. evp_cipher_update L ic d)"

definition evp_encrypt :: "crypto \<Rightarrow> bytes \<Rightarrow> (evp_adaptor, exn, bytes) st" where
  "evp_encrypt L d = sbind (evp_Cipher L OP_ENCRYPT) (\<lambda>ic. evp_cipher_update L ic d)"

definition EVPAdaptor_final :: "crypto \<Rightarrow> int \<Rightarrow> (evp_adaptor, exn, bytes) st" where
  "EVPAdaptor_final L selector = sbind (evp_Cipher L selector) (\<lambda>ic a. case ic of (i, c) \<Rightarrow>
     (evp_final L (ec_alg c) (ea_key_bytes a) (ea_IV a) (ec_op c) (ec_fed c), a))"

datatype cipher = AESAdaptor aes_cipher | EVPAdaptor evp_adaptor

definition to_lower :: "char \<Rightarrow> char" where
  "to_lower c = (if 65 \<le> byte_ord c \<and> byte_ord c \<le> 90 then byte_chr (byte_ord c + 32) else c)"

definition aes_CreateCipher :: "crypto \<Rightarrow> bytes \<Rightarrow> bytes \<Rightarrow> exn + cipher" where
  "aes_CreateCipher L kb iv =
     (if map to_lower (ACTIVE_CRYPT_LIB L) = ''m2crypto'' \<and> EVP_present L
      then Inr (EVPAdaptor (EVPAdaptor_init kb iv))
      else ebind (AES_new L kb iv) (\<lambda>c. Inr (AESAdaptor c)))"

fun cipher_encrypt :: "crypto \<Rightarrow> bytes \<Rightarrow> (cipher, exn, bytes) st" where
  "cipher_encrypt L d (AESAdaptor c) = (case ac_encrypt L d c of (r, c') \<Rightarrow> (r, AESAdaptor c'))"
| "cipher_encrypt L d (EVPAdaptor a) = (case evp_encrypt L d a of (r, a') \<Rightarrow> (r, EVPAdaptor a'))"

fun cipher_final :: "crypto \<Rightarrow> (cipher, exn, bytes) st" where
  "cipher_final L (AESAdaptor c) = (case AESAdaptor_final c of (r, c') \<Rightarrow> (r, AESAdaptor c'))"
| "cipher_final L (EVPAdaptor a) = (case EVPAdaptor_final L OP_ACTIVE a of (r, a') \<Rightarrow> (r, EVPAdaptor a'))"

subsection \<open>AES keys\<close>

record aes_key =
  aes_key_string :: string
  aes_hmac_key :: hmac_key
  aes_size :: int

definition AesKey_init :: "string \<Rightarrow> hmac_key \<Rightarrow> int \<Rightarrow> cipher_mode \<Rightarrow> exn + aes_key" where
  "AesKey_init key_string hk sz mode =
     (if block_size \<noteq> 16 then Inl PyAssertionError
      else if mode \<noteq> CBC then Inl PyAssertionError
      else Inr \<lparr>aes_key_string = key_string, aes_hmac_key = hk,
                aes_size = SetSize AES (default_size AES) sz\<rparr>)"

definition aes_json :: "aes_key \<Rightarrow> exn + json" where
  "aes_json k = ebind (json_loads (hmac_str (aes_hmac_key k))) (\<lambda>h.
     Inr (JObj [(''mode'', JStr (mode_name CBC)), (''size'', JInt (aes_size k)),
        (''aesKeyString'', JStr (aes_key_string k)), (''hmacKey'', h)]))"

definition aes_str :: "aes_key \<Rightarrow> exn + string" where
  "aes_str k = ebind (aes_json k) (\<lambda>j. Inr (json_dumps j))"

definition aes_key_bytes :: "aes_key \<Rightarrow> exn + bytes" where
  "aes_key_bytes k = key_bytes (aes_key_string k)"

definition aes_Hash :: "aes_key \<Rightarrow> exn + string" where
  "aes_Hash k = ebind (aes_key_bytes k) (\<lambda>kb. ebind (hmac_key_bytes (aes_hmac_key k)) (\<lambda>hb.
     let fullhash = Hash [IntToBytes (int (length kb)), kb, hb]
     in Inr (Base64WSEncode (take KEY_HASH_SIZE fullhash))))"

definition aes_Header :: "aes_key \<Rightarrow> exn + bytes" where
  "aes_Header k = Key_Header (aes_Hash k)"

definition AesKey_Generate :: "int \<Rightarrow> (entropy, exn, aes_key) st" where
  "AesKey_Generate sz = sbind (RandBytes (sz div 8)) (\<lambda>kb.
     let key_string = Base64WSEncode kb in
     sbind (HmacKey_Generate (default_size HMAC_SHA1)) (\<lambda>hk. slift (AesKey_init key_string hk sz CBC)))"

definition AesKey_Read :: "string \<Rightarrow> exn + aes_key" where
  "AesKey_Read key = ebind (json_loads key) (\<lambda>aes.
     ebind (json_get ''hmacKey'' aes) (\<lambda>hmac_val.
     ebind (get_str ''aesKeyString'' aes) (\<lambda>ks.
     ebind (get_str ''hmacKeyString'' hmac_val) (\<lambda>hs.
     ebind (get_int ''size'' hmac_val) (\<lambda>hsz.
     ebind (get_int ''size'' aes) (\<lambda>sz.
     ebind (get_str ''mode'' aes) (\<lambda>m.
     ebind (GetMode m) (\<lambda>mode. AesKey_init ks (HmacKey_init hs hsz) sz mode))))))))"

definition aes_Pad :: "bytes \<Rightarrow> bytes" where
  "aes_Pad data = (let pad = block_size - length data mod block_size
                   in data @ replicate pad (byte_chr (int pad)))"

definition aes_UnPad :: "bytes \<Rightarrow> exn + bytes" where
  "aes_UnPad padded = (if padded = [] then Inl PyIndexError
     else let pad = byte_ord (last padded) in Inr (slice_to padded (- pad)))"

definition aes_NoPadBufferSize :: "int \<Rightarrow> int" where
  "aes_NoPadBufferSize buffer_size =
     (let no_pad_size = int block_size * (buffer_size div int block_size)
      in max no_pad_size (int block_size))"

definition aes_Encrypt :: "crypto \<Rightarrow> aes_key \<Rightarrow> bytes \<Rightarrow> (entropy, exn, bytes) st" where
  "aes_Encrypt L k data0 = (let data = aes_Pad data0 in
     sbind (RandBytes (int block_size)) (\<lambda>iv_bytes. slift (
       ebind (aes_key_bytes k) (\<lambda>kb.
       ebind (aes_CreateCipher L kb iv_bytes) (\<lambda>c.
       case cipher_encrypt L data c of
         (Inl e, c') \<Rightarrow> Inl e
       | (Inr ciph1, c') \<Rightarrow>
           (case cipher_final L c' of
              (Inl e, c'') \<Rightarrow> Inl e
            | (Inr ciph2, c'') \<Rightarrow>
                ebind (aes_Header k) (\<lambda>hdr.
                  let msg_bytes = hdr @ iv_bytes @ ciph1 @ ciph2
                  in ebind (hmac_Sign (aes_hmac_key k) msg_bytes) (\<lambda>sig_bytes.
                     Inr (msg_bytes @ sig_bytes)))))))))"

definition aes_Decrypt :: "crypto \<Rightarrow> aes_key \<Rightarrow> bytes \<Rightarrow> exn + bytes" where
  "aes_Decrypt L k input_bytes =
     (let data_bytes = slice_from input_bytes (int HEADER_SIZE) in
      if length data_bytes < block_size + HLEN then Inl (ShortCiphertextError (length data_bytes))
      else let iv_bytes = slice_to data_bytes (int block_size);
               ciph_bytes = slice data_bytes (int block_size) (- int HLEN);
               sig_bytes = slice_from data_bytes (- int HLEN)
           in ebind (hmac_Verify (aes_hmac_key k) (slice_to input_bytes (- int HLEN)) sig_bytes) (\<lambda>ok.
              if \<not> ok then Inl InvalidSignatureError
              else ebind (aes_key_bytes k) (\<lambda>kb.
                   ebind (AES_new L kb iv_bytes) (\<lambda>c.
                   ebind (fst (ac_decrypt L ciph_bytes c)) aes_UnPad))))"

subsection \<open>Comparing signatures\<close>

lemma byte_xor_zero: "byte_ord x XOR byte_ord y = 0 \<longleftrightarrow> x = y"
proof
  assume "byte_ord x XOR byte_ord y = 0"
  then have "byte_ord x = byte_ord y"
    by (metis xor.assoc xor.right_neutral xor_self_eq)
  then show "x = y" by (simp add: of_char_eq_iff)
qed simp

lemma fold_or_zero:
  "foldl (\<lambda>result (x, y). result OR (byte_ord x XOR byte_ord y)) r ps = 0
   \<longleftrightarrow> r = 0 \<and> (\<forall>(x, y) \<in> set ps. x = y)"
  by (induction ps arbitrary: r) (auto simp: or_eq_0_iff byte_xor_zero)

lemma VerifySignedData_eq: "VerifySignedData mac sig \<longleftrightarrow> mac = sig"
proof (cases "length sig = length mac")
  case True
  then have "(\<forall>(x, y) \<in> set (zip mac sig). x = y) \<longleftrightarrow> mac = sig"
    by (auto simp: set_zip list_eq_iff_nth_eq)
  with True show ?thesis by (simp add: VerifySignedData_def fold_or_zero)
next
  case False
  then show ?thesis by (auto simp: VerifySignedData_def)
qed

lemma hmac_Verify_eq: "hmac_Verify k msg sig = ebind (hmac_Sign k msg) (\<lambda>m. Inr (m = sig))"
  by (simp add: hmac_Verify_def VerifySignedData_eq)

lemma hmac_Verify_Sign: "hmac_Sign k msg = Inr s \<Longrightarrow> hmac_Verify k msg s = Inr True"
  by (simp add: hmac_Verify_eq)

lemma length_hmac_Sign: "hmac_Sign k msg = Inr s \<Longrightarrow> length s = 20"
  by (auto simp: hmac_Sign_def ebind_Inr_conv)

lemma hmac_stream_Sign:
  assumes "CreateStreamable k = Inr h"
  shows "Inr (hs_Sign (foldl (\<lambda>h d. hs_Update d h) h ds)) = hmac_Sign k (concat ds)"
proof -
  have fed: "foldl (\<lambda>h d. hs_Update d h) h ds = h\<lparr>hs_fed := hs_fed h @ concat ds\<rparr>" for h
    by (induction ds arbitrary: h) (simp_all add: hs_Update_def)
  show ?thesis
    using assms by (auto simp: fed CreateStreamable_def hmac_Sign_def hs_Sign_def ebind_Inr_conv)
qed

subsection \<open>Padding\<close>

lemma aes_Pad_blocks: "blocks (aes_Pad d)"
proof -
  define q m where "q = length d div 16" and "m = length d mod 16"
  have d: "length d = 16 * q + m" "m < 16" by (simp_all add: q_def m_def)
  have "length (aes_Pad d) = length d + (16 - m)" by (simp add: aes_Pad_def Let_def m_def)
  with d have "length (aes_Pad d) = 16 * (q + 1)" by presburger
  then show ?thesis unfolding blocks_def by (rule dvdI)
qed

lemma aes_Pad_longer: "length d < length (aes_Pad d)" "length (aes_Pad d) \<le> length d + 16"
  by (simp_all add: aes_Pad_def Let_def)

lemma aes_UnPad_replicate:
  assumes "0 < n" and "n \<le> 16"
  shows "aes_UnPad (d @ replicate n (byte_chr (int n))) = Inr d"
proof -
  have "byte_ord (last (d @ replicate n (byte_chr (int n)))) = int n"
    using assms by (simp add: last_replicate)
  moreover have "slice_to (d @ replicate n (byte_chr (int n))) (- int n) = d"
    using assms by (simp add: slice_to_neg)
  ultimately show ?thesis using assms by (simp add: aes_UnPad_def Let_def)
qed

lemma aes_UnPad_Pad: "aes_UnPad (aes_Pad d) = Inr d"
  unfolding aes_Pad_def Let_def by (rule aes_UnPad_replicate) simp_all

lemma aes_UnPad_drop_Pad:
  assumes "n \<le> length d"
  shows "aes_UnPad (drop n (aes_Pad d)) = Inr (drop n d)"
proof -
  define p where "p = block_size - length d mod block_size"
  have "drop n (aes_Pad d) = drop n d @ replicate p (byte_chr (int p))"
    using assms unfolding aes_Pad_def Let_def p_def [symmetric] by simp
  moreover have "0 < p" "p \<le> 16" by (simp_all add: p_def)
  ultimately show ?thesis using aes_UnPad_replicate by simp
qed

lemma NoPad_props:
  "int block_size dvd aes_NoPadBufferSize n" "int block_size \<le> aes_NoPadBufferSize n"
  "int block_size \<le> n \<Longrightarrow> aes_NoPadBufferSize n \<le> n \<and> n < aes_NoPadBufferSize n + int block_size"
proof -
  show "int block_size dvd aes_NoPadBufferSize n"
    by (simp add: aes_NoPadBufferSize_def Let_def max_def)
  show "int block_size \<le> aes_NoPadBufferSize n"
    by (simp add: aes_NoPadBufferSize_def Let_def)
  assume "int block_size \<le> n"
  then have "16 div 16 \<le> n div 16" by (intro zdiv_mono1) simp_all
  then have "aes_NoPadBufferSize n = 16 * (n div 16)"
    by (simp add: aes_NoPadBufferSize_def Let_def max_def)
  moreover have "16 * (n div 16) \<le> n" "n < 16 * (n div 16) + 16"
    using mult_div_mod_eq [of 16 n] pos_mod_sign [of 16 n] pos_mod_bound [of 16 n] by linarith+
  ultimately show "aes_NoPadBufferSize n \<le> n \<and> n < aes_NoPadBufferSize n + int block_size"
    by simp
qed

subsection \<open>Keys that work\<close>

text \<open>The key strings decode, and the AES key has one of the three lengths.\<close>

definition aes_ok :: "aes_key \<Rightarrow> bool" where
  "aes_ok k \<longleftrightarrow> (case (aes_key_bytes k, hmac_key_bytes (aes_hmac_key k)) of
     (Inr kb, Inr hb) \<Rightarrow> length kb \<in> {16, 24, 32} | _ \<Rightarrow> False)"

lemma aes_okE:
  assumes "aes_ok k"
  obtains kb hb where "aes_key_bytes k = Inr kb" "hmac_key_bytes (aes_hmac_key k) = Inr hb"
    "\<And>iv. length iv = 16 \<Longrightarrow> aes_args kb iv"
  using assms by (auto simp: aes_ok_def aes_args_def split: sum.splits)

lemma aes_Header_ok:
  assumes "aes_ok k"
  obtains h where "aes_Hash k = Inr (Base64WSEncode h)" "aes_Header k = Inr (CHR 0x00 # h)" "length h = 4"
proof -
  obtain kb hb where "aes_key_bytes k = Inr kb" "hmac_key_bytes (aes_hmac_key k) = Inr hb"
    using assms by (rule aes_okE)
  then show ?thesis
    by (intro that [of "take 4 (Hash [IntToBytes (int (length kb)), kb, hb])"])
       (simp_all add: aes_Hash_def aes_Header_def Key_Header_def Hash_concat Let_def)
qed

lemma AesKey_Generate_ok:
  assumes "IsValidSize AES sz"
  obtains k r' where "AesKey_Generate sz r = (Inr k, r')" "aes_ok k" "aes_size k = sz"
proof -
  have "sz \<in> {128, 192, 256}" using assms by (simp add: IsValidSize_def)
  then have sz: "0 \<le> sz div 8" "nat (sz div 8) \<in> {16, 24, 32}" by auto
  define k where "k = \<lparr>aes_key_string = Base64WSEncode (map r [0..<nat (sz div 8)]),
      aes_hmac_key = HmacKey_init (Base64WSEncode (map (\<lambda>i. r (i + nat (sz div 8))) [0..<32])) 256,
      aes_size = sz\<rparr>"
  have "\<exists>r'. AesKey_Generate sz r = (Inr k, r')"
    using assms sz
    by (simp add: AesKey_Generate_def HmacKey_Generate_def st_defs AesKey_init_def SetSize_def
        k_def default_size_def Let_def)
  moreover have "aes_ok k"
    using sz by (simp add: aes_ok_def k_def aes_key_bytes_def hmac_key_bytes_def key_bytes_def HmacKey_init_def)
  moreover have "aes_size k = sz" by (simp add: k_def)
  ultimately show ?thesis using that by blast
qed

subsection \<open>Encrypting\<close>

text \<open>Either library computes the CBC encryption.\<close>

definition backend_ok :: "crypto \<Rightarrow> bool" where
  "backend_ok L \<longleftrightarrow> aes_laws L \<and> (EVP_present L \<longrightarrow> evp_laws L)"

lemma backend_enc:
  "backend_ok L \<Longrightarrow> aes_args kb iv \<Longrightarrow> blocks d \<Longrightarrow>
     \<exists>c. cbc_enc L kb iv d = Inr c \<and> length c = length d"
  by (metis cbc_cipherE backend_ok_def aes_laws_def)

lemma CreateCipher_encrypt:
  assumes "backend_ok L" and args: "aes_args kb iv" and d: "blocks d"
    and c: "cbc_enc L kb iv d = Inr c"
  obtains cp cp' cp'' where "aes_CreateCipher L kb iv = Inr cp"
    "cipher_encrypt L d cp = (Inr c, cp')" "cipher_final L cp' = (Inr [], cp'')"
proof (cases "map to_lower (ACTIVE_CRYPT_LIB L) = ''m2crypto'' \<and> EVP_present L")
  case True
  let ?a = "EVPAdaptor_init kb iv"
  have alg: "''aes_'' @ str_int (ea_key_size ?a * 8) @ ''_cbc'' = evp_alg kb"
    by (simp add: EVPAdaptor_init_def evp_alg_def str_int_def nat_mult_distrib mult.commute)
  have evp: "evp_laws L" using True assms(1) by (simp add: backend_ok_def)
  have new: "evp_new L (evp_alg kb) kb iv 1 = Inr ()"
    using evp args d unfolding evp_laws_def by blast
  have upd: "evp_update L (evp_alg kb) kb iv 1 x = cbc_enc L kb iv x" if "blocks x" for x
    using evp args that unfolding evp_laws_def by simp
  have fin: "evp_final L (evp_alg kb) kb iv 1 d = Inr []"
    using evp args d unfolding evp_laws_def by blast
  obtain c0 where c0: "cbc_enc L kb iv [] = Inr c0" "length c0 = length ([] :: bytes)"
    using backend_enc [OF assms(1) args blocks_simps(1)] by blast
  let ?c = "\<lparr>ec_alg = evp_alg kb, ec_op = 1, ec_fed = []\<rparr>"
  let ?a' = "?a\<lparr>ciphers := [(1, ?c\<lparr>ec_fed := d\<rparr>)]\<rparr>"
  have "cipher_encrypt L d (EVPAdaptor ?a) = (Inr c, EVPAdaptor ?a')"
    using alg new upd [of "[]"] upd [OF d] c c0
    by (simp add: evp_encrypt_def evp_Cipher_def evp_cipher_update_def evp_set_cipher_def
        EVPAdaptor_init_def sbind_def OP_TYPES_def OP_ACTIVE_def OP_ENCRYPT_def OP_DECRYPT_def Let_def)
  moreover have "cipher_final L (EVPAdaptor ?a') = (Inr [], EVPAdaptor ?a')"
    using fin
    by (simp add: EVPAdaptor_final_def evp_Cipher_def EVPAdaptor_init_def sbind_def OP_TYPES_def
        OP_ACTIVE_def OP_ENCRYPT_def OP_DECRYPT_def)
  ultimately show ?thesis using that True by (simp add: aes_CreateCipher_def)
next
  case False
  let ?c = "\<lparr>ac_key = kb, ac_iv = iv, ac_fed = []\<rparr>"
  have "AES_new L kb iv = Inr ?c"
    using assms(1) args by (auto simp: AES_new_def backend_ok_def aes_laws_def)
  moreover have "cipher_encrypt L d (AESAdaptor ?c) = (Inr c, AESAdaptor (?c\<lparr>ac_fed := d\<rparr>))"
    using c by (simp add: ac_encrypt_def)
  ultimately show ?thesis using that False
    by (simp add: aes_CreateCipher_def AESAdaptor_final_def sret_def)
qed

lemma aes_Encrypt_shape:
  assumes "backend_ok L" and "aes_ok k"
  obtains kb h iv c sig where
    "aes_Encrypt L k d r = (Inr ((CHR 0x00 # h) @ iv @ c @ sig), \<lambda>i. r (i + 16))"
    "aes_key_bytes k = Inr kb" "aes_args kb iv" "aes_Hash k = Inr (Base64WSEncode h)" "length h = 4"
    "iv = map r [0..<16]" "cbc_enc L kb iv (aes_Pad d) = Inr c" "length c = length (aes_Pad d)"
    "hmac_Sign (aes_hmac_key k) ((CHR 0x00 # h) @ iv @ c) = Inr sig" "length sig = 20"
proof -
  obtain kb hb where kb: "aes_key_bytes k = Inr kb" and hb: "hmac_key_bytes (aes_hmac_key k) = Inr hb"
    and args: "\<And>iv. length iv = 16 \<Longrightarrow> aes_args kb iv" using assms(2) by (rule aes_okE) blast
  obtain h where h: "aes_Hash k = Inr (Base64WSEncode h)" "aes_Header k = Inr (CHR 0x00 # h)" "length h = 4"
    using assms(2) by (rule aes_Header_ok)
  define iv where "iv = map r [0..<16]"
  have a: "aes_args kb iv" by (intro args) (simp add: iv_def)
  obtain c where c: "cbc_enc L kb iv (aes_Pad d) = Inr c" "length c = length (aes_Pad d)"
    using backend_enc [OF assms(1) a aes_Pad_blocks] by blast
  obtain cp cp' cp'' where cp: "aes_CreateCipher L kb iv = Inr cp"
    "cipher_encrypt L (aes_Pad d) cp = (Inr c, cp')" "cipher_final L cp' = (Inr [], cp'')"
    using assms(1) a aes_Pad_blocks c(1) by (rule CreateCipher_encrypt)
  define sig where "sig = hmac_sha1 hb ((CHR 0x00 # h) @ iv @ c)"
  have sig: "hmac_Sign (aes_hmac_key k) ((CHR 0x00 # h) @ iv @ c) = Inr sig"
    using hb by (simp add: hmac_Sign_def sig_def)
  have rnd: "RandBytes 16 r = (Inr iv, \<lambda>i. r (i + 16))" by (simp add: iv_def)
  have "aes_Encrypt L k d r = (Inr ((CHR 0x00 # h) @ iv @ c @ sig), \<lambda>i. r (i + 16))"
    using kb cp h(2) sig
    by (simp add: aes_Encrypt_def Let_def sbind_def slift_def rnd del: RandBytes_nat)
  then show ?thesis
    using that kb a h(1,3) iv_def c sig length_hmac_Sign [OF sig] by blast
qed

subsection \<open>Decrypting\<close>

lemma aes_Decrypt_parts:
  assumes "length hdr = 5" "length iv = 16" "length sig = 20"
  shows "aes_Decrypt L k (hdr @ iv @ c @ sig) =
     ebind (hmac_Sign (aes_hmac_key k) (hdr @ iv @ c)) (\<lambda>m.
       if m \<noteq> sig then Inl InvalidSignatureError
       else ebind (aes_key_bytes k) (\<lambda>kb. ebind (AES_new L kb iv) (\<lambda>ci.
              ebind (fst (ac_decrypt L c ci)) aes_UnPad)))"
proof -
  have mid: "slice (iv @ c @ sig) 16 (-20) = c"
    using assms by (simp add: slice_def Let_def min_def)
  show ?thesis
    using assms by (simp add: aes_Decrypt_def Let_def mid hmac_Verify_eq ebind_def split: sum.split)
qed

lemma aes_Decrypt_Encrypt:
  assumes "backend_ok L" and "aes_ok k" and "aes_Encrypt L k d r = (Inr ct, r')"
  shows "aes_Decrypt L k ct = Inr d"
proof -
  obtain kb h iv c sig where
    enc: "aes_Encrypt L k d r = (Inr ((CHR 0x00 # h) @ iv @ c @ sig), \<lambda>i. r (i + 16))"
    and kb: "aes_key_bytes k = Inr kb" and args: "aes_args kb iv" and h: "length h = 4"
    and c: "cbc_enc L kb iv (aes_Pad d) = Inr c" and sig:
    "hmac_Sign (aes_hmac_key k) ((CHR 0x00 # h) @ iv @ c) = Inr sig" "length sig = 20"
    using assms(1,2) by (rule aes_Encrypt_shape)
  have laws: "aes_new L kb iv = Inr ()" "cbc_dec L kb iv c = Inr (aes_Pad d)"
    using assms(1) args c aes_Pad_blocks by (auto simp: backend_ok_def aes_laws_def)
  have "aes_Decrypt L k ((CHR 0x00 # h) @ iv @ c @ sig) = Inr d"
    using args h sig laws kb
    by (subst aes_Decrypt_parts)
       (simp_all add: aes_args_def AES_new_def ac_decrypt_def aes_UnPad_Pad)
  with enc assms(3) show ?thesis by simp
qed

lemma aes_Decrypt_short:
  assumes "length ct < 41"
  shows "aes_Decrypt L k ct = Inl (ShortCiphertextError (length ct - 5))"
proof -
  have "length ct - 5 < 36" using assms by linarith
  then show ?thesis by (simp add: aes_Decrypt_def Let_def)
qed

text \<open>A ciphertext that decrypts carries the signature of everything before it.\<close>

lemma aes_Decrypt_authentic:
  assumes "aes_Decrypt L k ct = Inr d"
  shows "41 \<le> length ct
    \<and> hmac_Sign (aes_hmac_key k) (take (length ct - 20) ct) = Inr (drop (length ct - 20) ct)"
proof -
  have len: "41 \<le> length ct"
  proof (rule ccontr)
    assume "\<not> 41 \<le> length ct"
    then show False using assms aes_Decrypt_short [of ct L k] by simp
  qed
  define hdr iv c sig where "hdr = take 5 ct" and "iv = take 16 (drop 5 ct)"
    and "c = drop 21 (take (length ct - 20) ct)" and "sig = drop (length ct - 20) ct"
  have pre: "take (length ct - 20) ct = hdr @ iv @ c"
  proof -
    have "21 \<le> length ct - 20" using len by linarith
    then have "take 21 (take (length ct - 20) ct) = hdr @ iv"
      by (simp add: hdr_def iv_def min_def take_add [of 5 16, simplified, symmetric])
    then show ?thesis unfolding c_def by (metis append.assoc append_take_drop_id)
  qed
  have ct: "ct = hdr @ iv @ c @ sig"
    using pre unfolding sig_def by (metis append.assoc append_take_drop_id)
  have lens: "length hdr = 5" "length iv = 16" "length sig = 20"
    using len by (simp_all add: hdr_def iv_def sig_def)
  have "aes_Decrypt L k (hdr @ iv @ c @ sig) = Inr d" using assms ct by simp
  then have "hmac_Sign (aes_hmac_key k) (hdr @ iv @ c) = Inr sig"
    unfolding aes_Decrypt_parts [OF lens] by (auto simp: ebind_Inr_conv split: if_splits)
  then show ?thesis using len pre by (simp add: sig_def)
qed

end
