(* ===== verification/AsymmetricKeys.thy ===== *)
theory AsymmetricKeys
  imports SymmetricKeys
begin

text \<open>
  \<open>python/src/keyczar/keys.py\<close>: \<open>RsaPublicKey\<close>, \<open>RsaPrivateKey\<close>, \<open>DsaPublicKey\<close>, \<open>DsaPrivateKey\<close>
  with OAEP encryption, EMSA signatures and the DER form of DSA signatures
  (\<open>util.MakeDsaSig\<close>, \<open>util.ParseDsaSig\<close>). The dictionaries \<open>params\<close> are record fields. The number
  of bytes of a modulus is what the floating-point logarithm \<open>log256\<close> makes of it.
\<close>

subsection \<open>RSA keys\<close>

record rsa_public =
  rp_modulus :: bytes
  rp_publicExponent :: bytes
  rp_key :: rsa_obj
  rp_size :: int

record rsa_private =
  rk_privateExponent :: bytes
  rk_primeP :: bytes
  rk_primeQ :: bytes
  rk_primeExponentP :: bytes
  rk_primeExponentQ :: bytes
  rk_crtCoefficient :: bytes
  rk_public :: rsa_public
  rk_key :: rsa_obj
  rk_size :: int

definition RsaPublicKey_init :: "bytes \<Rightarrow> bytes \<Rightarrow> rsa_obj \<Rightarrow> int \<Rightarrow> rsa_public" where
  "RsaPublicKey_init modulus e key sz = \<lparr>rp_modulus = modulus, rp_publicExponent = e, rp_key = key,
     rp_size = SetSize RSA_PUB (default_size RSA_PUB) sz\<rparr>"

definition num_bytes :: "crypto \<Rightarrow> int \<Rightarrow> exn + int" where
  "num_bytes L n = (if n \<le> 0 then Inl PyValueError else Inr (log256 L n + 1))"

definition rsa_Encode :: "crypto \<Rightarrow> rsa_obj \<Rightarrow> bytes \<Rightarrow> bytes \<Rightarrow> (entropy, exn, bytes) st" where
  "rsa_Encode L key msg label =
     (if int (length label) \<ge> 2 ^ 61 then sraise (KeyczarError ''OAEP parameter string too long.'')
      else sbind (slift (num_bytes L (rsa_n key))) (\<lambda>k.
        if int (length msg) > k - 2 * int HLEN - 2
        then sraise (KeyczarError ''Message too long to OAEP encode.'')
        else
          let label_hash = Hash [label];
              pad_octets = k - int (length msg) - 2 * int HLEN - 2
          in if pad_octets < 0 then sraise (KeyczarError (''Message is too long: '' @ str_nat (length msg)))
             else
               let datablock = label_hash @ replicate (nat pad_octets) CHR 0x00 @ [CHR 0x01] @ msg
               in sbind (RandBytes (int HLEN)) (\<lambda>seed. slift (
                    ebind (MGF seed (k - int HLEN - 1)) (\<lambda>datablock_mask.
                    let masked_datablock = Xor datablock datablock_mask
                    in ebind (MGF masked_datablock (int HLEN)) (\<lambda>seed_mask.
                       let masked_seed = Xor seed seed_mask
                       in Inr ([CHR 0x00] @ masked_seed @ masked_datablock)))))))"

definition rsa_pub_json :: "rsa_public \<Rightarrow> json" where
  "rsa_pub_json k = JObj [(''modulus'', JStr (Base64WSEncode (rp_modulus k))),
     (''publicExponent'', JStr (Base64WSEncode (rp_publicExponent k))), (''size'', JInt (rp_size k))]"

definition rsa_pub_str :: "rsa_public \<Rightarrow> string" where
  "rsa_pub_str k = json_dumps (rsa_pub_json k)"

definition rsa_pub_Hash :: "rsa_public \<Rightarrow> exn + string" where
  "rsa_pub_Hash k = (let fullhash = PrefixHash [TrimBytes (rp_modulus k), TrimBytes (rp_publicExponent k)]
     in Inr (Base64WSEncode (take KEY_HASH_SIZE fullhash)))"

definition rsa_construct2 :: "int \<Rightarrow> int \<Rightarrow> rsa_obj" where
  "rsa_construct2 n e = \<lparr>rsa_n = n, rsa_e = e, rsa_priv = None\<rparr>"

definition rsa_construct6 :: "int \<Rightarrow> int \<Rightarrow> int \<Rightarrow> int \<Rightarrow> int \<Rightarrow> int \<Rightarrow> rsa_obj" where
  "rsa_construct6 n e d p q u = \<lparr>rsa_n = n, rsa_e = e, rsa_priv = Some (d, p, q, u)\<rparr>"

definition get_bytes :: "string \<Rightarrow> json \<Rightarrow> exn + bytes" where
  "get_bytes name v = ebind (get_str name v) Base64WSDecode"

definition RsaPublicKey_Read :: "string \<Rightarrow> exn + rsa_public" where
  "RsaPublicKey_Read key = ebind (json_loads key) (\<lambda>rsa.
     ebind (get_bytes ''modulus'' rsa) (\<lambda>modulus.
     ebind (get_bytes ''publicExponent'' rsa) (\<lambda>e.
     let pubkey = rsa_construct2 (BytesToLong modulus) (BytesToLong e)
     in ebind (get_int ''size'' rsa) (\<lambda>sz. Inr (RsaPublicKey_init modulus e pubkey sz)))))"

definition rsa_pub_Header :: "rsa_public \<Rightarrow> exn + bytes" where
  "rsa_pub_Header k = Key_Header (rsa_pub_Hash k)"

definition rsa_pub_Encrypt :: "crypto \<Rightarrow> rsa_public \<Rightarrow> bytes \<Rightarrow> (entropy, exn, bytes) st" where
  "rsa_pub_Encrypt L k data0 = sbind (rsa_Encode L (rp_key k) data0 []) (\<lambda>data. slift (
     ebind (rsa_encrypt L (rp_key k) data) (\<lambda>ciph_bytes.
     ebind (rsa_pub_Header k) (\<lambda>hdr. Inr (hdr @ ciph_bytes)))))"

definition rsa_pub_Verify :: "crypto \<Rightarrow> rsa_public \<Rightarrow> bytes \<Rightarrow> bytes \<Rightarrow> exn + bool" where
  "rsa_pub_Verify L k msg sig =
     (case rsa_verify L (rp_key k) (MakeEmsaMessage msg (rp_size k)) (BytesToLong sig) of
        Inl e \<Rightarrow> (if e = PyValueError then Inr False else Inl e)
      | Inr b \<Rightarrow> Inr b)"

definition rsa_Decode :: "crypto \<Rightarrow> rsa_obj \<Rightarrow> bytes \<Rightarrow> bytes \<Rightarrow> exn + bytes" where
  "rsa_Decode L key em0 label =
     (if int (length label) \<ge> 2 ^ 61
      then Inl (KeyczarError (''OAEP Decoding Error - label is too large '' @ str_nat (length label)))
      else if length em0 < 2 * HLEN + 2
      then Inl (KeyczarError (''OAEP Decoding Error - encoded_message is too small: '' @ str_nat (length em0)))
      else ebind (num_bytes L (rsa_n key)) (\<lambda>k.
        let diff_len = k - int (length em0);
            em = (if diff_len > 1 then replicate (nat (diff_len - 1)) CHR 0x00 @ em0 else em0);
            masked_seed = take HLEN em;
            masked_datablock = drop HLEN em
        in ebind (MGF masked_datablock (int HLEN)) (\<lambda>seed_mask.
           let seed = Xor masked_seed seed_mask
           in ebind (MGF seed (int (length masked_datablock))) (\<lambda>datablock_mask.
              let datablock = Xor masked_datablock datablock_mask;
                  label_hash = take HLEN datablock;
                  expected_label_hash = Hash [label]
              in if label_hash \<noteq> expected_label_hash
                 then Inl (KeyczarError ''OAEP Decoding Error - hash_id is invalid'')
                 else let delimited_message = lstrip_char CHR 0x00 (drop HLEN datablock)
                      in if delimited_message = [] then Inl PyIndexError
                         else if hd delimited_message \<noteq> CHR 0x01
                         then Inl (KeyczarError ''OAEP Decoding Error - expected a 1 value'')
                         else Inr (drop 1 delimited_message)))))"

definition rsa_priv_json :: "rsa_private \<Rightarrow> exn + json" where
  "rsa_priv_json k = ebind (json_loads (rsa_pub_str (rk_public k))) (\<lambda>pub.
     Inr (JObj [(''publicKey'', pub),
       (''privateExponent'', JStr (Base64WSEncode (rk_privateExponent k))),
       (''primeP'', JStr (Base64WSEncode (rk_primeP k))),
       (''primeQ'', JStr (Base64WSEncode (rk_primeQ k))),
       (''primeExponentP'', JStr (Base64WSEncode (rk_primeExponentP k))),
       (''primeExponentQ'', JStr (Base64WSEncode (rk_primeExponentQ k))),
       (''crtCoefficient'', JStr (Base64WSEncode (rk_crtCoefficient k))),
       (''size'', JInt (rk_size k))]))"

definition rsa_priv_str :: "rsa_private \<Rightarrow> exn + string" where
  "rsa_priv_str k = ebind (rsa_priv_json k) (\<lambda>j. Inr (json_dumps j))"

definition rsa_priv_Hash :: "rsa_private \<Rightarrow> exn + string" where
  "rsa_priv_Hash k = rsa_pub_Hash (rk_public k)"

definition padded_bytes :: "int \<Rightarrow> bytes" where
  "padded_bytes n = PadBytes (BigIntToBytes n) 1"

text \<open>The keyset's key from PyCrypto's: the two primes change places.\<close>

definition RsaPrivateKey_of :: "rsa_obj \<Rightarrow> int \<Rightarrow> exn + rsa_private" where
  "RsaPrivateKey_of key sz = (case rsa_priv key of
     None \<Rightarrow> Inl PyAttributeError
   | Some (d, p, q, u) \<Rightarrow>
       (let pubkey = key\<lparr>rsa_priv := None\<rparr>;
            pub = RsaPublicKey_init (padded_bytes (rsa_n key)) (padded_bytes (rsa_e key)) pubkey sz
        in Inr \<lparr>rk_privateExponent = padded_bytes d, rk_primeP = padded_bytes q, rk_primeQ = padded_bytes p,
             rk_primeExponentP = padded_bytes (d mod (q - 1)), rk_primeExponentQ = padded_bytes (d mod (p - 1)),
             rk_crtCoefficient = padded_bytes u, rk_public = pub, rk_key = key,
             rk_size = SetSize RSA_PRIV (default_size RSA_PRIV) sz\<rparr>))"

definition RsaPrivateKey_Generate :: "crypto \<Rightarrow> int \<Rightarrow> (entropy, exn, rsa_private) st" where
  "RsaPrivateKey_Generate L sz = sbind (rsa_generate L sz) (\<lambda>key. slift (RsaPrivateKey_of key sz))"

definition RsaPrivateKey_Read :: "string \<Rightarrow> exn + rsa_private" where
  "RsaPrivateKey_Read key = ebind (json_loads key) (\<lambda>rsa.
     ebind (json_get ''publicKey'' rsa) (\<lambda>pk.
     ebind (RsaPublicKey_Read (json_dumps pk)) (\<lambda>pub.
     ebind (get_bytes ''privateExponent'' rsa) (\<lambda>d.
     ebind (get_bytes ''primeP'' rsa) (\<lambda>p.
     ebind (get_bytes ''primeQ'' rsa) (\<lambda>q.
     ebind (get_bytes ''primeExponentP'' rsa) (\<lambda>dp.
     ebind (get_bytes ''primeExponentQ'' rsa) (\<lambda>dq.
     ebind (get_bytes ''crtCoefficient'' rsa) (\<lambda>u.
     let k = rsa_construct6 (BytesToLong (rp_modulus pub)) (BytesToLong (rp_publicExponent pub))
               (BytesToLong d) (BytesToLong q) (BytesToLong p) (BytesToLong u)
     in ebind (get_int ''size'' rsa) (\<lambda>sz.
        Inr \<lparr>rk_privateExponent = d, rk_primeP = p, rk_primeQ = q, rk_primeExponentP = dp,
             rk_primeExponentQ = dq, rk_crtCoefficient = u, rk_public = pub, rk_key = k,
             rk_size = SetSize RSA_PRIV (default_size RSA_PRIV) sz\<rparr>))))))))))"

definition rsa_priv_Encrypt :: "crypto \<Rightarrow> rsa_private \<Rightarrow> bytes \<Rightarrow> (entropy, exn, bytes) st" where
  "rsa_priv_Encrypt L k data = rsa_pub_Encrypt L (rk_public k) data"

definition rsa_Decrypt :: "crypto \<Rightarrow> rsa_private \<Rightarrow> bytes \<Rightarrow> exn + bytes" where
  "rsa_Decrypt L k input_bytes =
     (let ciph_bytes = drop HEADER_SIZE input_bytes
      in ebind (rsa_decrypt L (rk_key k) ciph_bytes) (\<lambda>decrypted. rsa_Decode L (rk_key k) decrypted []))"

definition rsa_Sign :: "crypto \<Rightarrow> rsa_private \<Rightarrow> bytes \<Rightarrow> exn + bytes" where
  "rsa_Sign L k msg =
     (let emsa_encoded = MakeEmsaMessage msg (rk_size k)
      in ebind (rsa_sign L (rk_key k) emsa_encoded) (\<lambda>s.
         let byte_string = BigIntToBytes s
         in Inr (PadBytes byte_string (rk_size k div 8 - int (length byte_string)))))"

definition rsa_priv_Verify :: "crypto \<Rightarrow> rsa_private \<Rightarrow> bytes \<Rightarrow> bytes \<Rightarrow> exn + bool" where
  "rsa_priv_Verify L k msg sig = rsa_pub_Verify L (rk_public k) msg sig"

subsection \<open>DSA keys\<close>

record dsa_public =
  dp_p :: bytes
  dp_q :: bytes
  dp_g :: bytes
  dp_y :: bytes
  dp_key :: dsa_obj
  dp_size :: int

record dsa_private =
  dk_x :: bytes
  dk_public :: dsa_public
  dk_key :: dsa_obj
  dk_size :: int

definition dsa_pub_json :: "dsa_public \<Rightarrow> json" where
  "dsa_pub_json k = JObj [(''p'', JStr (Base64WSEncode (dp_p k))), (''q'', JStr (Base64WSEncode (dp_q k))),
     (''g'', JStr (Base64WSEncode (dp_g k))), (''y'', JStr (Base64WSEncode (dp_y k))),
     (''size'', JInt (dp_size k))]"

definition dsa_pub_str :: "dsa_public \<Rightarrow> string" where
  "dsa_pub_str k = json_dumps (dsa_pub_json k)"

definition dsa_pub_Hash :: "dsa_public \<Rightarrow> exn + string" where
  "dsa_pub_Hash k = (let fullhash = PrefixHash [TrimBytes (dp_p k), TrimBytes (dp_q k), TrimBytes (dp_g k),
       TrimBytes (dp_y k)] in Inr (Base64WSEncode (take KEY_HASH_SIZE fullhash)))"

definition DsaPublicKey_init :: "bytes \<Rightarrow> bytes \<Rightarrow> bytes \<Rightarrow> bytes \<Rightarrow> dsa_obj \<Rightarrow> int \<Rightarrow> dsa_public" where
  "DsaPublicKey_init p q g y key sz = \<lparr>dp_p = p, dp_q = q, dp_g = g, dp_y = y, dp_key = key,
     dp_size = SetSize DSA_PUB (default_size DSA_PUB) sz\<rparr>"

definition DsaPublicKey_Read :: "string \<Rightarrow> exn + dsa_public" where
  "DsaPublicKey_Read key = ebind (json_loads key) (\<lambda>dsa.
     ebind (get_bytes ''y'' dsa) (\<lambda>y. ebind (get_bytes ''p'' dsa) (\<lambda>p.
     ebind (get_bytes ''g'' dsa) (\<lambda>g. ebind (get_bytes ''q'' dsa) (\<lambda>q.
     let pubkey = \<lparr>dsa_y = BytesToLong y, dsa_g = BytesToLong g, dsa_p = BytesToLong p,
                    dsa_q = BytesToLong q, dsa_x = None\<rparr>
     in ebind (get_int ''size'' dsa) (\<lambda>sz. Inr (DsaPublicKey_init p q g y pubkey sz)))))))"

definition MakeDsaSig :: "crypto \<Rightarrow> int \<Rightarrow> int \<Rightarrow> exn + bytes" where
  "MakeDsaSig L r s = der_encode L (ASeq [AInt r, AInt s])"

text \<open>Components of a sequence, and the integer of a component.\<close>

fun asn1_components :: "asn1 \<Rightarrow> exn + asn1 list" where
  "asn1_components (ASeq vs) = Inr vs"
| "asn1_components _ = Inl OutsideModel"

fun asn1_long :: "asn1 \<Rightarrow> exn + int" where
  "asn1_long (AInt n) = Inr n"
| "asn1_long _ = Inl OutsideModel"

definition ParseDsaSig :: "crypto \<Rightarrow> bytes \<Rightarrow> exn + int \<times> int" where
  "ParseDsaSig L sig = ebind (der_decode L sig) (\<lambda>v. ebind (asn1_components v) (\<lambda>sq.
     if length sq \<noteq> 2 then Inl (KeyczarError ''Illegal DSA signature.'')
     else ebind (asn1_long (sq ! 0)) (\<lambda>r. ebind (asn1_long (sq ! 1)) (\<lambda>s. Inr (r, s)))))"

definition dsa_pub_Verify :: "crypto \<Rightarrow> dsa_public \<Rightarrow> bytes \<Rightarrow> bytes \<Rightarrow> exn + bool" where
  "dsa_pub_Verify L k msg sig =
     (case ebind (ParseDsaSig L sig) (\<lambda>rs. dsa_verify L (dp_key k) (Hash [msg]) rs) of
        Inl e \<Rightarrow> (if is_keyczar_error e then Inr False else Inl e)
      | Inr b \<Rightarrow> Inr b)"

definition dsa_priv_json :: "dsa_private \<Rightarrow> exn + json" where
  "dsa_priv_json k = ebind (json_loads (dsa_pub_str (dk_public k))) (\<lambda>pub.
     Inr (JObj [(''publicKey'', pub), (''x'', JStr (Base64WSEncode (dk_x k))), (''size'', JInt (dk_size k))]))"

definition dsa_priv_str :: "dsa_private \<Rightarrow> exn + string" where
  "dsa_priv_str k = ebind (dsa_priv_json k) (\<lambda>j. Inr (json_dumps j))"

definition dsa_priv_Hash :: "dsa_private \<Rightarrow> exn + string" where
  "dsa_priv_Hash k = dsa_pub_Hash (dk_public k)"

definition DsaPrivateKey_of :: "dsa_obj \<Rightarrow> int \<Rightarrow> exn + dsa_private" where
  "DsaPrivateKey_of key sz = (case dsa_x key of
     None \<Rightarrow> Inl PyAttributeError
   | Some x \<Rightarrow>
       (let pubkey = key\<lparr>dsa_x := None\<rparr>;
            pub = DsaPublicKey_init (padded_bytes (dsa_p key)) (padded_bytes (dsa_q key))
              (padded_bytes (dsa_g key)) (padded_bytes (dsa_y key)) pubkey sz
        in Inr \<lparr>dk_x = padded_bytes x, dk_public = pub, dk_key = key,
             dk_size = SetSize DSA_PRIV (default_size DSA_PRIV) sz\<rparr>))"

definition DsaPrivateKey_Generate :: "crypto \<Rightarrow> int \<Rightarrow> (entropy, exn, dsa_private) st" where
  "DsaPrivateKey_Generate L sz = sbind (dsa_generate L sz) (\<lambda>key. slift (DsaPrivateKey_of key sz))"

definition DsaPrivateKey_Read :: "string \<Rightarrow> exn + dsa_private" where
  "DsaPrivateKey_Read key = ebind (json_loads key) (\<lambda>dsa.
     ebind (json_get ''publicKey'' dsa) (\<lambda>pk.
     ebind (DsaPublicKey_Read (json_dumps pk)) (\<lambda>pub.
     ebind (get_bytes ''x'' dsa) (\<lambda>x.
     let k = \<lparr>dsa_y = BytesToLong (dp_y pub), dsa_g = BytesToLong (dp_g pub), dsa_p = BytesToLong (dp_p pub),
               dsa_q = BytesToLong (dp_q pub), dsa_x = Some (BytesToLong x)\<rparr>
     in ebind (get_int ''size'' dsa) (\<lambda>sz.
        Inr \<lparr>dk_x = x, dk_public = pub, dk_key = k,
             dk_size = SetSize DSA_PRIV (default_size DSA_PRIV) sz\<rparr>)))))"

definition dsa_Sign :: "crypto \<Rightarrow> dsa_private \<Rightarrow> bytes \<Rightarrow> (entropy, exn, bytes) st" where
  "dsa_Sign L k msg = sbind (rand_int L 2 (dsa_q (dk_key k) - 1)) (\<lambda>n. slift (
     ebind (dsa_sign L (dk_key k) (Hash [msg]) n) (\<lambda>(r, s). MakeDsaSig L r s)))"

definition dsa_priv_Verify :: "crypto \<Rightarrow> dsa_private \<Rightarrow> bytes \<Rightarrow> bytes \<Rightarrow> exn + bool" where
  "dsa_priv_Verify L k msg sig = dsa_pub_Verify L (dk_public k) msg sig"

subsection \<open>OAEP\<close>

lemma lstrip_delimited:
  "lstrip_char CHR 0x00 (replicate m CHR 0x00 @ CHR 0x01 # msg) = CHR 0x01 # msg"
  by (induction m) (simp_all add: lstrip_char_def)

text \<open>
  The encoded message, one byte shorter than the modulus after its leading zero, decodes to the
  message whatever number of leading zeros got lost, unless so much is lost that the code
  refuses the length.
\<close>

lemma rsa_Decode_Encode:
  assumes k: "num_bytes L (rsa_n key) = Inr (int k)" and len: "length msg + 42 \<le> k"
    and label: "int (length label) < 2 ^ 61" and small: "int k < 2 ^ 32"
  shows "\<exists>em. rsa_Encode L key msg label r = (Inr (CHR 0x00 # em), \<lambda>i. r (i + 20)) \<and> length em = k - 1
     \<and> (\<forall>j e0. em = replicate j CHR 0x00 @ e0 \<longrightarrow> 42 \<le> length e0 \<longrightarrow> rsa_Decode L key e0 label = Inr msg)"
proof -
  define seed where "seed = map r [0..<20]"
  define db where "db = Hash [label] @ replicate (k - length msg - 42) CHR 0x00 @ CHR 0x01 # msg"
  have ldb: "length db = k - 21" using len by (simp add: db_def)
  have "int (k - 21) \<le> 2 ^ 32 * 20" using small by simp
  then obtain dm where dm: "MGF seed (int (k - 21)) = Inr dm" "length dm = k - 21"
    using MGF_Inr by blast
  define mdb where "mdb = Xor db dm"
  obtain sm where sm: "MGF mdb 20 = Inr sm" "length sm = 20"
    using MGF_Inr [of 20 mdb] by auto
  define ms where "ms = Xor seed sm"
  have lens: "length seed = 20" "length mdb = k - 21" "length ms = 20"
    by (simp_all add: seed_def mdb_def ms_def length_Xor ldb dm sm)
  have enc: "rsa_Encode L key msg label r = (Inr (CHR 0x00 # (ms @ mdb)), \<lambda>i. r (i + 20))"
  proof -
    have a: "\<not> int (length label) \<ge> 2 ^ 61" "\<not> int (length msg) > int k - 2 * 20 - 2"
      "\<not> int k - int (length msg) - 2 * 20 - 2 < 0"
      using label len by simp_all
    have b: "nat (int k - int (length msg) - 2 * 20 - 2) = k - length msg - 42"
      "int k - 20 - 1 = int (k - 21)" using len by simp_all
    have rnd: "RandBytes 20 r = (Inr seed, \<lambda>i. r (i + 20))" by (simp add: seed_def)
    show ?thesis
      unfolding rsa_Encode_def Let_def k
      by (simp only: HLEN_20 of_nat_numeral a if_False st_defs sum.case prod.case rnd b append_Cons append_Nil
          db_def [symmetric] dm(1) ebind_simps mdb_def [symmetric] sm(1) ms_def [symmetric])
  qed
  have dec: "rsa_Decode L key e0 label = Inr msg"
    if split: "ms @ mdb = replicate j CHR 0x00 @ e0" and l: "42 \<le> length e0" for j e0
  proof -
    have le: "j + length e0 = k - 1"
      using arg_cong [OF split, of length] lens len by simp
    define diff where "diff = int k - int (length e0)"
    have "(if diff > 1 then replicate (nat (diff - 1)) CHR 0x00 @ e0 else e0) = ms @ mdb"
    proof -
      have "diff = int j + 1" using le len by (simp add: diff_def)
      then show ?thesis using split by auto
    qed
    moreover have "\<not> int (length label) \<ge> 2 ^ 61" "\<not> length e0 < 2 * HLEN + 2"
      using label l by simp_all
    moreover have "take HLEN (ms @ mdb) = ms" "drop HLEN (ms @ mdb) = mdb" using lens by simp_all
    moreover have "Xor ms sm = seed" "Xor mdb dm = db"
      using Xor_cancel [of seed sm] Xor_cancel [of db dm] lens sm(2) dm(2) ldb by (simp_all add: ms_def mdb_def)
    moreover have "take HLEN db = Hash [label]" "lstrip_char CHR 0x00 (drop HLEN db) = CHR 0x01 # msg"
      by (simp_all add: db_def lstrip_delimited)
    ultimately show ?thesis
      unfolding rsa_Decode_def Let_def
      by (simp only: if_False k ebind_simps diff_def [symmetric] HLEN_20 of_nat_numeral sm(1) lens(2) dm(1)
          list.distinct list.sel drop_Suc_Cons drop_0 One_nat_def simp_thms)
  qed
  show ?thesis using enc dec lens len by (intro exI [of _ "ms @ mdb"]) auto
qed

lemma rsa_pub_Header_ok:
  obtains h where "rsa_pub_Hash k = Inr (Base64WSEncode h)" "rsa_pub_Header k = Inr (CHR 0x00 # h)" "length h = 4"
  by (rule that [of "take 4 (PrefixHash [TrimBytes (rp_modulus k), TrimBytes (rp_publicExponent k)])"])
     (simp_all add: rsa_pub_Hash_def rsa_pub_Header_def Key_Header_def Let_def)

text \<open>Encryption succeeds for what fits, when the library encrypts, and decryption inverts it.\<close>

lemma rsa_Decrypt_Encrypt:
  assumes pair: "rsa_pair L (rk_key prv) (rp_key pub)" and same: "rsa_n (rk_key prv) = rsa_n (rp_key pub)"
    and k: "num_bytes L (rsa_n (rp_key pub)) = Inr (int k)" and len: "length msg + 42 \<le> k" and small: "int k < 2 ^ 32"
    and n: "256 ^ (k - 1) \<le> rsa_n (rp_key pub)"
    and enc: "rsa_pub_Encrypt L pub msg r = (Inr ct, r')"
  shows "rsa_Decrypt L prv ct = Inr msg
     \<or> (\<exists>n < 42. rsa_Decrypt L prv ct = Inl (KeyczarError
          (''OAEP Decoding Error - encoded_message is too small: '' @ str_nat n)))"
proof -
  obtain em where em: "rsa_Encode L (rp_key pub) msg [] r = (Inr (CHR 0x00 # em), \<lambda>i. r (i + 20))"
    "length em = k - 1"
    and dec: "\<And>j e0. em = replicate j CHR 0x00 @ e0 \<Longrightarrow> 42 \<le> length e0 \<Longrightarrow> rsa_Decode L (rp_key pub) e0 [] = Inr msg"
    using rsa_Decode_Encode [OF k len _ small, of "[]" r] by auto
  obtain h where h: "rsa_pub_Header pub = Inr (CHR 0x00 # h)" "length h = 4"
    by (rule rsa_pub_Header_ok)
  obtain c where c: "rsa_encrypt L (rp_key pub) (CHR 0x00 # em) = Inr c" "ct = (CHR 0x00 # h) @ c"
    using enc em(1) h(1) by (auto simp: rsa_pub_Encrypt_def sbind_def slift_def ebind_Inr_conv)
  have "BytesToLong (CHR 0x00 # em) = BytesToLong em" using BytesToLong_zeros [of 1 em] by simp
  also have "\<dots> < 256 ^ (k - 1)" using BytesToLong_bounds [of em] em(2) by simp
  also have "\<dots> \<le> rsa_n (rp_key pub)" by (rule n)
  finally have "rsa_decrypt L (rk_key prv) c = Inr (lstrip_char CHR 0x00 (CHR 0x00 # em))"
    using pair c(1) unfolding rsa_pair_def by blast
  then have d: "rsa_Decrypt L prv ct = rsa_Decode L (rk_key prv) (lstrip_char CHR 0x00 em) []"
    using c(2) h(2) by (simp add: rsa_Decrypt_def lstrip_char_def)
  have same_dec: "rsa_Decode L (rk_key prv) e [] = rsa_Decode L (rp_key pub) e []" for e
    by (simp add: rsa_Decode_def same)
  show ?thesis
  proof (cases "42 \<le> length (lstrip_char CHR 0x00 em)")
    case True
    then show ?thesis using dec lstrip_split [of em "CHR 0x00"] d same_dec by metis
  next
    case False
    then show ?thesis
      by (intro disjI2 exI [of _ "length (lstrip_char CHR 0x00 em)"]) (simp add: d rsa_Decode_def)
  qed
qed

lemma rsa_Encrypt_ok:
  assumes k: "num_bytes L (rsa_n (rp_key pub)) = Inr (int k)" and len: "length msg + 42 \<le> k" and small: "int k < 2 ^ 32"
    and lib: "\<And>m. length m = k \<Longrightarrow> \<exists>c. rsa_encrypt L (rp_key pub) m = Inr c"
  shows "\<exists>ct. rsa_pub_Encrypt L pub msg r = (Inr ct, \<lambda>i. r (i + 20))"
proof -
  obtain em where em: "rsa_Encode L (rp_key pub) msg [] r = (Inr (CHR 0x00 # em), \<lambda>i. r (i + 20))"
    "length em = k - 1"
    using rsa_Decode_Encode [OF k len _ small, of "[]" r] by auto
  obtain h where h: "rsa_pub_Header pub = Inr (CHR 0x00 # h)" by (rule rsa_pub_Header_ok)
  have "length (CHR 0x00 # em) = k" using em(2) len by simp
  then obtain c where "rsa_encrypt L (rp_key pub) (CHR 0x00 # em) = Inr c" using lib by blast
  with em(1) h show ?thesis by (simp add: rsa_pub_Encrypt_def sbind_def slift_def)
qed

lemma rsa_Encode_too_long:
  assumes "num_bytes L (rsa_n key) = Inr (int k)" and "k < length msg + 42" and "int (length label) < 2 ^ 61"
  shows "rsa_Encode L key msg label r = (Inl (KeyczarError ''Message too long to OAEP encode.''), r)"
  using assms by (simp add: rsa_Encode_def st_defs)

subsection \<open>Signatures\<close>

lemma rsa_Verify_Sign:
  assumes pair: "rsa_pair L (rk_key prv) (rp_key pub)" and sz: "rk_size prv = rp_size pub" "304 \<le> rp_size pub"
    and n: "256 ^ nat (rp_size pub div 8 - 1) \<le> rsa_n (rp_key pub)"
    and sig: "rsa_Sign L prv msg = Inr sig"
  shows "rsa_pub_Verify L pub msg sig = Inr True"
proof -
  let ?em = "MakeEmsaMessage msg (rp_size pub)"
  obtain s where s: "rsa_sign L (rk_key prv) ?em = Inr s"
    and sg: "sig = PadBytes (BigIntToBytes s) (rk_size prv div 8 - int (length (BigIntToBytes s)))"
    using sig sz(1) by (auto simp: rsa_Sign_def Let_def ebind_Inr_conv)
  have "length ?em = nat (rp_size pub div 8 - 1)"
    using length_MakeEmsaMessage [OF sz(2), of msg] by simp
  then have "BytesToLong ?em < rsa_n (rp_key pub)"
    using BytesToLong_bounds [of ?em] n by simp
  then have "0 \<le> s" and ver: "rsa_verify L (rp_key pub) ?em s = Inr True"
    using pair s unfolding rsa_pair_def by blast+
  then have "BytesToLong sig = s"
    by (simp add: sg BytesToLong_PadBytes BytesToLong_BigIntToBytes)
  with ver show ?thesis by (simp add: rsa_pub_Verify_def)
qed

lemma rsa_Sign_length:
  assumes sig: "rsa_Sign L prv msg = Inr sig"
    and bound: "\<And>s. rsa_sign L (rk_key prv) (MakeEmsaMessage msg (rk_size prv)) = Inr s \<Longrightarrow> s < 256 ^ nat (rk_size prv div 8)"
    and sz: "0 \<le> rk_size prv"
  shows "int (length sig) = rk_size prv div 8"
proof -
  obtain s where s: "rsa_sign L (rk_key prv) (MakeEmsaMessage msg (rk_size prv)) = Inr s"
    and sg: "sig = PadBytes (BigIntToBytes s) (rk_size prv div 8 - int (length (BigIntToBytes s)))"
    using sig by (auto simp: rsa_Sign_def Let_def ebind_Inr_conv)
  have "length (BigIntToBytes s) \<le> nat (rk_size prv div 8)"
    using bound [OF s] by (rule length_BigIntToBytes)
  moreover have "0 \<le> rk_size prv div 8" using sz by simp
  ultimately have "int (length (BigIntToBytes s)) \<le> rk_size prv div 8" by linarith
  then show ?thesis by (simp add: sg length_PadBytes)
qed

text \<open>The number that is verified does not depend on leading zeros of the signature.\<close>

lemma rsa_Verify_zeros:
  "rsa_pub_Verify L k msg (replicate n CHR 0x00 @ sig) = rsa_pub_Verify L k msg sig"
  by (simp add: rsa_pub_Verify_def BytesToLong_zeros)

lemma ParseDsaSig_Make:
  assumes "der_laws L" and "MakeDsaSig L r s = Inr sig"
  shows "ParseDsaSig L sig = Inr (r, s)"
  using assms by (auto simp: MakeDsaSig_def ParseDsaSig_def der_laws_def)

lemma dsa_Verify_Sign:
  assumes "der_laws L" and "dsa_pair L (dk_key prv) (dp_key pub)" and "dsa_Sign L prv msg r = (Inr sig, r')"
  shows "dsa_pub_Verify L pub msg sig = Inr True"
proof -
  obtain x y n where "dsa_sign L (dk_key prv) (Hash [msg]) n = Inr (x, y)" and sig: "MakeDsaSig L x y = Inr sig"
    using assms(3) by (auto simp: dsa_Sign_def sbind_def slift_def ebind_Inr_conv split: sum.splits prod.splits)
  then have "dsa_verify L (dp_key pub) (Hash [msg]) (x, y) = Inr True"
    using assms(2) unfolding dsa_pair_def by blast
  then show ?thesis using ParseDsaSig_Make [OF assms(1) sig] by (simp add: dsa_pub_Verify_def)
qed

subsection \<open>Keys read back\<close>

lemma SetSize_valid [simp]: "IsValidSize t n \<Longrightarrow> SetSize t m n = n"
  by (simp add: SetSize_def)

lemma json_get_obj [simp]:
  "json_get name (JObj ms) = (case map_of (rev ms) name of Some x \<Rightarrow> Inr x | None \<Rightarrow> Inl PyKeyError)"
  by (simp add: json_get_def)

lemmas json_read_simps = get_str_def get_int_def get_bytes_def json_loads_dumps

lemma hmac_Read_str:
  "IsValidSize HMAC_SHA1 (hmac_size k) \<Longrightarrow> HmacKey_Read (hmac_str k) = Inr k"
  by (simp add: HmacKey_Read_def hmac_str_def hmac_json_def json_read_simps HmacKey_init_def)

lemma aes_Read_str:
  assumes "IsValidSize AES (aes_size k)" and "IsValidSize HMAC_SHA1 (hmac_size (aes_hmac_key k))"
  shows "ebind (aes_str k) AesKey_Read = Inr k"
  using assms get_names(4) [of CBC]
  by (simp add: AesKey_Read_def aes_str_def aes_json_def hmac_str_def hmac_json_def json_read_simps
      HmacKey_init_def AesKey_init_def)

definition rsa_pub_ok :: "rsa_public \<Rightarrow> bool" where
  "rsa_pub_ok k \<longleftrightarrow> IsValidSize RSA_PUB (rp_size k) \<and>
     rp_key k = rsa_construct2 (BytesToLong (rp_modulus k)) (BytesToLong (rp_publicExponent k))"

definition rsa_priv_ok :: "rsa_private \<Rightarrow> bool" where
  "rsa_priv_ok k \<longleftrightarrow> IsValidSize RSA_PRIV (rk_size k) \<and> rsa_pub_ok (rk_public k) \<and>
     rk_key k = rsa_construct6 (BytesToLong (rp_modulus (rk_public k)))
       (BytesToLong (rp_publicExponent (rk_public k))) (BytesToLong (rk_privateExponent k))
       (BytesToLong (rk_primeQ k)) (BytesToLong (rk_primeP k)) (BytesToLong (rk_crtCoefficient k))"

definition dsa_pub_ok :: "dsa_public \<Rightarrow> bool" where
  "dsa_pub_ok k \<longleftrightarrow> IsValidSize DSA_PUB (dp_size k) \<and>
     dp_key k = \<lparr>dsa_y = BytesToLong (dp_y k), dsa_g = BytesToLong (dp_g k), dsa_p = BytesToLong (dp_p k),
       dsa_q = BytesToLong (dp_q k), dsa_x = None\<rparr>"

definition dsa_priv_ok :: "dsa_private \<Rightarrow> bool" where
  "dsa_priv_ok k \<longleftrightarrow> IsValidSize DSA_PRIV (dk_size k) \<and> dsa_pub_ok (dk_public k) \<and>
     dk_key k = (dp_key (dk_public k))\<lparr>dsa_x := Some (BytesToLong (dk_x k))\<rparr>"

lemma rsa_pub_Read_str: "rsa_pub_ok k \<Longrightarrow> RsaPublicKey_Read (rsa_pub_str k) = Inr k"
  by (simp add: RsaPublicKey_Read_def rsa_pub_str_def rsa_pub_json_def json_read_simps
      RsaPublicKey_init_def rsa_pub_ok_def)

lemma rsa_priv_Read_str:
  assumes "rsa_priv_ok k"
  shows "ebind (rsa_priv_str k) RsaPrivateKey_Read = Inr k"
proof -
  have pub: "RsaPublicKey_Read (json_dumps (rsa_pub_json (rk_public k))) = Inr (rk_public k)"
    using rsa_pub_Read_str [of "rk_public k"] assms by (simp add: rsa_pub_str_def rsa_priv_ok_def)
  have "json_plain (rsa_pub_json (rk_public k))" by (simp add: rsa_pub_json_def)
  with pub assms show ?thesis
    by (simp add: RsaPrivateKey_Read_def rsa_priv_str_def rsa_priv_json_def rsa_pub_str_def
        json_read_simps rsa_priv_ok_def)
qed

lemma dsa_pub_Read_str: "dsa_pub_ok k \<Longrightarrow> DsaPublicKey_Read (dsa_pub_str k) = Inr k"
  by (simp add: DsaPublicKey_Read_def dsa_pub_str_def dsa_pub_json_def json_read_simps
      DsaPublicKey_init_def dsa_pub_ok_def)

lemma dsa_priv_Read_str:
  assumes "dsa_priv_ok k"
  shows "ebind (dsa_priv_str k) DsaPrivateKey_Read = Inr k"
proof -
  have pub: "DsaPublicKey_Read (json_dumps (dsa_pub_json (dk_public k))) = Inr (dk_public k)"
    using dsa_pub_Read_str [of "dk_public k"] assms by (simp add: dsa_pub_str_def dsa_priv_ok_def)
  have "json_plain (dsa_pub_json (dk_public k))" by (simp add: dsa_pub_json_def)
  with pub assms show ?thesis
    by (simp add: DsaPrivateKey_Read_def dsa_priv_str_def dsa_priv_json_def dsa_pub_str_def
        json_read_simps dsa_priv_ok_def dsa_pub_ok_def)
qed

text \<open>Keys made from PyCrypto's objects are of that kind.\<close>

lemma BytesToLong_padded: "0 \<le> n \<Longrightarrow> BytesToLong (padded_bytes n) = n"
  by (simp add: padded_bytes_def BytesToLong_PadBytes BytesToLong_BigIntToBytes)

lemma RsaPrivateKey_of_ok:
  assumes "RsaPrivateKey_of key sz = Inr k" and "rsa_priv key = Some (d, p, q, u)"
    and "0 \<le> rsa_n key" "0 \<le> rsa_e key" "0 \<le> d" "0 \<le> p" "0 \<le> q" "0 \<le> u"
    and "IsValidSize RSA_PRIV sz"
  shows "rsa_priv_ok k" and "rk_key k = key" and "rk_size k = sz"
proof -
  have v: "IsValidSize RSA_PUB sz" using assms(9) by (simp add: IsValidSize_def)
  have k: "k = \<lparr>rk_privateExponent = padded_bytes d, rk_primeP = padded_bytes q, rk_primeQ = padded_bytes p,
      rk_primeExponentP = padded_bytes (d mod (q - 1)), rk_primeExponentQ = padded_bytes (d mod (p - 1)),
      rk_crtCoefficient = padded_bytes u,
      rk_public = \<lparr>rp_modulus = padded_bytes (rsa_n key), rp_publicExponent = padded_bytes (rsa_e key),
        rp_key = key\<lparr>rsa_priv := None\<rparr>, rp_size = sz\<rparr>, rk_key = key, rk_size = sz\<rparr>"
    using assms(1,2,9) v by (simp add: RsaPrivateKey_of_def RsaPublicKey_init_def Let_def)
  show "rk_key k = key" "rk_size k = sz" by (simp_all add: k)
  show "rsa_priv_ok k"
    using assms v by (cases key)
      (simp add: k rsa_priv_ok_def rsa_pub_ok_def rsa_construct2_def rsa_construct6_def BytesToLong_padded)
qed

lemma DsaPrivateKey_of_ok:
  assumes "DsaPrivateKey_of key sz = Inr k" and "dsa_x key = Some x"
    and "0 \<le> dsa_y key" "0 \<le> dsa_g key" "0 \<le> dsa_p key" "0 \<le> dsa_q key" "0 \<le> x"
    and "IsValidSize DSA_PRIV sz"
  shows "dsa_priv_ok k" and "dk_key k = key" and "dk_size k = sz"
proof -
  have v: "IsValidSize DSA_PUB sz" using assms(8) by (simp add: IsValidSize_def)
  have k: "k = \<lparr>dk_x = padded_bytes x, dk_public = \<lparr>dp_p = padded_bytes (dsa_p key), dp_q = padded_bytes (dsa_q key),
      dp_g = padded_bytes (dsa_g key), dp_y = padded_bytes (dsa_y key), dp_key = key\<lparr>dsa_x := None\<rparr>,
      dp_size = sz\<rparr>, dk_key = key, dk_size = sz\<rparr>"
    using assms(1,2,8) v by (simp add: DsaPrivateKey_of_def DsaPublicKey_init_def Let_def)
  show "dk_key k = key" "dk_size k = sz" by (simp_all add: k)
  show "dsa_priv_ok k"
    using assms v by (cases key) (simp add: k dsa_priv_ok_def dsa_pub_ok_def BytesToLong_padded)
qed

end
