(* ===== verification/Keys.thy ===== *)
theory Keys
  imports AsymmetricKeys
begin

text \<open>
  \<open>python/src/keyczar/keys.py\<close>: the key classes taken together. A key is one of the six classes;
  a method a class does not have is an \<open>AttributeError\<close>. \<open>GenKey\<close> and \<open>ReadKey\<close> dispatch on the
  key type.
\<close>

datatype key =
    AesKey aes_key
  | HmacKey hmac_key
  | DsaPrivateKey dsa_private
  | DsaPublicKey dsa_public
  | RsaPrivateKey rsa_private
  | RsaPublicKey rsa_public

fun key_type_of :: "key \<Rightarrow> key_type" where
  "key_type_of (AesKey _) = AES"
| "key_type_of (HmacKey _) = HMAC_SHA1"
| "key_type_of (DsaPrivateKey _) = DSA_PRIV"
| "key_type_of (DsaPublicKey _) = DSA_PUB"
| "key_type_of (RsaPrivateKey _) = RSA_PRIV"
| "key_type_of (RsaPublicKey _) = RSA_PUB"

fun key_size :: "key \<Rightarrow> int" where
  "key_size (AesKey k) = aes_size k"
| "key_size (HmacKey k) = hmac_size k"
| "key_size (DsaPrivateKey k) = dk_size k"
| "key_size (DsaPublicKey k) = dp_size k"
| "key_size (RsaPrivateKey k) = rk_size k"
| "key_size (RsaPublicKey k) = rp_size k"

text \<open>\<open>_GetKeyString\<close>: abstract in \<open>Key\<close>, where it returns nothing, defined for symmetric keys.\<close>

fun key_string :: "key \<Rightarrow> string option" where
  "key_string (AesKey k) = Some (aes_key_string k)"
| "key_string (HmacKey k) = Some (hmac_key_string k)"
| "key_string _ = None"

definition key_eq :: "key \<Rightarrow> key \<Rightarrow> bool" where
  "key_eq k other \<longleftrightarrow> key_type_of k = key_type_of other \<and> key_size k = key_size other
     \<and> key_string k = key_string other"

fun key_hash_id :: "key \<Rightarrow> exn + string" where
  "key_hash_id (AesKey k) = aes_Hash k"
| "key_hash_id (HmacKey k) = hmac_Hash k"
| "key_hash_id (DsaPrivateKey k) = dsa_priv_Hash k"
| "key_hash_id (DsaPublicKey k) = dsa_pub_Hash k"
| "key_hash_id (RsaPrivateKey k) = rsa_priv_Hash k"
| "key_hash_id (RsaPublicKey k) = rsa_pub_Hash k"

definition key_Header :: "key \<Rightarrow> exn + bytes" where
  "key_Header k = Key_Header (key_hash_id k)"

fun key_str :: "key \<Rightarrow> exn + string" where
  "key_str (AesKey k) = aes_str k"
| "key_str (HmacKey k) = Inr (hmac_str k)"
| "key_str (DsaPrivateKey k) = dsa_priv_str k"
| "key_str (DsaPublicKey k) = Inr (dsa_pub_str k)"
| "key_str (RsaPrivateKey k) = rsa_priv_str k"
| "key_str (RsaPublicKey k) = Inr (rsa_pub_str k)"

fun key_public :: "key \<Rightarrow> exn + key" where
  "key_public (DsaPrivateKey k) = Inr (DsaPublicKey (dk_public k))"
| "key_public (RsaPrivateKey k) = Inr (RsaPublicKey (rk_public k))"
| "key_public _ = Inl PyAttributeError"

fun key_Encrypt :: "crypto \<Rightarrow> key \<Rightarrow> bytes \<Rightarrow> (entropy, exn, bytes) st" where
  "key_Encrypt L (AesKey k) data = aes_Encrypt L k data"
| "key_Encrypt L (RsaPrivateKey k) data = rsa_priv_Encrypt L k data"
| "key_Encrypt L (RsaPublicKey k) data = rsa_pub_Encrypt L k data"
| "key_Encrypt L _ data = sraise PyAttributeError"

fun key_Decrypt :: "crypto \<Rightarrow> key \<Rightarrow> bytes \<Rightarrow> exn + bytes" where
  "key_Decrypt L (AesKey k) data = aes_Decrypt L k data"
| "key_Decrypt L (RsaPrivateKey k) data = rsa_Decrypt L k data"
| "key_Decrypt L _ data = Inl PyAttributeError"

fun key_Sign :: "crypto \<Rightarrow> key \<Rightarrow> bytes \<Rightarrow> (entropy, exn, bytes) st" where
  "key_Sign L (HmacKey k) msg = slift (hmac_Sign k msg)"
| "key_Sign L (RsaPrivateKey k) msg = slift (rsa_Sign L k msg)"
| "key_Sign L (DsaPrivateKey k) msg = dsa_Sign L k msg"
| "key_Sign L _ msg = sraise PyAttributeError"

fun key_Verify :: "crypto \<Rightarrow> key \<Rightarrow> bytes \<Rightarrow> bytes \<Rightarrow> exn + bool" where
  "key_Verify L (HmacKey k) msg sig = hmac_Verify k msg sig"
| "key_Verify L (DsaPrivateKey k) msg sig = dsa_priv_Verify L k msg sig"
| "key_Verify L (DsaPublicKey k) msg sig = dsa_pub_Verify L k msg sig"
| "key_Verify L (RsaPrivateKey k) msg sig = rsa_priv_Verify L k msg sig"
| "key_Verify L (RsaPublicKey k) msg sig = rsa_pub_Verify L k msg sig"
| "key_Verify L (AesKey k) msg sig = Inl PyAttributeError"

subsection \<open>GenKey and ReadKey\<close>

definition stmap :: "('a \<Rightarrow> 'b) \<Rightarrow> ('s, 'e, 'a) st \<Rightarrow> ('s, 'e, 'b) st" where
  "stmap f m = sbind m (\<lambda>x. sret (f x))"

fun Generate :: "crypto \<Rightarrow> key_type \<Rightarrow> int \<Rightarrow> (entropy, exn, key) st" where
  "Generate L AES sz = stmap AesKey (AesKey_Generate sz)"
| "Generate L HMAC_SHA1 sz = stmap HmacKey (HmacKey_Generate sz)"
| "Generate L DSA_PRIV sz = stmap DsaPrivateKey (DsaPrivateKey_Generate L sz)"
| "Generate L RSA_PRIV sz = stmap RsaPrivateKey (RsaPrivateKey_Generate L sz)"
| "Generate L _ sz = sraise PyKeyError"

text \<open>The \<open>except KeyError\<close> covers the look-up of the class and the call.\<close>

definition GenKey :: "crypto \<Rightarrow> key_type \<Rightarrow> int option \<Rightarrow> (entropy, exn, key) st" where
  "GenKey L key_type size0 = (\<lambda>r.
     let sz = (case size0 of None \<Rightarrow> default_size key_type | Some n \<Rightarrow> n) in
     if \<not> IsValidSize key_type sz
     then (Inl (KeyczarError (''Unsupported key size '' @ str_int sz @ '' bits.'')), r)
     else (case Generate L key_type sz r of
         (Inl e, r') \<Rightarrow>
           (if e = PyKeyError
            then (Inl (KeyczarError (if key_type = DSA_PUB \<or> key_type = RSA_PUB
                 then ''Public keys of key_type '' @ type_name key_type @ '' must be exported from private keys.''
                 else ''Unsupported key key_type: '' @ type_name key_type)), r')
            else (Inl e, r'))
       | (Inr k, r') \<Rightarrow> (Inr k, r')))"

fun Read_class :: "key_type \<Rightarrow> string \<Rightarrow> exn + key" where
  "Read_class AES s = ebind (AesKey_Read s) (\<lambda>k. Inr (AesKey k))"
| "Read_class HMAC_SHA1 s = ebind (HmacKey_Read s) (\<lambda>k. Inr (HmacKey k))"
| "Read_class DSA_PRIV s = ebind (DsaPrivateKey_Read s) (\<lambda>k. Inr (DsaPrivateKey k))"
| "Read_class RSA_PRIV s = ebind (RsaPrivateKey_Read s) (\<lambda>k. Inr (RsaPrivateKey k))"
| "Read_class DSA_PUB s = ebind (DsaPublicKey_Read s) (\<lambda>k. Inr (DsaPublicKey k))"
| "Read_class RSA_PUB s = ebind (RsaPublicKey_Read s) (\<lambda>k. Inr (RsaPublicKey k))"

text \<open>
  Here too the call is inside the \<open>try\<close>, so a member missing from the JSON text is reported as
  an unsupported key type.
\<close>

definition ReadKey :: "key_type \<Rightarrow> string \<Rightarrow> exn + key" where
  "ReadKey key_type key = (case Read_class key_type key of
       Inl e \<Rightarrow> (if e = PyKeyError
                 then Inl (KeyczarError (''Unsupported key key_type: '' @ type_name key_type)) else Inl e)
     | Inr k \<Rightarrow> Inr k)"

subsection \<open>Properties of all classes\<close>

fun key_ok :: "key \<Rightarrow> bool" where
  "key_ok (AesKey k) = (IsValidSize AES (aes_size k) \<and> IsValidSize HMAC_SHA1 (hmac_size (aes_hmac_key k)))"
| "key_ok (HmacKey k) = IsValidSize HMAC_SHA1 (hmac_size k)"
| "key_ok (DsaPrivateKey k) = dsa_priv_ok k"
| "key_ok (DsaPublicKey k) = dsa_pub_ok k"
| "key_ok (RsaPrivateKey k) = rsa_priv_ok k"
| "key_ok (RsaPublicKey k) = rsa_pub_ok k"

lemma ReadKey_str: "key_ok k \<Longrightarrow> ebind (key_str k) (ReadKey (key_type_of k)) = Inr k"
proof (cases k)
  case (AesKey a)
  assume "key_ok k"
  with AesKey have "ebind (aes_str a) AesKey_Read = Inr a" by (simp add: aes_Read_str)
  with AesKey show ?thesis by (auto simp: ebind_Inr_conv ReadKey_def)
next
  case (DsaPrivateKey a)
  assume "key_ok k"
  with DsaPrivateKey have "ebind (dsa_priv_str a) DsaPrivateKey_Read = Inr a" by (simp add: dsa_priv_Read_str)
  with DsaPrivateKey show ?thesis by (auto simp: ebind_Inr_conv ReadKey_def)
next
  case (RsaPrivateKey a)
  assume "key_ok k"
  with RsaPrivateKey have "ebind (rsa_priv_str a) RsaPrivateKey_Read = Inr a" by (simp add: rsa_priv_Read_str)
  with RsaPrivateKey show ?thesis by (auto simp: ebind_Inr_conv ReadKey_def)
qed (simp_all add: ReadKey_def hmac_Read_str dsa_pub_Read_str rsa_pub_Read_str)

lemma ReadKey_no_KeyError: "ReadKey t s \<noteq> Inl PyKeyError"
  by (auto simp: ReadKey_def split: sum.splits)

text \<open>The keys a header names: the header is the version byte and the four bytes of the hash.\<close>

lemma key_Header_hash:
  assumes "key_hash_id k = Inr h" and "Base64WSDecode h = Inr b"
  shows "key_Header k = Inr (CHR 0x00 # b)"
  using assms by (simp add: key_Header_def Key_Header_def)

lemma hash_prefix_encodes:
  "length x = 20 \<Longrightarrow> \<exists>b. Base64WSEncode (take 4 x) = Base64WSEncode b \<and> length b = 4"
  by (rule exI [of _ "take 4 x"]) simp

lemma key_hash_encodes:
  assumes "key_hash_id k = Inr h"
  shows "\<exists>b. h = Base64WSEncode b \<and> length b = 4"
  using assms
  by (cases k) (auto simp: aes_Hash_def hmac_Hash_def dsa_priv_Hash_def dsa_pub_Hash_def rsa_priv_Hash_def
      rsa_pub_Hash_def Let_def ebind_Inr_conv intro!: hash_prefix_encodes)

lemma key_Header_shape:
  assumes "key_Header k = Inr hdr"
  shows "\<exists>b. hdr = CHR 0x00 # b \<and> length b = 4 \<and> key_hash_id k = Inr (Base64WSEncode b)"
proof -
  obtain h where h: "key_hash_id k = Inr h" using assms by (auto simp: key_Header_def Key_Header_def ebind_Inr_conv)
  then obtain b where b: "h = Base64WSEncode b" "length b = 4" using key_hash_encodes by blast
  then have "hdr = CHR 0x00 # b" using assms h by (simp add: key_Header_def Key_Header_def)
  with h b show ?thesis by blast
qed

text \<open>
  Equality of keys looks at a key string, which asymmetric keys do not have: any two of one type
  and size are equal.
\<close>

lemma key_eq_asymmetric:
  "key_string k = None \<Longrightarrow> key_type_of k = key_type_of k' \<Longrightarrow> key_size k = key_size k' \<Longrightarrow> key_eq k k'"
  by (cases k; cases k') (simp_all add: key_eq_def)

lemma GenKey_type:
  assumes "GenKey L t n r = (Inr k, r')"
  shows "key_type_of k = t"
proof -
  have "Generate L t sz r = (Inr k, r') \<Longrightarrow> key_type_of k = t" for sz
    by (cases t) (auto simp: stmap_def sbind_def sret_def sraise_def split: prod.splits sum.splits)
  with assms show ?thesis
    by (auto simp: GenKey_def Let_def split: if_splits prod.splits sum.splits)
qed

lemma GenKey_public:
  assumes "t = DSA_PUB \<or> t = RSA_PUB" and "IsValidSize t n"
  shows "GenKey L t (Some n) r = (Inl (KeyczarError (''Public keys of key_type '' @ type_name t
      @ '' must be exported from private keys.'')), r)"
  using assms by (auto simp: GenKey_def sraise_def)

lemma GenKey_bad_size:
  "\<not> IsValidSize t n \<Longrightarrow> GenKey L t (Some n) r = (Inl (KeyczarError (''Unsupported key size '' @ str_int n @ '' bits.'')), r)"
  by (simp add: GenKey_def)

end
