(* ===== verification/Files.thy ===== *)
theory Files
  imports KeyData Keys "HOL-Library.AList"
begin

text \<open>
  The file system as far as the library uses it, \<open>util.ReadFile\<close> and \<open>util.WriteFile\<close>, and the
  readers and writers of key sets: \<open>python/src/keyczar/readers.py\<close> and \<open>writers.py\<close>.
\<close>

subsection \<open>Files\<close>

text \<open>
  Files and directories by the path the program names them with; a path is not resolved.
  \<open>fs_opens\<close> says which paths the operating system lets the program open for writing; a write
  to a file that could be opened succeeds.
\<close>

record fs =
  fs_files :: "(string \<times> bytes) list"
  fs_dirs :: "string list"
  fs_opens :: "string \<Rightarrow> bool"

definition path_join :: "string \<Rightarrow> string \<Rightarrow> string" where
  "path_join a b = (if b \<noteq> [] \<and> hd b = CHR ''/'' then b
     else if a = [] \<or> last a = CHR ''/'' then a @ b else a @ ''/'' @ b)"

definition path_exists :: "fs \<Rightarrow> string \<Rightarrow> bool" where
  "path_exists f loc \<longleftrightarrow> loc \<in> set (fs_dirs f) \<or> loc \<in> fst ` set (fs_files f)"

definition ReadFile :: "fs \<Rightarrow> string \<Rightarrow> exn + bytes" where
  "ReadFile f loc = (case map_of (fs_files f) loc of
     Some d \<Rightarrow> Inr d | None \<Rightarrow> Inl (KeyczarError (''Unable to read file '' @ loc @ ''.'')))"

definition WriteFile :: "bytes \<Rightarrow> string \<Rightarrow> (fs, exn, unit) st" where
  "WriteFile data loc = (\<lambda>f.
     if fs_opens f loc \<and> loc \<notin> set (fs_dirs f)
     then (Inr (), f\<lparr>fs_files := AList.update loc data (fs_files f)\<rparr>)
     else (Inl (KeyczarError (''Unable to write to file '' @ loc @ ''.'')), f))"

definition os_remove :: "string \<Rightarrow> (fs, exn, unit) st" where
  "os_remove loc = (\<lambda>f.
     if loc \<in> fst ` set (fs_files f) then (Inr (), f\<lparr>fs_files := AList.delete loc (fs_files f)\<rparr>)
     else (Inl PyOSError, f))"

subsection \<open>Readers\<close>

text \<open>
  A reader is what the key set asks of it: the text of the metadata, the text of a key, and
  whether it is an \<open>EncryptedReader\<close>. Reading leaves the reader as it is.
\<close>

record reader =
  rd_GetMetadata :: "exn + string"
  rd_GetKey :: "int \<Rightarrow> exn + string"
  rd_encrypted :: bool

definition FileReader :: "fs \<Rightarrow> string \<Rightarrow> reader" where
  "FileReader f location = \<lparr>rd_GetMetadata = ReadFile f (path_join location ''meta''),
     rd_GetKey = (\<lambda>n. ReadFile f (path_join location (str_int n))),
     rd_encrypted = False\<rparr>"

definition FileReader_CreateReader :: "fs \<Rightarrow> string \<Rightarrow> reader option" where
  "FileReader_CreateReader f location =
     (if path_exists f location then Some (FileReader f location) else None)"

definition static_metadata :: "key_type \<Rightarrow> key_purpose \<Rightarrow> store \<times> key_metadata" where
  "static_metadata t p = (let h = [\<lparr>version_number = 1, status = PRIMARY, exportable = False\<rparr>]
     in (h, snd (kmd_AddVersion h 0 (KeyMetadata_init ''Imported'' p t False))))"

definition StaticKeyReader :: "key \<Rightarrow> key_purpose \<Rightarrow> reader" where
  "StaticKeyReader key p = (let (h, meta) = static_metadata (key_type_of key) p in
     \<lparr>rd_GetMetadata = KeyMetadata_str h meta, rd_GetKey = (\<lambda>n. key_str key),
      rd_encrypted = False\<rparr>)"

text \<open>The crypter of an encrypted reader is used through its \<open>Decrypt\<close> alone.\<close>

definition EncryptedReader :: "reader \<Rightarrow> (bytes \<Rightarrow> exn + bytes) \<Rightarrow> reader" where
  "EncryptedReader rd dec = \<lparr>rd_GetMetadata = rd_GetMetadata rd,
     rd_GetKey = (\<lambda>n. ebind (rd_GetKey rd n) dec), rd_encrypted = True\<rparr>"

text \<open>
  The subclasses of \<open>Reader\<close> in the order they were defined; only files handle a location. A
  plug-in found by \<open>ImportBackends\<close> would be asked as well; there is none in the repository.
\<close>

definition reader_classes :: "(fs \<Rightarrow> string \<Rightarrow> reader option) list" where
  "reader_classes = [FileReader_CreateReader, \<lambda>f loc. None, \<lambda>f loc. None, \<lambda>f loc. None]"

fun first_some :: "'a option list \<Rightarrow> 'a option" where
  "first_some [] = None"
| "first_some (Some x # xs) = Some x"
| "first_some (None # xs) = first_some xs"

definition CreateReader :: "fs \<Rightarrow> string \<Rightarrow> exn + reader" where
  "CreateReader f location = (case first_some (map (\<lambda>sc. sc f location) reader_classes) of
     Some r \<Rightarrow> Inr r
   | None \<Rightarrow> Inl (KeyczarError (''Unable to create a reader for '' @ location
       @ ''. Does the location exist?'')))"

subsection \<open>The mock reader\<close>

record mock_reader =
  mk_heap :: store
  mk_kmd :: key_metadata
  mk_pubkmd :: "(store \<times> key_metadata) option"   \<comment> \<open>with the version objects it refers to\<close>
  mk_keys :: "(int \<times> key) list"
  mk_pubkeys :: "(int \<times> key) list"

definition MockReader_init :: "string \<Rightarrow> key_purpose \<Rightarrow> key_type \<Rightarrow> bool \<Rightarrow> mock_reader" where
  "MockReader_init name p t enc = \<lparr>mk_heap = [], mk_kmd = KeyMetadata_init name p t enc,
     mk_pubkmd = None, mk_keys = [], mk_pubkeys = []\<rparr>"

definition mk_key :: "mock_reader \<Rightarrow> int \<Rightarrow> exn + key" where
  "mk_key m n = (case map_of (mk_keys m) n of Some k \<Rightarrow> Inr k | None \<Rightarrow> Inl PyKeyError)"

definition mk_GetKey :: "mock_reader \<Rightarrow> int \<Rightarrow> exn + string" where
  "mk_GetKey m n = (case ebind (mk_key m n) key_str of
     Inl e \<Rightarrow> (if e = PyKeyError then Inl (KeyczarError ''Unrecognized Version Number'') else Inl e)
   | Inr s \<Rightarrow> Inr s)"

definition MockReader :: "mock_reader \<Rightarrow> reader" where
  "MockReader m = \<lparr>rd_GetMetadata = KeyMetadata_str (mk_heap m) (mk_kmd m),
     rd_GetKey = mk_GetKey m, rd_encrypted = False\<rparr>"

definition mk_GetStatus :: "mock_reader \<Rightarrow> int \<Rightarrow> exn + key_status" where
  "mk_GetStatus m n = ebind (kmd_GetVersion n (mk_kmd m)) (\<lambda>r. Inr (status (mk_heap m ! r)))"

definition mk_SetKey :: "int \<Rightarrow> key \<Rightarrow> mock_reader \<Rightarrow> mock_reader" where
  "mk_SetKey n k m = m\<lparr>mk_keys := AList.update n k (mk_keys m)\<rparr>"

definition mk_SetPubKey :: "int \<Rightarrow> key \<Rightarrow> mock_reader \<Rightarrow> mock_reader" where
  "mk_SetPubKey n k m = m\<lparr>mk_pubkeys := AList.update n k (mk_pubkeys m)\<rparr>"

definition mk_AddKey :: "crypto \<Rightarrow> int \<Rightarrow> key_status \<Rightarrow> int option \<Rightarrow> (mock_reader \<times> entropy, exn, bool) st" where
  "mk_AddKey L n s sz = (\<lambda>(m, ent). case GenKey L (kmd_type (mk_kmd m)) sz ent of
     (Inl e, ent') \<Rightarrow> (Inl e, m, ent')
   | (Inr k, ent') \<Rightarrow>
       (let h = mk_heap m @ [\<lparr>version_number = n, status = s, exportable = False\<rparr>];
            (added, kmd) = kmd_AddVersion h (length (mk_heap m)) (mk_kmd m)
        in (Inr added, (mk_SetKey n k m)\<lparr>mk_heap := h, mk_kmd := kmd\<rparr>, ent')))"

definition mk_RemoveKey :: "int \<Rightarrow> (mock_reader, exn, unit) st" where
  "mk_RemoveKey n = (\<lambda>m. if n \<in> fst ` set (mk_keys m)
     then (Inr (), m\<lparr>mk_keys := AList.delete n (mk_keys m)\<rparr>) else (Inl PyKeyError, m))"

definition mk_ExistsVersion :: "mock_reader \<Rightarrow> int \<Rightarrow> bool" where
  "mk_ExistsVersion m n \<longleftrightarrow> n \<in> fst ` set (mk_keys m)"

definition mk_HasPubKey :: "mock_reader \<Rightarrow> int \<Rightarrow> exn + bool" where
  "mk_HasPubKey m n = ebind (mk_key m n) (\<lambda>priv.
     ebind (case map_of (mk_pubkeys m) n of Some k \<Rightarrow> Inr k | None \<Rightarrow> Inl PyKeyError) (\<lambda>pub.
     ebind (key_public priv) (\<lambda>p. Inr (key_eq p pub))))"

definition mk_GetKeySize :: "mock_reader \<Rightarrow> int \<Rightarrow> exn + int" where
  "mk_GetKeySize m n = ebind (mk_key m n) (\<lambda>k. Inr (key_size k))"

subsection \<open>Writers\<close>

text \<open>A \<open>FileWriter\<close> holds its location only. The encrypter is used through its \<open>Encrypt\<close>.\<close>

type_synonym encrypt_fun = "bytes \<Rightarrow> (entropy, exn, bytes) st"

definition FileWriter_WriteMetadata :: "string \<Rightarrow> exn + string \<Rightarrow> bool \<Rightarrow> (fs, exn, unit) st" where
  "FileWriter_WriteMetadata loc metadata overwrite = (\<lambda>f.
     let fname = path_join loc ''meta'' in
     if \<not> overwrite \<and> path_exists f fname
     then (Inl (KeyczarError (''File:'' @ fname @ '' already exists'')), f)
     else sbind (slift metadata) (\<lambda>s. WriteFile s fname) f)"

definition FileWriter_WriteKey :: "string \<Rightarrow> key \<Rightarrow> int \<Rightarrow> encrypt_fun option \<Rightarrow> (fs \<times> entropy, exn, unit) st" where
  "FileWriter_WriteKey loc key n encrypter = (\<lambda>(f, ent).
     case key_str key of
       Inl e \<Rightarrow> (Inl e, f, ent)
     | Inr s \<Rightarrow>
       (case (case encrypter of None \<Rightarrow> (Inr s, ent) | Some enc \<Rightarrow> enc s ent) of
          (Inl e, ent') \<Rightarrow> (Inl e, f, ent')
        | (Inr out, ent') \<Rightarrow>
          (case WriteFile out (path_join loc (str_int n)) f of
             (res, f') \<Rightarrow> (res, f', ent'))))"

definition FileWriter_Remove :: "string \<Rightarrow> int \<Rightarrow> (fs, exn, unit) st" where
  "FileWriter_Remove loc n = os_remove (path_join loc (str_int n))"

definition FileWriter_CreateWriter :: "fs \<Rightarrow> string \<Rightarrow> string option" where
  "FileWriter_CreateWriter f location = (if path_exists f location then Some location else None)"

text \<open>The writer for a location, named by that location.\<close>

definition CreateWriter :: "fs \<Rightarrow> string \<Rightarrow> exn + string" where
  "CreateWriter f location = (case FileWriter_CreateWriter f location of
     Some w \<Rightarrow> Inr w
   | None \<Rightarrow> Inl (KeyczarError (''Unable to create a writer for '' @ location
       @ ''. Does the location exist?'')))"

subsection \<open>What is written is what is read\<close>

lemma ReadFile_WriteFile:
  "WriteFile d loc f = (Inr (), f') \<Longrightarrow> ReadFile f' loc' = (if loc' = loc then Inr d else ReadFile f loc')"
  by (auto simp: WriteFile_def ReadFile_def update_conv split: if_splits)

lemma WriteFile_ok: "fs_opens f loc \<Longrightarrow> loc \<notin> set (fs_dirs f) \<Longrightarrow>
    \<exists>f'. WriteFile d loc f = (Inr (), f') \<and> fs_opens f' = fs_opens f \<and> fs_dirs f' = fs_dirs f"
  by (simp add: WriteFile_def)

lemma WriteFile_failed: "WriteFile d loc f = (Inl e, f') \<Longrightarrow> f' = f \<and> is_keyczar_error e"
  by (auto simp: WriteFile_def split: if_splits)

lemma ReadFile_os_remove:
  "os_remove loc f = (Inr (), f') \<Longrightarrow> ReadFile f' loc' =
     (if loc' = loc then Inl (KeyczarError (''Unable to read file '' @ loc @ ''.'')) else ReadFile f loc')"
  by (auto simp: os_remove_def ReadFile_def delete_conv split: if_splits)

lemma is_digit_slash: "\<not> is_digit CHR ''/''"
  by (simp add: is_digit_def of_char_def)

lemma str_int_hd: "hd (str_int n) \<noteq> CHR ''/''" and str_int_nonempty [simp]: "str_int n \<noteq> []"
proof -
  have "hd (str_nat k) \<noteq> CHR ''/''" for k
    using str_nat_digits [of k] is_digit_slash str_nat_nonempty [of k]
    by (metis list.pred_inject(2) list.collapse)
  then show "hd (str_int n) \<noteq> CHR ''/''" by (simp add: str_int_def)
  show "str_int n \<noteq> []" by (simp add: str_int_def)
qed

lemma str_int_inject: "str_int m = str_int n \<longleftrightarrow> m = n"
proof -
  have d: "str_nat k \<noteq> CHR ''-'' # s" for k s
  proof
    assume "str_nat k = CHR ''-'' # s"
    then have "is_digit CHR ''-''" using str_nat_digits [of k] by simp
    then show False by (simp add: is_digit_def of_char_def)
  qed
  show ?thesis
    using d d [THEN not_sym] by (auto simp: str_int_def str_nat_inject)
qed

lemma str_int_not_meta: "str_int n \<noteq> ''meta''"
proof
  assume a: "str_int n = ''meta''"
  have "\<not> is_digit CHR ''m''" by (simp add: is_digit_def of_char_def)
  then have "str_nat k \<noteq> ''meta''" for k using str_nat_digits [of k] by auto
  with a show False by (auto simp: str_int_def split: if_splits)
qed

lemma path_join_inject:
  assumes "hd b \<noteq> CHR ''/''" and "hd c \<noteq> CHR ''/''"
  shows "path_join a b = path_join a c \<longleftrightarrow> b = c"
  using assms by (simp add: path_join_def)

lemma key_paths [simp]:
  "path_join a (str_int m) = path_join a (str_int n) \<longleftrightarrow> m = n"
  "path_join a (str_int m) \<noteq> path_join a ''meta''" "path_join a ''meta'' \<noteq> path_join a (str_int m)"
  by (simp_all add: path_join_inject str_int_hd str_int_inject str_int_not_meta not_sym [OF str_int_not_meta])

text \<open>
  A location keeps a key set the way a pair of maps would: the contract between the writers and
  the readers, which the key set relies on.
\<close>

locale key_storage =
  fixes put_meta :: "string \<Rightarrow> 'w \<Rightarrow> (exn + unit) \<times> 'w"
    and put_key :: "int \<Rightarrow> bytes \<Rightarrow> 'w \<Rightarrow> (exn + unit) \<times> 'w"
    and drop_key :: "int \<Rightarrow> 'w \<Rightarrow> (exn + unit) \<times> 'w"
    and get :: "'w \<Rightarrow> reader"
  assumes meta_put: "put_meta s w = (Inr (), w') \<Longrightarrow> rd_GetMetadata (get w') = Inr s"
    and key_put_meta: "put_meta s w = (Inr (), w') \<Longrightarrow> rd_GetKey (get w') n = rd_GetKey (get w) n"
    and key_put: "put_key m k w = (Inr (), w') \<Longrightarrow> rd_GetKey (get w') n = (if n = m then Inr k else rd_GetKey (get w) n)"
    and meta_put_key: "put_key m k w = (Inr (), w') \<Longrightarrow> rd_GetMetadata (get w') = rd_GetMetadata (get w)"
    and key_drop: "drop_key m w = (Inr (), w') \<Longrightarrow> n \<noteq> m \<Longrightarrow> rd_GetKey (get w') n = rd_GetKey (get w) n"
    and key_dropped: "drop_key m w = (Inr (), w') \<Longrightarrow> \<exists>e. rd_GetKey (get w') m = Inl e"
    and meta_drop: "drop_key m w = (Inr (), w') \<Longrightarrow> rd_GetMetadata (get w') = rd_GetMetadata (get w)"
begin

fun put_keys :: "(int \<times> bytes) list \<Rightarrow> 'w \<Rightarrow> (exn + unit) \<times> 'w" where
  "put_keys [] w = (Inr (), w)"
| "put_keys ((n, k) # nks) w = (case put_key n k w of (Inl e, w') \<Rightarrow> (Inl e, w') | (Inr u, w') \<Rightarrow> put_keys nks w')"

lemma put_keys_get:
  assumes "put_keys nks w = (Inr (), w')" and "distinct (map fst nks)"
  shows "rd_GetMetadata (get w') = rd_GetMetadata (get w) \<and>
    rd_GetKey (get w') n = (case map_of nks n of Some k \<Rightarrow> Inr k | None \<Rightarrow> rd_GetKey (get w) n)"
  using assms
proof (induction nks arbitrary: w)
  case (Cons nk nks)
  obtain m k where nk: "nk = (m, k)" by (cases nk)
  obtain w1 where w1: "put_key m k w = (Inr (), w1)" "put_keys nks w1 = (Inr (), w')"
    using Cons.prems(1) by (auto simp: nk split: prod.splits sum.splits)
  have "map_of nks m = None" using Cons.prems(2) by (simp add: nk map_of_eq_None_iff)
  with Cons.IH [OF w1(2)] Cons.prems(2) w1(1) show ?case
    by (auto simp: nk key_put meta_put_key split: option.splits)
qed simp

lemma put_all_get:
  assumes "put_meta s w = (Inr (), w1)" and "put_keys nks w1 = (Inr (), w')" and "distinct (map fst nks)"
    and "map_of nks n = Some k"
  shows "rd_GetMetadata (get w') = Inr s" and "rd_GetKey (get w') n = Inr k"
  using put_keys_get [OF assms(2,3), of n] meta_put [OF assms(1)] assms(4) by simp_all

end

interpretation files: key_storage "\<lambda>s. FileWriter_WriteMetadata loc (Inr s) ow"
    "\<lambda>n k. WriteFile k (path_join loc (str_int n))" "FileWriter_Remove loc" "\<lambda>f. FileReader f loc"
  for loc ow
proof
  fix s f f' n k m
  show "FileWriter_WriteMetadata loc (Inr s) ow f = (Inr (), f') \<Longrightarrow> rd_GetMetadata (FileReader f' loc) = Inr s"
    and "FileWriter_WriteMetadata loc (Inr s) ow f = (Inr (), f') \<Longrightarrow>
      rd_GetKey (FileReader f' loc) n = rd_GetKey (FileReader f loc) n"
    by (auto simp: FileWriter_WriteMetadata_def Let_def sbind_def slift_def FileReader_def ReadFile_WriteFile
        split: if_splits)
  show "WriteFile k (path_join loc (str_int m)) f = (Inr (), f') \<Longrightarrow>
      rd_GetKey (FileReader f' loc) n = (if n = m then Inr k else rd_GetKey (FileReader f loc) n)"
    and "WriteFile k (path_join loc (str_int m)) f = (Inr (), f') \<Longrightarrow>
      rd_GetMetadata (FileReader f' loc) = rd_GetMetadata (FileReader f loc)"
    by (auto simp: FileReader_def ReadFile_WriteFile)
  show "FileWriter_Remove loc m f = (Inr (), f') \<Longrightarrow> n \<noteq> m \<Longrightarrow>
      rd_GetKey (FileReader f' loc) n = rd_GetKey (FileReader f loc) n"
    and "FileWriter_Remove loc m f = (Inr (), f') \<Longrightarrow> \<exists>e. rd_GetKey (FileReader f' loc) m = Inl e"
    and "FileWriter_Remove loc m f = (Inr (), f') \<Longrightarrow> rd_GetMetadata (FileReader f' loc) = rd_GetMetadata (FileReader f loc)"
    by (auto simp: FileWriter_Remove_def FileReader_def ReadFile_os_remove)
qed

text \<open>A metadata file is never overwritten by the creation of a key set.\<close>

lemma WriteMetadata_no_overwrite:
  assumes "path_exists f (path_join loc ''meta'')"
  shows "FileWriter_WriteMetadata loc s False f =
    (Inl (KeyczarError (''File:'' @ path_join loc ''meta'' @ '' already exists'')), f)"
  using assms by (simp add: FileWriter_WriteMetadata_def Let_def)

lemma static_metadata_ok:
  "static_metadata t p = ([\<lparr>version_number = 1, status = PRIMARY, exportable = False\<rparr>],
     \<lparr>kmd_name = ''Imported'', purpose = p, kmd_type = t, encrypted = False, version_dict = [(1, 0)]\<rparr>)"
  by (simp add: static_metadata_def KeyMetadata_init_def kmd_AddVersion_def Let_def)

end
