(* ===== verification/Keyset.thy ===== *)
theory Keyset
  imports Files
begin

text \<open>
  \<open>python/src/keyczar/keyczar.py\<close>, classes \<open>Keyczar\<close> and \<open>GenericKeyczar\<close>: a key set in memory and
  the life cycle of its versions. The dictionary \<open>_keys\<close> maps version objects and hash
  identifiers to keys; Python 2 iterates over it in an order of its own, so the order of the
  entries in the list carries no meaning. The warning that \<open>AddVersion\<close> prints is left out.
\<close>

record keyczar =
  kz_heap :: store                     \<comment> \<open>the version objects\<close>
  kz_metadata :: key_metadata
  kz_keys :: "(key_id \<times> key) list"
  kz_primary :: "nat option"           \<comment> \<open>\<open>primary_version\<close>\<close>
  kz_default_size :: int

subsection \<open>Keyczar\<close>

fun load_keys :: "reader \<Rightarrow> nat list \<Rightarrow> keyczar \<Rightarrow> exn + keyczar" where
  "load_keys rd [] kz = Inr kz"
| "load_keys rd (version # rest) kz =
     ebind (if status (kz_heap kz ! version) = PRIMARY
            then (if kz_primary kz \<noteq> None
                  then Inl (KeyczarError ''Key sets may only have a single primary version'')
                  else Inr (kz\<lparr>kz_primary := Some version\<rparr>))
            else Inr kz) (\<lambda>kz1.
     ebind (rd_GetKey rd (version_number (kz_heap kz ! version))) (\<lambda>text.
     ebind (ReadKey (kmd_type (kz_metadata kz)) text) (\<lambda>key.
     ebind (key_hash_id key) (\<lambda>h.
       load_keys rd rest (kz1\<lparr>kz_keys :=
         AList.update (HashId h) key (AList.update (VersionId version) key (kz_keys kz1))\<rparr>)))))"

definition Keyczar_init :: "(key_purpose \<Rightarrow> bool) \<Rightarrow> reader \<Rightarrow> exn + keyczar" where
  "Keyczar_init IsAcceptablePurpose rd =
     ebind (rd_GetMetadata rd) (\<lambda>text.
       (case KeyMetadata_Read text [] of
          (Inl e, h) \<Rightarrow> Inl e
        | (Inr kmd, h) \<Rightarrow>
          (if \<not> IsAcceptablePurpose (purpose kmd)
           then Inl (KeyczarError (''Unacceptable purpose: '' @ purpose_name (purpose kmd)))
           else if encrypted kmd \<and> \<not> rd_encrypted rd
           then Inl (KeyczarError ''Need encrypted reader.'')
           else load_keys rd (kmd_versions kmd)
             \<lparr>kz_heap = h, kz_metadata = kmd, kz_keys = [], kz_primary = None,
              kz_default_size = default_size (kmd_type kmd)\<rparr>)))"

fun version_ids :: "(key_id \<times> key) list \<Rightarrow> nat list" where
  "version_ids [] = []"
| "version_ids ((VersionId r, k) # es) = r # version_ids es"
| "version_ids (e # es) = version_ids es"

definition kz_versions :: "keyczar \<Rightarrow> nat list" where
  "kz_versions kz = version_ids (kz_keys kz)"

definition GetKey :: "keyczar \<Rightarrow> key_id \<Rightarrow> exn + key" where
  "GetKey kz key_id = (case map_of (kz_keys kz) key_id of
     Some k \<Rightarrow> Inr k | None \<Rightarrow> Inl (KeyNotFoundError key_id))"

definition primary_id :: "keyczar \<Rightarrow> key_id" where
  "primary_id kz = (case kz_primary kz of None \<Rightarrow> NoneId | Some r \<Rightarrow> VersionId r)"

definition primary_key :: "keyczar \<Rightarrow> exn + key" where
  "primary_key kz = GetKey kz (primary_id kz)"

definition Keyczar_str :: "keyczar \<Rightarrow> exn + string" where
  "Keyczar_str kz = KeyMetadata_str (kz_heap kz) (kz_metadata kz)"

definition ParseHeader :: "keyczar \<Rightarrow> bytes \<Rightarrow> exn + key" where
  "ParseHeader kz header = (if header = [] then Inl PyIndexError
     else let version = byte_ord (header ! 0) in
       if version \<noteq> VERSION then Inl (BadVersionError version)
       else GetKey kz (HashId (Base64WSEncode (slice_from header 1))))"

text \<open>\<open>Keyczar.Read\<close> makes an object of the base class, whose \<open>IsAcceptablePurpose\<close> returns nothing.\<close>

definition Keyczar_Read :: "fs \<Rightarrow> string \<Rightarrow> exn + keyczar" where
  "Keyczar_Read f location = ebind (CreateReader f location) (Keyczar_init (\<lambda>p. False))"

definition AddKey :: "nat \<Rightarrow> key \<Rightarrow> (keyczar, exn, unit) st" where
  "AddKey version key = (\<lambda>kz.
     let kz1 = kz\<lparr>kz_keys := AList.update (VersionId version) key (kz_keys kz)\<rparr> in
     case key_hash_id key of
       Inl e \<Rightarrow> (Inl e, kz1)
     | Inr h \<Rightarrow> (Inr (), kz1\<lparr>kz_keys := AList.update (HashId h) key (kz_keys kz1),
         kz_metadata := snd (kmd_AddVersion (kz_heap kz) version (kz_metadata kz))\<rparr>))"

subsection \<open>GenericKeyczar\<close>

definition GenericKeyczar_Read :: "fs \<Rightarrow> string \<Rightarrow> exn + keyczar" where
  "GenericKeyczar_Read f location = ebind (CreateReader f location) (Keyczar_init (\<lambda>p. True))"

definition kz_set_status :: "nat \<Rightarrow> key_status \<Rightarrow> keyczar \<Rightarrow> keyczar" where
  "kz_set_status r s kz = kz\<lparr>kz_heap := set_status r s (kz_heap kz)\<rparr>"

definition max_version_number :: "keyczar \<Rightarrow> int" where
  "max_version_number kz = foldl (\<lambda>m r. let n = version_number (kz_heap kz ! r) in if m < n then n else m) 0
     (kz_versions kz)"

text \<open>Generate until no key has the identifier yet; nothing bounds the attempts.\<close>

partial_function (option) fresh_key ::
    "crypto \<Rightarrow> key_type \<Rightarrow> int \<Rightarrow> (key_id \<times> key) list \<Rightarrow> entropy \<Rightarrow> ((exn + key) \<times> entropy) option" where
  "fresh_key L t sz keys ent = (case GenKey L t (Some sz) ent of
       (Inl e, ent') \<Rightarrow> Some (Inl e, ent')
     | (Inr key, ent') \<Rightarrow> (case key_hash_id key of
         Inl e \<Rightarrow> Some (Inl e, ent')
       | Inr h \<Rightarrow> if map_of keys (HashId h) = None then Some (Inr key, ent')
                   else fresh_key L t sz keys ent'))"

definition AddVersion :: "crypto \<Rightarrow> key_status \<Rightarrow> int option \<Rightarrow> keyczar \<times> entropy
    \<Rightarrow> ((exn + unit) \<times> keyczar \<times> entropy) option" where
  "AddVersion L s size0 = (\<lambda>(kz, ent).
     let sz = (case size0 of None \<Rightarrow> kz_default_size kz | Some n \<Rightarrow> n) in
     if \<not> IsValidSize (kmd_type (kz_metadata kz)) sz
     then Some (Inl (KeyczarError (''Unsupported key size '' @ str_int sz @ '' bits.'')), kz, ent)
     else
       let version = length (kz_heap kz);
           kz1 = kz\<lparr>kz_heap := kz_heap kz @ [\<lparr>version_number = max_version_number kz + 1, status = s,
                   exportable = False\<rparr>]\<rparr>;
           kz2 = (if s = PRIMARY
                  then (case kz_primary kz1 of None \<Rightarrow> kz1 | Some p \<Rightarrow> kz_set_status p ACTIVE kz1)
                         \<lparr>kz_primary := Some version\<rparr>
                  else kz1)
       in (case fresh_key L (kmd_type (kz_metadata kz)) sz (kz_keys kz) ent of
             None \<Rightarrow> None
           | Some (Inl e, ent') \<Rightarrow> Some (Inl e, kz2, ent')
           | Some (Inr key, ent') \<Rightarrow> (case AddKey version key kz2 of (res, kz3) \<Rightarrow> Some (res, kz3, ent'))))"

definition Promote :: "int \<Rightarrow> (keyczar, exn, unit) st" where
  "Promote n = (\<lambda>kz. case kmd_GetVersion n (kz_metadata kz) of
       Inl e \<Rightarrow> (Inl e, kz)
     | Inr version \<Rightarrow> (case status (kz_heap kz ! version) of
         PRIMARY \<Rightarrow> (Inl (KeyczarError ''Can't promote a primary key.''), kz)
       | ACTIVE \<Rightarrow>
           (let kz1 = kz_set_status version PRIMARY kz;
                kz2 = (case kz_primary kz1 of None \<Rightarrow> kz1 | Some p \<Rightarrow> kz_set_status p ACTIVE kz1)
            in (Inr (), kz2\<lparr>kz_primary := Some version\<rparr>))
       | INACTIVE \<Rightarrow> (Inr (), kz_set_status version ACTIVE kz)))"

definition Demote :: "int \<Rightarrow> (keyczar, exn, unit) st" where
  "Demote n = (\<lambda>kz. case kmd_GetVersion n (kz_metadata kz) of
       Inl e \<Rightarrow> (Inl e, kz)
     | Inr version \<Rightarrow> (case status (kz_heap kz ! version) of
         PRIMARY \<Rightarrow> (Inr (), (kz_set_status version ACTIVE kz)\<lparr>kz_primary := None\<rparr>)
       | ACTIVE \<Rightarrow> (Inr (), kz_set_status version INACTIVE kz)
       | INACTIVE \<Rightarrow> (Inl (KeyczarError ''Can't demote an inactive key, only revoke.''), kz)))"

definition Revoke :: "int \<Rightarrow> (keyczar, exn, unit) st" where
  "Revoke n = (\<lambda>kz. case kmd_GetVersion n (kz_metadata kz) of
       Inl e \<Rightarrow> (Inl e, kz)
     | Inr version \<Rightarrow> (if status (kz_heap kz ! version) = INACTIVE
         then (case kmd_RemoveVersion n (kz_metadata kz) of (res, m) \<Rightarrow> (res, kz\<lparr>kz_metadata := m\<rparr>))
         else (Inl (KeyczarError ''Can't revoke key if not inactive.''), kz)))"

definition public_metadata :: "key_metadata \<Rightarrow> key_metadata option" where
  "public_metadata kmd =
     (if kmd_type kmd = DSA_PRIV \<and> purpose kmd = SIGN_AND_VERIFY
      then Some (KeyMetadata_init (kmd_name kmd) VERIFY DSA_PUB False)
      else if kmd_type kmd = RSA_PRIV
      then (if purpose kmd = DECRYPT_AND_ENCRYPT
            then Some (KeyMetadata_init (kmd_name kmd) ENCRYPT RSA_PUB False)
            else if purpose kmd = SIGN_AND_VERIFY
            then Some (KeyMetadata_init (kmd_name kmd) VERIFY RSA_PUB False) else None)
      else None)"

text \<open>The loop of \<open>PublicKeyExport\<close>; \<open>emit\<close> is what it does with each public key.\<close>

fun export_versions :: "(int \<Rightarrow> key \<Rightarrow> ('w, exn, unit) st) \<Rightarrow> keyczar \<Rightarrow> nat list \<Rightarrow> key_metadata
    \<Rightarrow> ('w, exn, key_metadata) st" where
  "export_versions emit kz [] pubkmd = sret pubkmd"
| "export_versions emit kz (v # vs) pubkmd =
     sbind (slift (ebind (GetKey kz (VersionId v)) key_public)) (\<lambda>pubkey.
     sbind (emit (version_number (kz_heap kz ! v)) pubkey) (\<lambda>u.
       export_versions emit kz vs (snd (kmd_AddVersion (kz_heap kz) v pubkmd))))"

definition PublicKeyExport :: "keyczar \<Rightarrow> string \<Rightarrow> (fs, exn, unit) st" where
  "PublicKeyExport kz dest = (case public_metadata (kz_metadata kz) of
       None \<Rightarrow> sraise (KeyczarError ''Cannot export public key'')
     | Some pubkmd \<Rightarrow>
         sbind (export_versions (\<lambda>n pubkey. sbind (slift (key_str pubkey))
           (\<lambda>s. WriteFile s (path_join dest (str_int n)))) kz (kz_versions kz) pubkmd) (\<lambda>pubkmd'.
         sbind (slift (KeyMetadata_str (kz_heap kz) pubkmd')) (\<lambda>s. WriteFile s (path_join dest ''meta''))))"

text \<open>With a mock reader the keys and the metadata are stored in it.\<close>

definition PublicKeyExport_mock :: "keyczar \<Rightarrow> (mock_reader, exn, unit) st" where
  "PublicKeyExport_mock kz = (case public_metadata (kz_metadata kz) of
       None \<Rightarrow> sraise (KeyczarError ''Cannot export public key'')
     | Some pubkmd \<Rightarrow>
         sbind (export_versions (\<lambda>n pubkey. smodify (mk_SetPubKey n pubkey)) kz (kz_versions kz) pubkmd)
           (\<lambda>pubkmd'. smodify (\<lambda>m. m\<lparr>mk_pubkmd := Some (kz_heap kz, pubkmd')\<rparr>)))"

fun write_keys :: "keyczar \<Rightarrow> string \<Rightarrow> encrypt_fun option \<Rightarrow> nat list \<Rightarrow> (fs \<times> entropy, exn, unit) st" where
  "write_keys kz loc encrypter [] = sret ()"
| "write_keys kz loc encrypter (v # vs) =
     sbind (slift (GetKey kz (VersionId v))) (\<lambda>key.
     sbind (FileWriter_WriteKey loc key (version_number (kz_heap kz ! v)) encrypter) (\<lambda>u.
       write_keys kz loc encrypter vs))"

datatype writer_arg = WriterAt string | WriterPath string

definition Keyczar_Write :: "writer_arg \<Rightarrow> encrypt_fun option \<Rightarrow> keyczar \<times> fs \<times> entropy
    \<Rightarrow> (exn + unit) \<times> keyczar \<times> fs \<times> entropy" where
  "Keyczar_Write writer encrypter = (\<lambda>(kz, f, ent).
     case (case writer of WriterAt loc \<Rightarrow> Inr loc | WriterPath p \<Rightarrow> CreateWriter f p) of
       Inl e \<Rightarrow> (Inl e, kz, f, ent)
     | Inr loc \<Rightarrow>
       (let kz1 = kz\<lparr>kz_metadata := (kz_metadata kz)\<lparr>encrypted := (encrypter \<noteq> None)\<rparr>\<rparr> in
        case FileWriter_WriteMetadata loc (KeyMetadata_str (kz_heap kz1) (kz_metadata kz1)) True f of
          (Inl e, f') \<Rightarrow> (Inl e, kz1, f', ent)
        | (Inr u, f') \<Rightarrow>
          (case write_keys kz1 loc encrypter (kz_versions kz1) (f', ent) of
             (res, f'', ent') \<Rightarrow> (res, kz1, f'', ent'))))"

end
