(* ===== verification/Lifecycle.thy ===== *)
theory Lifecycle
  imports Keyset
begin

text \<open>
  The life cycle of the versions of a key set: the invariant of the states that \<open>GenericKeyczar\<close>
  reaches from a loaded set, the abstract machine over version numbers that its operations
  implement, and what \<open>AddVersion\<close> promises.
\<close>

subsection \<open>The invariant\<close>

definition dict_ok :: "keyczar \<Rightarrow> bool" where
  "dict_ok kz \<longleftrightarrow> distinct (map fst (kz_keys kz))
     \<and> (\<forall>r. VersionId r \<in> fst ` set (kz_keys kz) \<longrightarrow> r < length (kz_heap kz))
     \<and> set (kmd_versions (kz_metadata kz)) \<subseteq> set (kz_versions kz)
     \<and> distinct (map (\<lambda>r. version_number (kz_heap kz ! r)) (kz_versions kz))"

definition primary_ok :: "keyczar \<Rightarrow> bool" where
  "primary_ok kz \<longleftrightarrow>
     (\<forall>r \<in> set (kmd_versions (kz_metadata kz)). status (kz_heap kz ! r) = PRIMARY \<longrightarrow> kz_primary kz = Some r)
     \<and> (\<forall>r. kz_primary kz = Some r \<longrightarrow> r < length (kz_heap kz) \<and> status (kz_heap kz ! r) = PRIMARY)"

definition kz_inv :: "keyczar \<Rightarrow> bool" where
  "kz_inv kz \<longleftrightarrow> kmd_ok (kz_heap kz) (kz_metadata kz) \<and> dict_ok kz \<and> primary_ok kz"

text \<open>Every key is found under its own hash identifier: no two versions collide.\<close>

definition hash_ok :: "keyczar \<Rightarrow> bool" where
  "hash_ok kz \<longleftrightarrow> (\<forall>r k. map_of (kz_keys kz) (VersionId r) = Some k \<longrightarrow>
     (\<exists>h. key_hash_id k = Inr h \<and> map_of (kz_keys kz) (HashId h) = Some k))"

definition types_ok :: "keyczar \<Rightarrow> bool" where
  "types_ok kz \<longleftrightarrow> (\<forall>(i, k) \<in> set (kz_keys kz). key_type_of k = kmd_type (kz_metadata kz))"

lemma set_version_ids: "set (version_ids es) = {r. VersionId r \<in> fst ` set es}"
  by (induction es rule: version_ids.induct) auto

lemma set_kz_versions: "r \<in> set (kz_versions kz) \<longleftrightarrow> VersionId r \<in> fst ` set (kz_keys kz)"
  by (simp add: kz_versions_def set_version_ids)

lemma version_ids_update_hash [simp]: "version_ids (AList.update (HashId h) k es) = version_ids es"
  by (induction es rule: version_ids.induct) auto

lemma version_ids_update: "version_ids (AList.update (VersionId r) k es) =
    (if r \<in> set (version_ids es) then version_ids es else version_ids es @ [r])"
  by (induction es rule: version_ids.induct) auto

lemma GetKey_version: "r \<in> set (kz_versions kz) \<Longrightarrow> \<exists>k. GetKey kz (VersionId r) = Inr k"
  by (cases "map_of (kz_keys kz) (VersionId r)")
    (simp_all add: GetKey_def set_kz_versions map_of_eq_None_iff)

lemma heap_set_status [simp]: "kz_heap (kz_set_status r s kz) = set_status r s (kz_heap kz)"
  "kz_metadata (kz_set_status r s kz) = kz_metadata kz" "kz_keys (kz_set_status r s kz) = kz_keys kz"
  "kz_primary (kz_set_status r s kz) = kz_primary kz"
  "kz_default_size (kz_set_status r s kz) = kz_default_size kz"
  by (simp_all add: kz_set_status_def)

lemma dict_ok_frame [simp]: "dict_ok (kz_set_status r s kz) = dict_ok kz"
  "dict_ok (kz\<lparr>kz_primary := p\<rparr>) = dict_ok kz"
  by (simp_all add: dict_ok_def kz_versions_def)

lemma metadata_ref: "kmd_ok h m \<Longrightarrow> kmd_GetVersion n m = Inr r \<Longrightarrow>
    r \<in> set (kmd_versions m) \<and> r < length h \<and> version_number (h ! r) = n"
  by (force simp: kmd_GetVersion_def kmd_ok_def kmd_versions_def dest: map_of_SomeD split: option.splits)

lemma metadata_refs_valid: "kmd_ok h m \<Longrightarrow> r \<in> set (kmd_versions m) \<Longrightarrow> r < length h"
  by (auto simp: kmd_ok_def kmd_versions_def)

subsection \<open>Every operation keeps it\<close>

lemma primary_okI:
  assumes "\<And>r. r \<in> set (kmd_versions (kz_metadata kz)) \<Longrightarrow> status (kz_heap kz ! r) = PRIMARY \<Longrightarrow> kz_primary kz = Some r"
    and "\<And>r. kz_primary kz = Some r \<Longrightarrow> r < length (kz_heap kz)"
    and "\<And>r. kz_primary kz = Some r \<Longrightarrow> status (kz_heap kz ! r) = PRIMARY"
  shows "primary_ok kz"
  using assms unfolding primary_ok_def by blast

lemma primary_okD:
  assumes "primary_ok kz"
  shows "r \<in> set (kmd_versions (kz_metadata kz)) \<Longrightarrow> status (kz_heap kz ! r) = PRIMARY \<Longrightarrow> kz_primary kz = Some r"
    and "kz_primary kz = Some r \<Longrightarrow> r < length (kz_heap kz)"
    and "kz_primary kz = Some r \<Longrightarrow> status (kz_heap kz ! r) = PRIMARY"
  using assms unfolding primary_ok_def by blast+

lemma kz_inv_demoted:
  assumes "kz_inv kz" and "s \<noteq> PRIMARY" and "r < length (kz_heap kz)" and "kz_primary kz \<noteq> Some r"
  shows "kz_inv (kz_set_status r s kz)"
proof -
  have ok: "kmd_ok (kz_heap kz) (kz_metadata kz)" "dict_ok kz" "primary_ok kz"
    using assms(1) by (simp_all add: kz_inv_def)
  have "primary_ok (kz_set_status r s kz)"
  proof (rule primary_okI)
    fix i assume i: "i \<in> set (kmd_versions (kz_metadata (kz_set_status r s kz)))"
      and st: "status (kz_heap (kz_set_status r s kz) ! i) = PRIMARY"
    have il: "i < length (kz_heap kz)" using i metadata_refs_valid [OF ok(1)] by simp
    have "status (kz_heap kz ! i) = PRIMARY"
      using st assms(2) by (simp add: status_set_status [OF il] split: if_splits)
    then show "kz_primary (kz_set_status r s kz) = Some i"
      using primary_okD(1) [OF ok(3), of i] i by simp
  next
    fix i assume "kz_primary (kz_set_status r s kz) = Some i"
    then have p: "kz_primary kz = Some i" by simp
    show "i < length (kz_heap (kz_set_status r s kz))"
      using primary_okD(2) [OF ok(3) p] by simp
    show "status (kz_heap (kz_set_status r s kz) ! i) = PRIMARY"
      using primary_okD(2,3) [OF ok(3) p] assms(4) p by (auto simp: status_set_status)
  qed
  with ok show ?thesis by (simp add: kz_inv_def)
qed

text \<open>The old primary, if any, becomes active and \<open>r\<close> becomes the primary one.\<close>

definition make_primary :: "nat \<Rightarrow> keyczar \<Rightarrow> keyczar" where
  "make_primary r kz = (let kz1 = kz_set_status r PRIMARY kz;
       kz2 = (case kz_primary kz1 of None \<Rightarrow> kz1 | Some p \<Rightarrow> kz_set_status p ACTIVE kz1)
     in kz2\<lparr>kz_primary := Some r\<rparr>)"

lemma make_primary_frame [simp]:
  "kz_metadata (make_primary r kz) = kz_metadata kz" "kz_keys (make_primary r kz) = kz_keys kz"
  "length (kz_heap (make_primary r kz)) = length (kz_heap kz)"
  "version_number (kz_heap (make_primary r kz) ! i) = version_number (kz_heap kz ! i)"
  "dict_ok (make_primary r kz) = dict_ok kz" "kz_primary (make_primary r kz) = Some r"
  "kmd_ok (kz_heap (make_primary r kz)) m = kmd_ok (kz_heap kz) m"
  by (simp_all add: make_primary_def Let_def split: option.split)

lemma make_primary_status:
  assumes "i < length (kz_heap kz)" and "kz_primary kz \<noteq> Some r"
  shows "status (kz_heap (make_primary r kz) ! i) = (if i = r then PRIMARY
      else if kz_primary kz = Some i then ACTIVE else status (kz_heap kz ! i))"
  using assms by (cases "kz_primary kz") (auto simp: make_primary_def status_set_status)

lemma make_primary_inv:
  assumes "kz_inv kz" and "r < length (kz_heap kz)" and "kz_primary kz \<noteq> Some r"
  shows "kz_inv (make_primary r kz)"
proof -
  have ok: "kmd_ok (kz_heap kz) (kz_metadata kz)" "dict_ok kz" "primary_ok kz"
    using assms(1) by (simp_all add: kz_inv_def)
  have "primary_ok (make_primary r kz)"
  proof (rule primary_okI)
    fix i assume i: "i \<in> set (kmd_versions (kz_metadata (make_primary r kz)))"
      and st: "status (kz_heap (make_primary r kz) ! i) = PRIMARY"
    have il: "i < length (kz_heap kz)" using i metadata_refs_valid [OF ok(1)] by simp
    have "i = r \<or> kz_primary kz \<noteq> Some i \<and> status (kz_heap kz ! i) = PRIMARY"
      using st by (simp add: make_primary_status [OF il assms(3)] split: if_splits)
    then show "kz_primary (make_primary r kz) = Some i"
      using primary_okD(1) [OF ok(3), of i] i by auto
  qed (use assms in \<open>simp_all add: make_primary_status\<close>)
  with ok show ?thesis by (simp add: kz_inv_def)
qed

lemma Promote_cases:
  assumes "kmd_GetVersion n (kz_metadata kz) = Inr r"
  shows "Promote n kz = (case status (kz_heap kz ! r) of
      PRIMARY \<Rightarrow> (Inl (KeyczarError ''Can't promote a primary key.''), kz)
    | ACTIVE \<Rightarrow> (Inr (), make_primary r kz) | INACTIVE \<Rightarrow> (Inr (), kz_set_status r ACTIVE kz))"
  using assms by (simp add: Promote_def make_primary_def Let_def split: key_status.split)

lemma Promote_inv:
  assumes "kz_inv kz"
  shows "kz_inv (snd (Promote n kz))"
proof (cases "kmd_GetVersion n (kz_metadata kz)")
  case (Inl e)
  then show ?thesis using assms by (simp add: Promote_def)
next
  case (Inr r)
  have r: "r < length (kz_heap kz)" using metadata_ref [OF _ Inr] assms by (auto simp: kz_inv_def)
  have p: "status (kz_heap kz ! r) \<noteq> PRIMARY \<Longrightarrow> kz_primary kz \<noteq> Some r"
    using assms primary_okD(3) [of kz r] by (auto simp: kz_inv_def)
  show ?thesis
    using assms p make_primary_inv [OF assms r] kz_inv_demoted [OF assms _ r]
    by (simp add: Promote_cases [OF Inr] split: key_status.split)
qed

lemma Demote_inv:
  assumes "kz_inv kz"
  shows "kz_inv (snd (Demote n kz))"
proof (cases "kmd_GetVersion n (kz_metadata kz)")
  case (Inl e)
  then show ?thesis using assms by (simp add: Demote_def)
next
  case (Inr r)
  have ok: "kmd_ok (kz_heap kz) (kz_metadata kz)" "dict_ok kz" "primary_ok kz"
    using assms by (simp_all add: kz_inv_def)
  have r: "r < length (kz_heap kz)" "r \<in> set (kmd_versions (kz_metadata kz))"
    using metadata_ref [OF ok(1) Inr] by simp_all
  have p: "status (kz_heap kz ! r) \<noteq> PRIMARY \<Longrightarrow> kz_primary kz \<noteq> Some r"
    using primary_okD(3) [OF ok(3)] by auto
  have "kz_inv ((kz_set_status r ACTIVE kz)\<lparr>kz_primary := None\<rparr>)" if st: "status (kz_heap kz ! r) = PRIMARY"
  proof -
    have "primary_ok ((kz_set_status r ACTIVE kz)\<lparr>kz_primary := None\<rparr>)"
    proof (rule primary_okI)
      fix i assume i: "i \<in> set (kmd_versions (kz_metadata ((kz_set_status r ACTIVE kz)\<lparr>kz_primary := None\<rparr>)))"
        and sti: "status (kz_heap ((kz_set_status r ACTIVE kz)\<lparr>kz_primary := None\<rparr>) ! i) = PRIMARY"
      have il: "i < length (kz_heap kz)" using i metadata_refs_valid [OF ok(1)] by simp
      have "i \<noteq> r" "status (kz_heap kz ! i) = PRIMARY"
        using sti by (simp_all add: status_set_status [OF il] split: if_splits)
      then have "kz_primary kz = Some i" and "kz_primary kz = Some r"
        using primary_okD(1) [OF ok(3), of i] primary_okD(1) [OF ok(3) r(2) st] i by simp_all
      with \<open>i \<noteq> r\<close> show "kz_primary ((kz_set_status r ACTIVE kz)\<lparr>kz_primary := None\<rparr>) = Some i" by simp
    qed simp_all
    with ok show ?thesis by (simp add: kz_inv_def)
  qed
  then show ?thesis
    using assms p kz_inv_demoted [OF assms _ r(1)] Inr by (simp add: Demote_def split: key_status.split)
qed

lemma Revoke_inv:
  assumes "kz_inv kz"
  shows "kz_inv (snd (Revoke n kz))"
proof -
  have ok: "kmd_ok (kz_heap kz) (kz_metadata kz)" "dict_ok kz" "primary_ok kz"
    using assms by (simp_all add: kz_inv_def)
  let ?m = "snd (kmd_RemoveVersion n (kz_metadata kz))"
  have sub: "set (kmd_versions ?m) \<subseteq> set (kmd_versions (kz_metadata kz))"
    by (auto simp: kmd_versions_def kmd_RemoveVersion_def)
  have "primary_ok (kz\<lparr>kz_metadata := ?m\<rparr>)"
    using sub primary_okD [OF ok(3)] by (intro primary_okI) auto
  moreover have "dict_ok (kz\<lparr>kz_metadata := ?m\<rparr>)"
    using ok(2) sub by (auto simp: dict_ok_def kz_versions_def)
  ultimately have "kz_inv (kz\<lparr>kz_metadata := ?m\<rparr>)"
    using kmd_ok_RemoveVersion [OF ok(1)] by (simp add: kz_inv_def)
  then show ?thesis using assms by (auto simp: Revoke_def split: sum.split prod.split)
qed

lemma max_version_foldl:
  "a \<le> foldl (\<lambda>m r. let n = f r in if m < n then n else m) (a :: int) rs
    \<and> (\<forall>r \<in> set rs. f r \<le> foldl (\<lambda>m r. let n = f r in if m < n then n else m) a rs)"
proof (induction rs arbitrary: a)
  case (Cons r rs)
  let ?b = "if a < f r then f r else a"
  have "a \<le> ?b" "f r \<le> ?b" by auto
  with Cons [of ?b] show ?case by (auto simp: Let_def)
qed simp

lemma max_version_number_ge: "r \<in> set (kz_versions kz) \<Longrightarrow> version_number (kz_heap kz ! r) \<le> max_version_number kz"
  and max_version_number_nonneg: "0 \<le> max_version_number kz"
  using max_version_foldl [of 0 "\<lambda>r. version_number (kz_heap kz ! r)" "kz_versions kz"]
  unfolding max_version_number_def by blast+

text \<open>The state in which \<open>AddVersion\<close> asks for a key.\<close>

definition new_version :: "key_status \<Rightarrow> keyczar \<Rightarrow> keyczar" where
  "new_version s kz = (let kz1 = kz\<lparr>kz_heap := kz_heap kz @ [\<lparr>version_number = max_version_number kz + 1,
       status = s, exportable = False\<rparr>]\<rparr> in
     if s = PRIMARY then (case kz_primary kz1 of None \<Rightarrow> kz1 | Some p \<Rightarrow> kz_set_status p ACTIVE kz1)
       \<lparr>kz_primary := Some (length (kz_heap kz))\<rparr> else kz1)"

lemma new_version_frame [simp]:
  "kz_metadata (new_version s kz) = kz_metadata kz" "kz_keys (new_version s kz) = kz_keys kz"
  "length (kz_heap (new_version s kz)) = Suc (length (kz_heap kz))"
  "kz_versions (new_version s kz) = kz_versions kz"
  "kz_default_size (new_version s kz) = kz_default_size kz"
  "kz_primary (new_version s kz) = (if s = PRIMARY then Some (length (kz_heap kz)) else kz_primary kz)"
  by (auto simp: new_version_def Let_def kz_versions_def split: option.split)

lemma new_version_number:
  "version_number (kz_heap (new_version s kz) ! length (kz_heap kz)) = max_version_number kz + 1"
  "r < length (kz_heap kz) \<Longrightarrow> version_number (kz_heap (new_version s kz) ! r) = version_number (kz_heap kz ! r)"
  by (auto simp: new_version_def Let_def nth_append split: option.split)

lemma new_version_status:
  assumes "primary_ok kz" and "r \<le> length (kz_heap kz)"
  shows "status (kz_heap (new_version s kz) ! r) =
     (if r = length (kz_heap kz) then s
      else if s = PRIMARY \<and> kz_primary kz = Some r then ACTIVE else status (kz_heap kz ! r))"
proof (cases "kz_primary kz")
  case None
  then show ?thesis using assms(2) by (auto simp: new_version_def Let_def nth_append)
next
  case (Some p)
  then have "p < length (kz_heap kz)" by (rule primary_okD(2) [OF assms(1)])
  then show ?thesis using assms(2) Some
    by (auto simp: new_version_def Let_def status_set_status nth_append)
qed

lemma new_version_inv:
  assumes "kz_inv kz"
  shows "kz_inv (new_version s kz)"
proof -
  have ok: "kmd_ok (kz_heap kz) (kz_metadata kz)" "dict_ok kz" "primary_ok kz"
    using assms by (simp_all add: kz_inv_def)
  have m: "kmd_ok (kz_heap (new_version s kz)) (kz_metadata kz)"
    using kmd_ok_alloc [OF ok(1)] by (simp add: new_version_def Let_def split: option.split)
  have "map (\<lambda>r. version_number (kz_heap (new_version s kz) ! r)) (kz_versions kz)
      = map (\<lambda>r. version_number (kz_heap kz ! r)) (kz_versions kz)"
    using ok(2) by (intro map_cong refl new_version_number(2)) (simp add: dict_ok_def set_kz_versions)
  then have "distinct (map (\<lambda>r. version_number (kz_heap (new_version s kz) ! r)) (kz_versions kz))"
    using ok(2) by (simp only: dict_ok_def)
  then have d: "dict_ok (new_version s kz)"
    using ok(2) unfolding dict_ok_def new_version_frame by (blast intro: less_SucI)
  have "primary_ok (new_version s kz)"
  proof (rule primary_okI)
    fix r assume r: "r \<in> set (kmd_versions (kz_metadata (new_version s kz)))"
      and st: "status (kz_heap (new_version s kz) ! r) = PRIMARY"
    have rl: "r < length (kz_heap kz)" using r metadata_refs_valid [OF ok(1)] by simp
    have "status (kz_heap kz ! r) = PRIMARY" and "\<not> (s = PRIMARY \<and> kz_primary kz = Some r)"
      using st rl by (simp_all add: new_version_status [OF ok(3)] split: if_splits)
    then show "kz_primary (new_version s kz) = Some r"
      using primary_okD(1) [OF ok(3), of r] r by auto
  next
    fix r assume r: "kz_primary (new_version s kz) = Some r"
    then show rl: "r < length (kz_heap (new_version s kz))"
      using primary_okD(2) [OF ok(3), of r] by (auto split: if_splits)
    show "status (kz_heap (new_version s kz) ! r) = PRIMARY"
      using r rl primary_okD(2,3) [OF ok(3), of r] by (auto simp: new_version_status [OF ok(3)] split: if_splits)
  qed
  with m d show ?thesis by (simp add: kz_inv_def)
qed

subsection \<open>AddVersion\<close>

lemma AddVersion_valid:
  assumes "IsValidSize (kmd_type (kz_metadata kz)) (case size0 of None \<Rightarrow> kz_default_size kz | Some n \<Rightarrow> n)"
  shows "AddVersion L s size0 (kz, ent) =
    (case fresh_key L (kmd_type (kz_metadata kz)) (case size0 of None \<Rightarrow> kz_default_size kz | Some n \<Rightarrow> n)
        (kz_keys kz) ent of
       None \<Rightarrow> None
     | Some (Inl e, ent') \<Rightarrow> Some (Inl e, new_version s kz, ent')
     | Some (Inr key, ent') \<Rightarrow> (case AddKey (length (kz_heap kz)) key (new_version s kz) of
         (res, kz3) \<Rightarrow> Some (res, kz3, ent')))"
  using assms unfolding AddVersion_def new_version_def Let_def by (simp only: prod.case not_True_eq_False if_False)

lemma AddVersion_invalid:
  assumes "\<not> IsValidSize (kmd_type (kz_metadata kz)) (case size0 of None \<Rightarrow> kz_default_size kz | Some n \<Rightarrow> n)"
  shows "\<exists>m. AddVersion L s size0 (kz, ent) = Some (Inl (KeyczarError m), kz, ent)"
  using assms by (simp add: AddVersion_def Let_def)

lemma fresh_key_spec:
  assumes "fresh_key L t sz keys ent = Some (Inr k, ent')"
  shows "key_type_of k = t \<and> (\<exists>h. key_hash_id k = Inr h \<and> map_of keys (HashId h) = None)"
proof -
  let ?P = "\<lambda>L t sz keys ent (y :: (exn + key) \<times> entropy). \<forall>k. fst y = Inr k \<longrightarrow>
     key_type_of k = t \<and> (\<exists>h. key_hash_id k = Inr h \<and> map_of keys (HashId h) = None)"
  have "?P L t sz keys ent (Inr k, ent')"
  proof (rule fresh_key.raw_induct [where P = ?P, rotated])
    show "fresh_key L t sz keys ent = Some (Inr k, ent')" by fact
  next
    fix f L t sz keys ent and y :: "(exn + key) \<times> entropy"
    assume ih: "\<And>L t sz keys ent y. f L t sz keys ent = Some y \<Longrightarrow> ?P L t sz keys ent y"
      and eq: "(case GenKey L t (Some sz) ent of (Inl e, ent') \<Rightarrow> Some (Inl e, ent')
        | (Inr key, ent') \<Rightarrow> (case key_hash_id key of Inl e \<Rightarrow> Some (Inl e, ent')
          | Inr h \<Rightarrow> if map_of keys (HashId h) = None then Some (Inr key, ent') else f L t sz keys ent')) = Some y"
    show "?P L t sz keys ent y"
    proof (cases "GenKey L t (Some sz) ent")
      case (Pair res ent1)
      show ?thesis
      proof (cases res)
        case (Inl e)
        with eq Pair show ?thesis by auto
      next
        case (Inr k1)
        have t1: "key_type_of k1 = t" using GenKey_type Pair Inr by blast
        show ?thesis
        proof (cases "key_hash_id k1")
          case (Inl e)
          with eq Pair Inr show ?thesis by auto
        next
          fix h assume h: "key_hash_id k1 = Inr h"
          show ?thesis
          proof (cases "map_of keys (HashId h) = None")
            case True
            with eq Pair Inr h t1 show ?thesis by auto
          next
            case False
            with eq Pair Inr h have "f L t sz keys ent1 = Some y" by auto
            then show ?thesis by (rule ih)
          qed
        qed
      qed
    qed
  qed
  then show ?thesis by simp
qed

text \<open>The keys that the loop of \<open>AddVersion\<close> asks for, one after the other.\<close>

fun gen_run :: "crypto \<Rightarrow> key_type \<Rightarrow> int \<Rightarrow> entropy \<Rightarrow> nat \<Rightarrow> exn + key" where
  "gen_run L t sz ent 0 = fst (GenKey L t (Some sz) ent)"
| "gen_run L t sz ent (Suc i) = gen_run L t sz (snd (GenKey L t (Some sz) ent)) i"

definition collides :: "(key_id \<times> key) list \<Rightarrow> exn + key \<Rightarrow> bool" where
  "collides keys res \<longleftrightarrow> (case ebind res key_hash_id of
     Inl e \<Rightarrow> False | Inr h \<Rightarrow> map_of keys (HashId h) \<noteq> None)"

lemma fresh_key_step:
  "fresh_key L t sz keys ent = (if collides keys (gen_run L t sz ent 0)
     then fresh_key L t sz keys (snd (GenKey L t (Some sz) ent))
     else Some (ebind (gen_run L t sz ent 0) (\<lambda>k. ebind (key_hash_id k) (\<lambda>h. Inr k)), snd (GenKey L t (Some sz) ent)))"
  by (subst fresh_key.simps)
    (auto simp: collides_def split: prod.split sum.split)

lemma fresh_key_returns: "\<not> collides keys (gen_run L t sz ent i) \<Longrightarrow> fresh_key L t sz keys ent \<noteq> None"
proof (induction i arbitrary: ent)
  case 0
  then show ?case by (subst fresh_key_step) simp
next
  case (Suc i)
  then show ?case by (subst fresh_key_step) simp
qed

lemma fresh_key_stuck:
  assumes "\<forall>i. collides keys (gen_run L t sz ent i)"
  shows "fresh_key L t sz keys ent = None"
proof (rule ccontr)
  let ?P = "\<lambda>L t sz keys ent (y :: (exn + key) \<times> entropy). \<exists>i. \<not> collides keys (gen_run L t sz ent i)"
  assume "fresh_key L t sz keys ent \<noteq> None"
  then obtain y where y: "fresh_key L t sz keys ent = Some y" by blast
  have "?P L t sz keys ent y"
  proof (rule fresh_key.raw_induct [where P = ?P, rotated])
    show "fresh_key L t sz keys ent = Some y" by fact
  next
    fix f L t sz keys ent and y :: "(exn + key) \<times> entropy"
    assume ih: "\<And>L t sz keys ent y. f L t sz keys ent = Some y \<Longrightarrow> ?P L t sz keys ent y"
      and eq: "(case GenKey L t (Some sz) ent of (Inl e, ent') \<Rightarrow> Some (Inl e, ent')
        | (Inr key, ent') \<Rightarrow> (case key_hash_id key of Inl e \<Rightarrow> Some (Inl e, ent')
          | Inr h \<Rightarrow> if map_of keys (HashId h) = None then Some (Inr key, ent') else f L t sz keys ent')) = Some y"
    show "?P L t sz keys ent y"
    proof (cases "collides keys (gen_run L t sz ent 0)")
      case False
      then show ?thesis by blast
    next
      case True
      then have "f L t sz keys (snd (GenKey L t (Some sz) ent)) = Some y"
        using eq by (auto simp: collides_def split: prod.splits sum.splits)
      from ih [OF this] obtain i where "\<not> collides keys (gen_run L t sz ent (Suc i))" by auto
      then show ?thesis by blast
    qed
  qed
  with assms show False by blast
qed

lemma AddKey_ok:
  assumes "key_hash_id k = Inr h"
  shows "\<exists>kz'. AddKey r k kz = (Inr (), kz') \<and> kz_heap kz' = kz_heap kz \<and> kz_primary kz' = kz_primary kz
    \<and> kz_keys kz' = AList.update (HashId h) k (AList.update (VersionId r) k (kz_keys kz))
    \<and> kz_metadata kz' = snd (kmd_AddVersion (kz_heap kz) r (kz_metadata kz))
    \<and> kz_default_size kz' = kz_default_size kz"
  using assms by (simp add: AddKey_def Let_def)

lemma kmd_versions_AddVersion:
  "set (kmd_versions (snd (kmd_AddVersion h r m))) \<subseteq> insert r (set (kmd_versions m))"
  by (auto simp: kmd_versions_def kmd_AddVersion_def Let_def)

lemma AddKey_inv:
  assumes inv: "kz_inv kz" and r: "r < length (kz_heap kz)" and k: "key_hash_id k = Inr h"
    and fresh: "r \<notin> set (kz_versions kz)"
      "version_number (kz_heap kz ! r) \<notin> (\<lambda>v. version_number (kz_heap kz ! v)) ` set (kz_versions kz)"
    and p: "status (kz_heap kz ! r) = PRIMARY \<Longrightarrow> kz_primary kz = Some r"
  shows "kz_inv (snd (AddKey r k kz))"
proof -
  obtain kz' where a: "AddKey r k kz = (Inr (), kz')" "kz_heap kz' = kz_heap kz" "kz_primary kz' = kz_primary kz"
    "kz_keys kz' = AList.update (HashId h) k (AList.update (VersionId r) k (kz_keys kz))"
    "kz_metadata kz' = snd (kmd_AddVersion (kz_heap kz) r (kz_metadata kz))"
    using AddKey_ok [OF k] by blast
  have ok: "kmd_ok (kz_heap kz) (kz_metadata kz)" "dict_ok kz" "primary_ok kz"
    using inv by (simp_all add: kz_inv_def)
  have vs: "kz_versions kz' = kz_versions kz @ [r]"
    using fresh(1) by (simp add: kz_versions_def a(4) version_ids_update)
  have "primary_ok kz'"
  proof (rule primary_okI)
    fix i assume i: "i \<in> set (kmd_versions (kz_metadata kz'))" and st: "status (kz_heap kz' ! i) = PRIMARY"
    have "i = r \<or> i \<in> set (kmd_versions (kz_metadata kz))"
      using i kmd_versions_AddVersion by (auto simp: a(5))
    then show "kz_primary kz' = Some i"
      using p primary_okD(1) [OF ok(3), of i] st by (auto simp: a(2,3))
  qed (use primary_okD(2,3) [OF ok(3)] in \<open>simp_all add: a(2,3)\<close>)
  moreover have "dict_ok kz'"
    unfolding dict_ok_def vs a(2)
  proof (intro conjI allI impI)
    show "distinct (map fst (kz_keys kz'))"
      using ok(2) by (simp add: a(4) dict_ok_def distinct_update)
    fix i assume "VersionId i \<in> fst ` set (kz_keys kz')"
    then have "i \<in> set (kz_versions kz @ [r])" by (simp add: set_kz_versions [symmetric] vs)
    then show "i < length (kz_heap kz)"
      using ok(2) r by (auto simp: dict_ok_def set_kz_versions)
  next
    show "set (kmd_versions (kz_metadata kz')) \<subseteq> set (kz_versions kz @ [r])"
      using kmd_versions_AddVersion [of "kz_heap kz" r "kz_metadata kz"] ok(2)
      unfolding a(5) dict_ok_def by auto
    show "distinct (map (\<lambda>r. version_number (kz_heap kz ! r)) (kz_versions kz @ [r]))"
      using ok(2) fresh(2) by (simp add: dict_ok_def)
  qed
  moreover have "kmd_ok (kz_heap kz') (kz_metadata kz')"
    using kmd_ok_AddVersion [OF ok(1) r] by (simp add: a(2,5))
  ultimately show ?thesis by (simp add: kz_inv_def a(1))
qed

lemma new_version_fresh:
  assumes "dict_ok kz"
  shows "length (kz_heap kz) \<notin> set (kz_versions kz)"
    and "r \<in> set (kz_versions kz) \<Longrightarrow> version_number (kz_heap (new_version s kz) ! r) < max_version_number kz + 1"
proof -
  have l: "r \<in> set (kz_versions kz) \<Longrightarrow> r < length (kz_heap kz)" for r
    using assms by (simp add: dict_ok_def set_kz_versions)
  then show "length (kz_heap kz) \<notin> set (kz_versions kz)" by blast
  show "r \<in> set (kz_versions kz) \<Longrightarrow> version_number (kz_heap (new_version s kz) ! r) < max_version_number kz + 1"
    using l max_version_number_ge [of r kz] by (simp add: new_version_number(2))
qed

lemma AddVersion_inv:
  assumes inv: "kz_inv kz" and add: "AddVersion L s size0 (kz, ent) = Some (res, kz', ent')"
  shows "kz_inv kz'"
proof (cases "IsValidSize (kmd_type (kz_metadata kz)) (case size0 of None \<Rightarrow> kz_default_size kz | Some n \<Rightarrow> n)")
  case False
  then show ?thesis using AddVersion_invalid [OF False, of L s ent] add inv by auto
next
  case True
  let ?f = "fresh_key L (kmd_type (kz_metadata kz)) (case size0 of None \<Rightarrow> kz_default_size kz | Some n \<Rightarrow> n) (kz_keys kz) ent"
  obtain fr ent1 where f: "?f = Some (fr, ent1)"
    using add by (cases ?f) (auto simp: AddVersion_valid [OF True])
  note inv' = new_version_inv [OF inv, of s]
  show ?thesis
  proof (cases fr)
    case (Inl e)
    with add f inv' show ?thesis by (simp add: AddVersion_valid [OF True])
  next
    case (Inr k)
    obtain h where h: "key_hash_id k = Inr h" using fresh_key_spec f Inr by blast
    have d: "dict_ok kz" using inv by (simp add: kz_inv_def)
    have "kz_inv (snd (AddKey (length (kz_heap kz)) k (new_version s kz)))"
    proof (rule AddKey_inv [OF inv' _ h])
      show "length (kz_heap kz) \<notin> set (kz_versions (new_version s kz))"
        using new_version_fresh(1) [OF d] by simp
      show "version_number (kz_heap (new_version s kz) ! length (kz_heap kz))
          \<notin> (\<lambda>v. version_number (kz_heap (new_version s kz) ! v)) ` set (kz_versions (new_version s kz))"
        using new_version_fresh(2) [OF d, of _ s] by (auto simp: new_version_number(1)) fastforce
      assume "status (kz_heap (new_version s kz) ! length (kz_heap kz)) = PRIMARY"
      then show "kz_primary (new_version s kz) = Some (length (kz_heap kz))"
        using inv by (simp add: new_version_status kz_inv_def)
    qed simp
    then show ?thesis using add f Inr by (simp add: AddVersion_valid [OF True] split: prod.splits)
  qed
qed

end
