(* ===== verification/KeysetSpec.thy ===== *)
theory KeysetSpec
  imports Lifecycle
begin

text \<open>
  What a key set promises: loading establishes the invariant, the operations implement an
  abstract machine on the statuses of version numbers, and every reachable key set has at most
  one primary version.
\<close>

subsection \<open>The abstract machine\<close>

type_synonym statuses = "int \<Rightarrow> key_status option"

definition demote_old :: "statuses \<Rightarrow> statuses" where
  "demote_old M = (\<lambda>n. if M n = Some PRIMARY then Some ACTIVE else M n)"

definition spec_promote :: "int \<Rightarrow> statuses \<Rightarrow> statuses option" where
  "spec_promote n M = (case M n of
     Some ACTIVE \<Rightarrow> Some ((demote_old M)(n \<mapsto> PRIMARY))
   | Some INACTIVE \<Rightarrow> Some (M(n \<mapsto> ACTIVE)) | _ \<Rightarrow> None)"

definition spec_demote :: "int \<Rightarrow> statuses \<Rightarrow> statuses option" where
  "spec_demote n M = (case M n of
     Some PRIMARY \<Rightarrow> Some (M(n \<mapsto> ACTIVE)) | Some ACTIVE \<Rightarrow> Some (M(n \<mapsto> INACTIVE)) | _ \<Rightarrow> None)"

definition spec_revoke :: "int \<Rightarrow> statuses \<Rightarrow> statuses option" where
  "spec_revoke n M = (if M n = Some INACTIVE then Some (M(n := None)) else None)"

definition spec_add :: "int \<Rightarrow> key_status \<Rightarrow> statuses \<Rightarrow> statuses" where
  "spec_add n s M = (if s = PRIMARY then demote_old M else M)(n \<mapsto> s)"

definition single_primary :: "statuses \<Rightarrow> bool" where
  "single_primary M \<longleftrightarrow> (\<forall>m n. M m = Some PRIMARY \<longrightarrow> M n = Some PRIMARY \<longrightarrow> m = n)"

definition kz_statuses :: "keyczar \<Rightarrow> statuses" where
  "kz_statuses kz = (\<lambda>n. map_option (\<lambda>r. status (kz_heap kz ! r)) (kmd_find n (kz_metadata kz)))"

datatype life_op = OpPromote int | OpDemote int | OpRevoke int

fun run_op :: "life_op \<Rightarrow> (keyczar, exn, unit) st" where
  "run_op (OpPromote n) = Promote n"
| "run_op (OpDemote n) = Demote n"
| "run_op (OpRevoke n) = Revoke n"

fun spec_op :: "life_op \<Rightarrow> statuses \<Rightarrow> statuses option" where
  "spec_op (OpPromote n) = spec_promote n"
| "spec_op (OpDemote n) = spec_demote n"
| "spec_op (OpRevoke n) = spec_revoke n"

text \<open>A refused operation leaves everything as it was and raises an error of the library.\<close>

definition implements :: "((exn + unit) \<times> keyczar) \<Rightarrow> keyczar \<Rightarrow> statuses option \<Rightarrow> bool" where
  "implements out kz spec \<longleftrightarrow> (case out of
     (Inl e, kz') \<Rightarrow> spec = None \<and> kz' = kz \<and> is_keyczar_error e
   | (Inr u, kz') \<Rightarrow> spec = Some (kz_statuses kz'))"

lemma find_GetVersion: "kmd_find n m = (case kmd_GetVersion n m of Inl e \<Rightarrow> None | Inr r \<Rightarrow> Some r)"
  by (simp add: kmd_find_def)

lemma statuses_at:
  "kmd_GetVersion n (kz_metadata kz) = Inr r \<Longrightarrow> kz_statuses kz n = Some (status (kz_heap kz ! r))"
  "kmd_GetVersion n (kz_metadata kz) = Inl e \<Longrightarrow> kz_statuses kz n = None"
  by (simp_all add: kz_statuses_def find_GetVersion)

lemma GetVersion_error: "kmd_GetVersion n m = Inl e \<Longrightarrow> is_keyczar_error e"
  by (auto simp: kmd_GetVersion_def no_such_version_def split: option.splits)

lemma same_ref:
  assumes "kmd_ok h m" and "kmd_find n m = Some r" and "kmd_find n' m = Some r"
  shows "n = n'"
  using assms metadata_ref [OF assms(1)] by (auto simp: find_GetVersion split: sum.splits)

lemma same_ref_iff:
  "kmd_ok h m \<Longrightarrow> kmd_find n m = Some r \<Longrightarrow> kmd_find k m = Some i \<Longrightarrow> i = r \<longleftrightarrow> k = n"
  using same_ref by fastforce

lemma find_valid_ref: "kmd_ok h m \<Longrightarrow> kmd_find n m = Some r \<Longrightarrow> r < length h"
  using metadata_ref by (auto simp: find_GetVersion split: sum.splits)

lemma statuses_set_status:
  assumes "kmd_ok (kz_heap kz) (kz_metadata kz)" and "kmd_find n (kz_metadata kz) = Some r"
  shows "kz_statuses (kz_set_status r s kz) = (kz_statuses kz)(n \<mapsto> s)"
proof
  fix k
  show "kz_statuses (kz_set_status r s kz) k = ((kz_statuses kz)(n \<mapsto> s)) k"
  proof (cases "kmd_find k (kz_metadata kz)")
    case None
    with assms(2) show ?thesis by (auto simp: kz_statuses_def)
  next
    case (Some i)
    have "i = r \<longleftrightarrow> k = n" by (rule same_ref_iff [OF assms(1,2) Some])
    then show ?thesis
      using Some find_valid_ref [OF assms(1) Some] by (simp add: kz_statuses_def status_set_status)
  qed
qed

lemma statuses_primary:
  assumes "kz_inv kz"
  shows "kz_statuses kz n = Some PRIMARY \<longleftrightarrow>
     (\<exists>r. kmd_find n (kz_metadata kz) = Some r \<and> kz_primary kz = Some r)"
proof -
  have "primary_ok kz" "kmd_ok (kz_heap kz) (kz_metadata kz)" using assms by (simp_all add: kz_inv_def)
  note p = primary_okD [OF this(1)] and m = metadata_ref [OF this(2)]
  show ?thesis
    using p(1,3) m by (auto simp: kz_statuses_def find_GetVersion split: sum.splits)
qed

lemma inv_single_primary: "kz_inv kz \<Longrightarrow> single_primary (kz_statuses kz)"
  unfolding single_primary_def
  by (auto simp: statuses_primary kz_inv_def intro: same_ref)

lemma statuses_primary_key:
  assumes "kz_inv kz" and "kz_statuses kz n = Some PRIMARY"
  shows "\<exists>k. primary_key kz = Inr k"
proof -
  obtain r where r: "kmd_GetVersion n (kz_metadata kz) = Inr r" "kz_primary kz = Some r"
    using statuses_primary [OF assms(1)] assms(2) by (auto simp: find_GetVersion split: sum.splits)
  then have "r \<in> set (kz_versions kz)"
    using assms(1) metadata_ref by (auto simp: kz_inv_def dict_ok_def)
  then show ?thesis using GetKey_version r(2) by (simp add: primary_key_def primary_id_def)
qed

lemma statuses_make_primary:
  assumes inv: "kz_inv kz" and n: "kmd_find n (kz_metadata kz) = Some r" and p: "kz_primary kz \<noteq> Some r"
  shows "kz_statuses (make_primary r kz) = (demote_old (kz_statuses kz))(n \<mapsto> PRIMARY)"
proof
  fix k
  have ok: "kmd_ok (kz_heap kz) (kz_metadata kz)" "primary_ok kz" using inv by (simp_all add: kz_inv_def)
  show "kz_statuses (make_primary r kz) k = ((demote_old (kz_statuses kz))(n \<mapsto> PRIMARY)) k"
  proof (cases "kmd_find k (kz_metadata kz)")
    case None
    with n show ?thesis by (auto simp: kz_statuses_def demote_old_def)
  next
    case (Some i)
    have "i = r \<longleftrightarrow> k = n" by (rule same_ref_iff [OF ok(1) n Some])
    moreover have "kz_statuses kz k = Some PRIMARY \<longleftrightarrow> kz_primary kz = Some i"
      using statuses_primary [OF inv] Some by auto
    ultimately show ?thesis
      using Some find_valid_ref [OF ok(1) Some]
      by (auto simp: kz_statuses_def demote_old_def make_primary_status [OF _ p])
  qed
qed

lemma Promote_refines:
  assumes inv: "kz_inv kz"
  shows "implements (Promote n kz) kz (spec_promote n (kz_statuses kz))"
proof (cases "kmd_GetVersion n (kz_metadata kz)")
  case (Inl e)
  then show ?thesis
    using GetVersion_error by (simp add: implements_def Promote_def spec_promote_def statuses_at)
next
  case (Inr r)
  have f: "kmd_find n (kz_metadata kz) = Some r" using Inr by (simp add: find_GetVersion)
  have ok: "kmd_ok (kz_heap kz) (kz_metadata kz)" "primary_ok kz" using inv by (simp_all add: kz_inv_def)
  show ?thesis
  proof (cases "status (kz_heap kz ! r)")
    case PRIMARY
    then show ?thesis using Inr
      by (simp add: implements_def Promote_cases spec_promote_def statuses_at)
  next
    case ACTIVE
    then have "kz_primary kz \<noteq> Some r" using primary_okD(3) [OF ok(2)] by auto
    then show ?thesis using ACTIVE Inr statuses_make_primary [OF inv f]
      by (simp add: implements_def Promote_cases spec_promote_def statuses_at)
  next
    case INACTIVE
    then show ?thesis using Inr statuses_set_status [OF ok(1) f]
      by (simp add: implements_def Promote_cases spec_promote_def statuses_at)
  qed
qed

lemma Demote_refines:
  assumes inv: "kz_inv kz"
  shows "implements (Demote n kz) kz (spec_demote n (kz_statuses kz))"
proof (cases "kmd_GetVersion n (kz_metadata kz)")
  case (Inl e)
  then show ?thesis
    using GetVersion_error by (simp add: implements_def Demote_def spec_demote_def statuses_at)
next
  case (Inr r)
  have f: "kmd_find n (kz_metadata kz) = Some r" using Inr by (simp add: find_GetVersion)
  have ok: "kmd_ok (kz_heap kz) (kz_metadata kz)" using inv by (simp add: kz_inv_def)
  have p: "kz_statuses (kz\<lparr>kz_primary := q\<rparr>) = kz_statuses kz" for q kz by (simp add: kz_statuses_def)
  show ?thesis
    using Inr statuses_set_status [OF ok f]
    by (simp add: implements_def Demote_def spec_demote_def statuses_at p split: key_status.split)
qed

lemma Revoke_refines:
  assumes inv: "kz_inv kz"
  shows "implements (Revoke n kz) kz (spec_revoke n (kz_statuses kz))"
proof (cases "kmd_GetVersion n (kz_metadata kz)")
  case (Inl e)
  then show ?thesis
    using GetVersion_error by (simp add: implements_def Revoke_def spec_revoke_def statuses_at)
next
  case (Inr r)
  have f: "kmd_find n (kz_metadata kz) = Some r" using Inr by (simp add: find_GetVersion)
  show ?thesis
  proof (cases "status (kz_heap kz ! r) = INACTIVE")
    case False
    then show ?thesis using Inr by (simp add: implements_def Revoke_def spec_revoke_def statuses_at)
  next
    case True
    have "kmd_drop n (kz_metadata kz) \<noteq> None" using f versions.remove_result by simp
    then obtain m where m: "kmd_RemoveVersion n (kz_metadata kz) = (Inr (), m)" "kmd_drop n (kz_metadata kz) = Some m"
      by (auto simp: kmd_drop_def split: prod.splits sum.splits)
    have "distinct (map fst (version_dict (kz_metadata kz)))" using inv by (simp add: kz_inv_def kmd_ok_def)
    then have "kmd_find k m = (if k = n then None else kmd_find k (kz_metadata kz))" for k
      using versions.get_remove m(2) by blast
    then have "kz_statuses (kz\<lparr>kz_metadata := m\<rparr>) = (kz_statuses kz)(n := None)"
      by (auto simp: kz_statuses_def)
    then show ?thesis using True Inr m(1)
      by (simp add: implements_def Revoke_def spec_revoke_def statuses_at)
  qed
qed

lemma run_op_refines: "kz_inv kz \<Longrightarrow> implements (run_op p kz) kz (spec_op p (kz_statuses kz))"
  by (cases p) (simp_all add: Promote_refines Demote_refines Revoke_refines)

lemma run_op_inv: "kz_inv kz \<Longrightarrow> kz_inv (snd (run_op p kz))"
  by (cases p) (simp_all add: Promote_inv Demote_inv Revoke_inv)

lemma run_op_keys: "kz_keys (snd (run_op p kz)) = kz_keys kz"
proof -
  have "kz_keys (snd (Promote n kz)) = kz_keys kz" for n
    by (simp add: Promote_def Let_def split: sum.split key_status.split option.split)
  moreover have "kz_keys (snd (Demote n kz)) = kz_keys kz" for n
    by (simp add: Demote_def split: sum.split key_status.split)
  moreover have "kz_keys (snd (Revoke n kz)) = kz_keys kz" for n
    by (simp add: Revoke_def split: sum.split prod.split)
  ultimately show ?thesis by (cases p) simp_all
qed

text \<open>A sequence of operations, the refused ones skipped, does the same on both levels.\<close>

fun run_ops :: "life_op list \<Rightarrow> keyczar \<Rightarrow> keyczar" where
  "run_ops [] kz = kz"
| "run_ops (p # ps) kz = run_ops ps (snd (run_op p kz))"

fun spec_ops :: "life_op list \<Rightarrow> statuses \<Rightarrow> statuses" where
  "spec_ops [] M = M"
| "spec_ops (p # ps) M = spec_ops ps (case spec_op p M of None \<Rightarrow> M | Some M' \<Rightarrow> M')"

lemma run_ops_refines:
  "kz_inv kz \<Longrightarrow> kz_statuses (run_ops ps kz) = spec_ops ps (kz_statuses kz) \<and> kz_inv (run_ops ps kz)"
proof (induction ps arbitrary: kz)
  case (Cons p ps)
  have "kz_statuses (snd (run_op p kz)) = (case spec_op p (kz_statuses kz) of None \<Rightarrow> kz_statuses kz | Some M' \<Rightarrow> M')"
    using run_op_refines [OF Cons.prems, of p]
    by (auto simp: implements_def split: prod.splits sum.splits)
  with Cons.IH [OF run_op_inv [OF Cons.prems, of p]] show ?case by simp
qed simp

subsection \<open>What AddVersion promises\<close>

lemma statuses_new_version:
  assumes inv: "kz_inv kz"
  shows "kz_statuses (new_version s kz) = (if s = PRIMARY then demote_old (kz_statuses kz) else kz_statuses kz)"
proof
  fix k
  have ok: "kmd_ok (kz_heap kz) (kz_metadata kz)" "primary_ok kz" using inv by (simp_all add: kz_inv_def)
  show "kz_statuses (new_version s kz) k
      = (if s = PRIMARY then demote_old (kz_statuses kz) else kz_statuses kz) k"
  proof (cases "kmd_find k (kz_metadata kz)")
    case None
    then show ?thesis by (simp add: kz_statuses_def demote_old_def)
  next
    case (Some i)
    have i: "i < length (kz_heap kz)" by (rule find_valid_ref [OF ok(1) Some])
    have "kz_statuses kz k = Some PRIMARY \<longleftrightarrow> kz_primary kz = Some i"
      using statuses_primary [OF inv] Some by auto
    then show ?thesis
      using Some i by (auto simp: kz_statuses_def demote_old_def new_version_status [OF ok(2)])
  qed
qed

lemma kz_statuses_cong: "kz_heap kz' = kz_heap kz \<Longrightarrow> kz_statuses kz' =
    (\<lambda>n. map_option (\<lambda>r. status (kz_heap kz ! r)) (kmd_find n (kz_metadata kz')))"
  by (simp add: kz_statuses_def)

lemma AddVersion_success:
  assumes inv: "kz_inv kz" and add: "AddVersion L s size0 (kz, ent) = Some (Inr (), kz', ent')"
  shows "\<exists>k h. key_type_of k = kmd_type (kz_metadata kz) \<and> key_hash_id k = Inr h
     \<and> map_of (kz_keys kz) (HashId h) = None
     \<and> map_of (kz_keys kz') = (map_of (kz_keys kz))(VersionId (length (kz_heap kz)) \<mapsto> k, HashId h \<mapsto> k)
     \<and> kz_statuses kz' = spec_add (max_version_number kz + 1) s (kz_statuses kz)
     \<and> kz_statuses kz (max_version_number kz + 1) = None
     \<and> kz_primary kz' = (if s = PRIMARY then Some (length (kz_heap kz)) else kz_primary kz)"
proof (cases "IsValidSize (kmd_type (kz_metadata kz)) (case size0 of None \<Rightarrow> kz_default_size kz | Some n \<Rightarrow> n)")
  case False
  then show ?thesis using AddVersion_invalid [OF False, of L s ent] add by auto
next
  case True
  let ?f = "fresh_key L (kmd_type (kz_metadata kz)) (case size0 of None \<Rightarrow> kz_default_size kz | Some n \<Rightarrow> n) (kz_keys kz) ent"
  let ?r = "length (kz_heap kz)" and ?n = "max_version_number kz + 1" and ?nv = "new_version s kz"
  obtain k ent1 where f: "?f = Some (Inr k, ent1)"
    using add by (cases ?f) (auto simp: AddVersion_valid [OF True] split: sum.splits)
  obtain h where h: "key_type_of k = kmd_type (kz_metadata kz)" "key_hash_id k = Inr h"
      "map_of (kz_keys kz) (HashId h) = None"
    using fresh_key_spec [OF f] by blast
  obtain a where a: "AddKey ?r k ?nv = (Inr (), a)" "kz_heap a = kz_heap ?nv" "kz_primary a = kz_primary ?nv"
    "kz_keys a = AList.update (HashId h) k (AList.update (VersionId ?r) k (kz_keys ?nv))"
    "kz_metadata a = snd (kmd_AddVersion (kz_heap ?nv) ?r (kz_metadata ?nv))"
    using AddKey_ok [OF h(2)] by blast
  have kz': "kz' = a" using add f a(1) by (simp add: AddVersion_valid [OF True])
  have ok: "kmd_ok (kz_heap kz) (kz_metadata kz)" "dict_ok kz" using inv by (simp_all add: kz_inv_def)
  have none: "kmd_find ?n (kz_metadata kz) = None"
  proof (rule ccontr)
    assume "kmd_find ?n (kz_metadata kz) \<noteq> None"
    then obtain i where "kmd_GetVersion ?n (kz_metadata kz) = Inr i" by (auto simp: find_GetVersion split: sum.splits)
    then have "i \<in> set (kmd_versions (kz_metadata kz))" "version_number (kz_heap kz ! i) = ?n"
      using metadata_ref [OF ok(1)] by blast+
    then show False using max_version_number_ge [of i kz] ok(2) by (auto simp: dict_ok_def)
  qed
  have "kmd_find m (kz_metadata a) = (if m = ?n then Some ?r else kmd_find m (kz_metadata kz))" for m
    using versions.get_add [of m "kz_heap ?nv" ?r "kz_metadata kz"] none
    by (simp add: a(5) new_version_number(1))
  then have "kz_statuses a = (kz_statuses ?nv)(?n \<mapsto> status (kz_heap ?nv ! ?r))"
    by (auto simp: kz_statuses_def a(2))
  moreover have "status (kz_heap ?nv ! ?r) = s"
    using inv by (simp add: new_version_status kz_inv_def)
  ultimately have "kz_statuses a = spec_add ?n s (kz_statuses kz)"
    by (simp add: spec_add_def statuses_new_version [OF inv])
  moreover have "map_of (kz_keys a) = (map_of (kz_keys kz))(VersionId ?r \<mapsto> k, HashId h \<mapsto> k)"
    by (simp add: a(4) update_conv')
  moreover have "kz_statuses kz ?n = None" using none by (simp add: kz_statuses_def)
  ultimately show ?thesis using h kz' a(3) by (intro exI [of _ k] exI [of _ h]) simp
qed

lemma AddVersion_hash_ok:
  assumes inv: "kz_inv kz" and h: "hash_ok kz" and add: "AddVersion L s size0 (kz, ent) = Some (Inr (), kz', ent')"
  shows "hash_ok kz'"
proof -
  obtain k x where k: "key_hash_id k = Inr x" "map_of (kz_keys kz) (HashId x) = None"
    "map_of (kz_keys kz') = (map_of (kz_keys kz))(VersionId (length (kz_heap kz)) \<mapsto> k, HashId x \<mapsto> k)"
    using AddVersion_success [OF inv add] by blast
  show ?thesis
    unfolding hash_ok_def k(3)
  proof (intro allI impI)
    fix r k' assume r: "((map_of (kz_keys kz))(VersionId (length (kz_heap kz)) \<mapsto> k, HashId x \<mapsto> k)) (VersionId r) = Some k'"
    show "\<exists>h. key_hash_id k' = Inr h \<and>
        ((map_of (kz_keys kz))(VersionId (length (kz_heap kz)) \<mapsto> k, HashId x \<mapsto> k)) (HashId h) = Some k'"
    proof (cases "r = length (kz_heap kz)")
      case True
      then show ?thesis using r k(1) by auto
    next
      case False
      with r have "map_of (kz_keys kz) (VersionId r) = Some k'" by simp
      with h obtain y where "key_hash_id k' = Inr y" "map_of (kz_keys kz) (HashId y) = Some k'"
        unfolding hash_ok_def by blast
      moreover have "y \<noteq> x" using k(2) calculation(2) by auto
      ultimately show ?thesis by auto
    qed
  qed
qed

text \<open>
  Public keys are not generated: on a public key set the call fails, but only after the old
  primary version has been demoted and replaced by a version that has no key.
\<close>

lemma AddVersion_public:
  assumes inv: "kz_inv kz" and t: "kmd_type (kz_metadata kz) = DSA_PUB \<or> kmd_type (kz_metadata kz) = RSA_PUB"
    and sz: "IsValidSize (kmd_type (kz_metadata kz)) (case size0 of None \<Rightarrow> kz_default_size kz | Some n \<Rightarrow> n)"
  shows "\<exists>m. AddVersion L PRIMARY size0 (kz, ent) = Some (Inl (KeyczarError m), new_version PRIMARY kz, ent)
    \<and> kz_statuses (new_version PRIMARY kz) = demote_old (kz_statuses kz)
    \<and> primary_key (new_version PRIMARY kz) = Inl (KeyNotFoundError (VersionId (length (kz_heap kz))))"
proof -
  have "fresh_key L (kmd_type (kz_metadata kz)) n (kz_keys kz) ent = Some (Inl (KeyczarError
      (''Public keys of key_type '' @ type_name (kmd_type (kz_metadata kz)) @ '' must be exported from private keys.'')), ent)"
    if "IsValidSize (kmd_type (kz_metadata kz)) n" for n
    using GenKey_public [OF t that, of L ent] by (subst fresh_key.simps) simp
  from this [OF sz] have "\<exists>m. AddVersion L PRIMARY size0 (kz, ent) = Some (Inl (KeyczarError m), new_version PRIMARY kz, ent)"
    by (simp add: AddVersion_valid [OF sz])
  moreover have "length (kz_heap kz) \<notin> set (kz_versions kz)"
    using inv new_version_fresh(1) by (simp add: kz_inv_def)
  then have "primary_key (new_version PRIMARY kz) = Inl (KeyNotFoundError (VersionId (length (kz_heap kz))))"
    by (simp add: primary_key_def primary_id_def GetKey_def set_kz_versions map_of_eq_None_iff split: option.split)
  ultimately show ?thesis using statuses_new_version [OF inv] by auto
qed

end
