(* ===== verification/KeysetIO.thy ===== *)
theory KeysetIO
  imports KeysetSpec
begin

text \<open>
  Loading a key set establishes the invariant, all later states keep it, and a key set written
  to a location is read back from it: the same metadata and the same keys.
\<close>

subsection \<open>Loading\<close>

lemma Read_class_type: "Read_class t s = Inr k \<Longrightarrow> key_type_of k = t"
  by (cases t) (auto simp: ebind_Inr_conv)

lemma ReadKey_type: "ReadKey t s = Inr k \<Longrightarrow> key_type_of k = t"
  by (auto simp: ReadKey_def Read_class_type split: sum.splits if_splits)

text \<open>What one turn of the loop does, once it succeeds.\<close>

lemma load_keys_Cons:
  assumes "load_keys rd (r # rs) kz = Inr kz'"
  obtains tx k h where "rd_GetKey rd (version_number (kz_heap kz ! r)) = Inr tx"
    "ReadKey (kmd_type (kz_metadata kz)) tx = Inr k" "key_hash_id k = Inr h"
    "status (kz_heap kz ! r) = PRIMARY \<longrightarrow> kz_primary kz = None"
    "load_keys rd rs (kz\<lparr>kz_primary := (if status (kz_heap kz ! r) = PRIMARY then Some r else kz_primary kz),
       kz_keys := AList.update (HashId h) k (AList.update (VersionId r) k (kz_keys kz))\<rparr>) = Inr kz'"
proof -
  let ?kz1 = "kz\<lparr>kz_primary := (if status (kz_heap kz ! r) = PRIMARY then Some r else kz_primary kz)\<rparr>"
  from assms obtain kz1 tx k h where *: "kz1 = ?kz1"
    "status (kz_heap kz ! r) = PRIMARY \<longrightarrow> kz_primary kz = None"
    "rd_GetKey rd (version_number (kz_heap kz ! r)) = Inr tx"
    "ReadKey (kmd_type (kz_metadata kz)) tx = Inr k" "key_hash_id k = Inr h"
    "load_keys rd rs (kz1\<lparr>kz_keys := AList.update (HashId h) k (AList.update (VersionId r) k (kz_keys kz1))\<rparr>) = Inr kz'"
    by (auto simp: ebind_Inr_conv split: if_splits)
  then show ?thesis using that by simp
qed

lemma load_keys_frame:
  "load_keys rd rs kz = Inr kz' \<Longrightarrow> kz_heap kz' = kz_heap kz \<and> kz_metadata kz' = kz_metadata kz
     \<and> kz_default_size kz' = kz_default_size kz"
proof (induction rs arbitrary: kz)
  case (Cons r rs)
  from Cons.prems show ?case by (rule load_keys_Cons) (use Cons.IH in fastforce)
qed simp

lemma load_keys_primary:
  "load_keys rd rs kz = Inr kz' \<Longrightarrow>
     (\<forall>p. kz_primary kz = Some p \<longrightarrow> kz_primary kz' = Some p)
   \<and> (\<forall>r \<in> set rs. status (kz_heap kz ! r) = PRIMARY \<longrightarrow> kz_primary kz' = Some r)
   \<and> (\<forall>p. kz_primary kz' = Some p \<longrightarrow> kz_primary kz = Some p \<or> p \<in> set rs \<and> status (kz_heap kz ! p) = PRIMARY)"
proof (induction rs arbitrary: kz)
  case (Cons r rs)
  from Cons.prems obtain tx k h where s: "status (kz_heap kz ! r) = PRIMARY \<longrightarrow> kz_primary kz = None"
    and l: "load_keys rd rs (kz\<lparr>kz_primary := (if status (kz_heap kz ! r) = PRIMARY then Some r else kz_primary kz),
       kz_keys := AList.update (HashId h) k (AList.update (VersionId r) k (kz_keys kz))\<rparr>) = Inr kz'"
    by (rule load_keys_Cons)
  from Cons.IH [OF l] s show ?case by (cases "status (kz_heap kz ! r) = PRIMARY") auto
qed simp

lemma load_keys_dict:
  assumes "load_keys rd rs kz = Inr kz'" and "distinct rs" and "set rs \<inter> set (kz_versions kz) = {}"
    and "distinct (map fst (kz_keys kz))"
  shows "distinct (map fst (kz_keys kz')) \<and> kz_versions kz' = kz_versions kz @ rs"
  using assms
proof (induction rs arbitrary: kz)
  case (Cons r rs)
  from Cons.prems(1) obtain tx k h where
    l: "load_keys rd rs (kz\<lparr>kz_primary := (if status (kz_heap kz ! r) = PRIMARY then Some r else kz_primary kz),
       kz_keys := AList.update (HashId h) k (AList.update (VersionId r) k (kz_keys kz))\<rparr>) = Inr kz'"
    by (rule load_keys_Cons)
  have "r \<notin> set (version_ids (kz_keys kz))" using Cons.prems(3) by (simp add: kz_versions_def)
  then have "version_ids (AList.update (VersionId r) k (kz_keys kz)) = version_ids (kz_keys kz) @ [r]"
    by (simp add: version_ids_update)
  with Cons.IH [OF l] Cons.prems show ?case by (simp add: kz_versions_def distinct_update)
qed simp

lemma load_keys_types:
  assumes "load_keys rd rs kz = Inr kz'" and "types_ok kz"
  shows "types_ok kz'"
  using assms
proof (induction rs arbitrary: kz)
  case (Cons r rs)
  from Cons.prems(1) obtain tx k h where k: "ReadKey (kmd_type (kz_metadata kz)) tx = Inr k" and
    l: "load_keys rd rs (kz\<lparr>kz_primary := (if status (kz_heap kz ! r) = PRIMARY then Some r else kz_primary kz),
       kz_keys := AList.update (HashId h) k (AList.update (VersionId r) k (kz_keys kz))\<rparr>) = Inr kz'"
    by (rule load_keys_Cons)
  have u: "set (AList.update i k es) \<subseteq> insert (i, k) (set es)" for i es
    by (induction es) auto
  have "types_ok (kz\<lparr>kz_primary := (if status (kz_heap kz ! r) = PRIMARY then Some r else kz_primary kz),
       kz_keys := AList.update (HashId h) k (AList.update (VersionId r) k (kz_keys kz))\<rparr>)"
    using Cons.prems(2) ReadKey_type [OF k] u [of "HashId h"] u [of "VersionId r" "kz_keys kz"]
    unfolding types_ok_def by fastforce
  with Cons.IH [OF l] show ?case by blast
qed simp

lemma read_versions_kmd_ok:
  "kmd_ok h m \<Longrightarrow> read_versions js m h = (Inr m', h') \<Longrightarrow> kmd_ok h' m'"
proof (induction js arbitrary: h m)
  case Nil
  then show ?case by (simp add: sret_def)
next
  case (Cons j js)
  obtain v where "KeyVersion_Read j = Inr v"
    and r: "read_versions js (snd (kmd_AddVersion (h @ [v]) (length h) m)) (h @ [v]) = (Inr m', h')"
    using Cons.prems(2) by (auto simp: sbind_def slift_def alloc_def sget_def split: sum.splits prod.splits)
  have "kmd_ok (h @ [v]) (snd (kmd_AddVersion (h @ [v]) (length h) m))"
    using Cons.prems(1) by (intro kmd_ok_AddVersion kmd_ok_alloc) simp_all
  from Cons.IH [OF this r] show ?case .
qed

lemma KeyMetadata_Read_ok:
  assumes "KeyMetadata_Read tx h = (Inr m, h')"
  shows "kmd_ok h' m"
proof -
  obtain js name p t enc where "read_versions js (KeyMetadata_init name p t enc) h = (Inr m, h')"
    using assms by (auto simp: KeyMetadata_Read_def sbind_def slift_def ebind_Inr_conv split: prod.splits sum.splits)
  then show ?thesis by (rule read_versions_kmd_ok [OF kmd_ok_init])
qed

lemma Keyczar_init_cases:
  assumes "Keyczar_init acc rd = Inr kz"
  obtains tx kmd h where "rd_GetMetadata rd = Inr tx" "KeyMetadata_Read tx [] = (Inr kmd, h)"
    "acc (purpose kmd)" "encrypted kmd \<longrightarrow> rd_encrypted rd"
    "load_keys rd (kmd_versions kmd) \<lparr>kz_heap = h, kz_metadata = kmd, kz_keys = [], kz_primary = None,
       kz_default_size = default_size (kmd_type kmd)\<rparr> = Inr kz"
proof -
  obtain tx where tx: "rd_GetMetadata rd = Inr tx"
    using assms by (auto simp: Keyczar_init_def ebind_Inr_conv)
  obtain res h where r: "KeyMetadata_Read tx [] = (res, h)" by (cases "KeyMetadata_Read tx []")
  obtain kmd where kmd: "res = Inr kmd" using assms by (cases res) (auto simp: Keyczar_init_def tx r)
  show ?thesis
    using that [OF tx] r assms unfolding Keyczar_init_def tx kmd by (simp add: r kmd split: if_splits)
qed

lemma Keyczar_init_inv:
  assumes "Keyczar_init acc rd = Inr kz"
  shows "kz_inv kz" and "types_ok kz" and "acc (purpose (kz_metadata kz))"
    and "kz_default_size kz = default_size (kmd_type (kz_metadata kz))"
proof -
  obtain tx kmd h where m: "KeyMetadata_Read tx [] = (Inr kmd, h)" and p: "acc (purpose kmd)"
    and l: "load_keys rd (kmd_versions kmd) \<lparr>kz_heap = h, kz_metadata = kmd, kz_keys = [], kz_primary = None,
       kz_default_size = default_size (kmd_type kmd)\<rparr> = Inr kz"
    using assms by (rule Keyczar_init_cases)
  let ?kz0 = "\<lparr>kz_heap = h, kz_metadata = kmd, kz_keys = [], kz_primary = None,
       kz_default_size = default_size (kmd_type kmd)\<rparr>"
  note ok = KeyMetadata_Read_ok [OF m]
  have fr: "kz_heap kz = h" "kz_metadata kz = kmd" "kz_default_size kz = default_size (kmd_type kmd)"
    using load_keys_frame [OF l] by simp_all
  have d: "distinct (map fst (kz_keys kz)) \<and> kz_versions kz = kmd_versions kmd"
    using load_keys_dict [OF l kmd_versions_distinct [OF ok]] by (simp add: kz_versions_def)
  have valid: "r \<in> set (kmd_versions kmd) \<Longrightarrow> r < length h" for r
    by (rule metadata_refs_valid [OF ok])
  have numbers: "map (\<lambda>r. version_number (h ! r)) (kmd_versions kmd) = map fst (version_dict kmd)"
    using ok by (auto simp: kmd_ok_def kmd_versions_def)
  have "distinct (map fst (version_dict kmd))" using ok by (simp add: kmd_ok_def)
  then have "dict_ok kz"
    using d fr valid unfolding dict_ok_def set_kz_versions [symmetric] by (simp add: numbers)
  moreover have "primary_ok kz"
  proof (rule primary_okI)
    note p = load_keys_primary [OF l, simplified]
    show "kz_primary kz = Some r" if "r \<in> set (kmd_versions (kz_metadata kz))" "status (kz_heap kz ! r) = PRIMARY" for r
      using p that unfolding fr by blast
    have "r \<in> set (kmd_versions kmd) \<and> status (h ! r) = PRIMARY" if "kz_primary kz = Some r" for r
      using p that by blast
    then show "r < length (kz_heap kz)" and "status (kz_heap kz ! r) = PRIMARY" if "kz_primary kz = Some r" for r
      using that valid unfolding fr by blast+
  qed
  ultimately show "kz_inv kz" using ok fr by (simp add: kz_inv_def)
  show "types_ok kz" by (rule load_keys_types [OF l]) (simp add: types_ok_def)
  show "acc (purpose (kz_metadata kz))" and "kz_default_size kz = default_size (kmd_type (kz_metadata kz))"
    using p fr by simp_all
qed

subsection \<open>Reachable key sets\<close>

inductive kz_step :: "crypto \<Rightarrow> keyczar \<times> entropy \<Rightarrow> keyczar \<times> entropy \<Rightarrow> bool" for L where
  step_add: "AddVersion L s n (kz, ent) = Some (res, kz', ent') \<Longrightarrow> kz_step L (kz, ent) (kz', ent')"
| step_op: "run_op p kz = (res, kz') \<Longrightarrow> kz_step L (kz, ent) (kz', ent)"

inductive kz_reachable :: "crypto \<Rightarrow> keyczar \<times> entropy \<Rightarrow> bool" for L where
  reach_load: "Keyczar_init acc rd = Inr kz \<Longrightarrow> kz_reachable L (kz, ent)"
| reach_step: "kz_reachable L st \<Longrightarrow> kz_step L st st' \<Longrightarrow> kz_reachable L st'"

inductive_cases kz_stepE: "kz_step L (kz, ent) (kz', ent')"

lemma kz_step_inv: "kz_step L st st' \<Longrightarrow> kz_inv (fst st) \<Longrightarrow> kz_inv (fst st')"
proof (induction rule: kz_step.induct)
  case (step_add s n kz ent res kz' ent')
  then show ?case using AddVersion_inv by simp
next
  case (step_op p kz res kz' ent)
  then show ?case using run_op_inv [of kz p] by simp
qed

lemma kz_reachable_inv: "kz_reachable L st \<Longrightarrow> kz_inv (fst st)"
proof (induction rule: kz_reachable.induct)
  case (reach_load acc rd kz ent)
  then show ?case using Keyczar_init_inv(1) by simp
next
  case (reach_step st st')
  then show ?case using kz_step_inv by blast
qed

text \<open>No step loses a key: revoked versions stay in memory until the set is read again.\<close>

lemma AddVersion_failed_keys:
  assumes "AddVersion L s n (kz, ent) = Some (Inl e, kz', ent')"
  shows "kz_keys kz' = kz_keys kz"
proof (cases "IsValidSize (kmd_type (kz_metadata kz)) (case n of None \<Rightarrow> kz_default_size kz | Some m \<Rightarrow> m)")
  case False
  then show ?thesis using AddVersion_invalid [OF False, of L s ent] assms by auto
next
  case True
  let ?f = "fresh_key L (kmd_type (kz_metadata kz)) (case n of None \<Rightarrow> kz_default_size kz | Some m \<Rightarrow> m) (kz_keys kz) ent"
  obtain fr ent1 where f: "?f = Some (fr, ent1)"
    using assms by (cases ?f) (auto simp: AddVersion_valid [OF True])
  show ?thesis
  proof (cases fr)
    case (Inl e')
    then show ?thesis using assms f by (auto simp: AddVersion_valid [OF True])
  next
    case (Inr k)
    obtain h where "key_hash_id k = Inr h" using fresh_key_spec f Inr by blast
    from AddKey_ok [OF this, of "length (kz_heap kz)" "new_version s kz"] show ?thesis
      using assms f Inr by (auto simp: AddVersion_valid [OF True] split: prod.splits)
  qed
qed

lemma kz_step_keeps_keys:
  assumes "kz_step L st st'" and inv: "kz_inv (fst st)" and "map_of (kz_keys (fst st)) i = Some k"
  shows "map_of (kz_keys (fst st')) i = Some k"
  using assms
proof (induction rule: kz_step.induct)
  case (step_op p kz res kz' ent)
  then show ?case using run_op_keys [of p kz] by simp
next
  case (step_add s n kz ent res kz' ent')
  show ?case
  proof (cases res)
    case (Inl e)
    then show ?thesis using AddVersion_failed_keys step_add by auto
  next
    case (Inr u)
    then have "AddVersion L s n (kz, ent) = Some (Inr (), kz', ent')" using step_add(1) by simp
    moreover have "kz_inv kz" using step_add(2) by simp
    ultimately obtain k' h where a: "map_of (kz_keys kz) (HashId h) = None"
      "map_of (kz_keys kz') = (map_of (kz_keys kz))(VersionId (length (kz_heap kz)) \<mapsto> k', HashId h \<mapsto> k')"
      using AddVersion_success by blast
    have "length (kz_heap kz) \<notin> set (kz_versions kz)"
      using step_add(2) new_version_fresh(1) by (simp add: kz_inv_def)
    then have "map_of (kz_keys kz) (VersionId (length (kz_heap kz))) = None"
      by (simp add: set_kz_versions map_of_eq_None_iff)
    then show ?thesis using a step_add(3) by auto
  qed
qed

lemma kz_steps_keep_keys:
  assumes "(kz_step L)\<^sup>*\<^sup>* st st'" and "kz_inv (fst st)" and "map_of (kz_keys (fst st)) i = Some k"
  shows "kz_inv (fst st') \<and> map_of (kz_keys (fst st')) i = Some k"
  using assms(1)
proof (induction rule: rtranclp_induct)
  case (step y z)
  then show ?case using kz_step_inv kz_step_keeps_keys by blast
qed (use assms(2,3) in simp)

subsection \<open>Writing and reading back\<close>

text \<open>
  A complete key set: its keys are of its type and can be written. Revoked versions may still be
  among the keys.
\<close>

definition kz_complete :: "keyczar \<Rightarrow> bool" where
  "kz_complete kz \<longleftrightarrow> kz_inv kz \<and> types_ok kz \<and> hash_ok kz
     \<and> (\<forall>(i, k) \<in> set (kz_keys kz). key_ok k)"

lemma GetKey_complete:
  assumes "kz_complete kz" and "r \<in> set (kz_versions kz)"
  obtains k s h where "GetKey kz (VersionId r) = Inr k" "key_str k = Inr s"
    "ReadKey (kmd_type (kz_metadata kz)) s = Inr k" "key_hash_id k = Inr h"
proof -
  obtain k where k: "map_of (kz_keys kz) (VersionId r) = Some k"
    using assms(2) by (auto simp: set_kz_versions) (metis assms(2) map_of_eq_None_iff not_None_eq set_kz_versions)
  then have "(VersionId r, k) \<in> set (kz_keys kz)" by (rule map_of_SomeD)
  then have ok: "key_ok k" and t: "key_type_of k = kmd_type (kz_metadata kz)"
    using assms(1) by (auto simp: kz_complete_def types_ok_def)
  obtain h where "key_hash_id k = Inr h" using assms(1) k unfolding kz_complete_def hash_ok_def by blast
  moreover obtain s where "key_str k = Inr s" "ReadKey (key_type_of k) s = Inr k"
    using ReadKey_str [OF ok] by (auto simp: ebind_Inr_conv)
  ultimately show ?thesis using that k t by (simp add: GetKey_def)
qed

lemma complete_keys:
  assumes "kz_complete kz"
  shows "\<exists>k s h. \<forall>r \<in> set (kz_versions kz). GetKey kz (VersionId r) = Inr (k r) \<and> key_str (k r) = Inr (s r)
     \<and> ReadKey (kmd_type (kz_metadata kz)) (s r) = Inr (k r) \<and> key_hash_id (k r) = Inr (h r)"
proof -
  have "\<exists>x. GetKey kz (VersionId r) = Inr (fst x) \<and> key_str (fst x) = Inr (fst (snd x))
      \<and> ReadKey (kmd_type (kz_metadata kz)) (fst (snd x)) = Inr (fst x) \<and> key_hash_id (fst x) = Inr (snd (snd x))"
    if r: "r \<in> set (kz_versions kz)" for r
    by (rule GetKey_complete [OF assms r]) fastforce
  then obtain x where x: "\<forall>r \<in> set (kz_versions kz). GetKey kz (VersionId r) = Inr (fst (x r))
      \<and> key_str (fst (x r)) = Inr (fst (snd (x r)))
      \<and> ReadKey (kmd_type (kz_metadata kz)) (fst (snd (x r))) = Inr (fst (x r))
      \<and> key_hash_id (fst (x r)) = Inr (snd (snd (x r)))"
    by metis
  show ?thesis
    by (rule exI [of _ "\<lambda>r. fst (x r)"], rule exI [of _ "\<lambda>r. fst (snd (x r))"],
        rule exI [of _ "\<lambda>r. snd (snd (x r))"]) (rule x)
qed

text \<open>The paths of a location that may be written.\<close>

definition loc_open :: "fs \<Rightarrow> string \<Rightarrow> bool" where
  "loc_open f loc \<longleftrightarrow> (\<forall>name. fs_opens f (path_join loc name) \<and> path_join loc name \<notin> set (fs_dirs f))"

definition enc_pair :: "encrypt_fun option \<Rightarrow> (bytes \<Rightarrow> exn + bytes) \<Rightarrow> bool" where
  "enc_pair encrypter dec \<longleftrightarrow> (case encrypter of None \<Rightarrow> True
     | Some enc \<Rightarrow> \<forall>s ent. \<exists>c ent'. enc s ent = (Inr c, ent') \<and> dec c = Inr s)"

definition loc_reader :: "encrypt_fun option \<Rightarrow> (bytes \<Rightarrow> exn + bytes) \<Rightarrow> fs \<Rightarrow> string \<Rightarrow> reader" where
  "loc_reader encrypter dec f loc = (case encrypter of None \<Rightarrow> FileReader f loc
     | Some enc \<Rightarrow> EncryptedReader (FileReader f loc) dec)"

lemma WriteKey_ok:
  assumes "loc_open f loc" and "enc_pair encrypter dec" and "key_str k = Inr s"
  shows "\<exists>f' ent'. FileWriter_WriteKey loc k n encrypter (f, ent) = (Inr (), f', ent') \<and> loc_open f' loc
    \<and> rd_GetMetadata (FileReader f' loc) = rd_GetMetadata (FileReader f loc)
    \<and> rd_GetKey (loc_reader encrypter dec f' loc) n = Inr s
    \<and> (\<forall>m. m \<noteq> n \<longrightarrow> rd_GetKey (loc_reader encrypter dec f' loc) m = rd_GetKey (loc_reader encrypter dec f loc) m)"
proof -
  obtain c ent' where c: "(case encrypter of None \<Rightarrow> (Inr s, ent) | Some enc \<Rightarrow> enc s ent) = (Inr c, ent')"
    and d: "case encrypter of None \<Rightarrow> c = s | Some enc \<Rightarrow> dec c = Inr s"
    using assms(2) by (cases encrypter) (auto simp: enc_pair_def, metis)
  obtain f' where f': "WriteFile c (path_join loc (str_int n)) f = (Inr (), f')"
      "fs_opens f' = fs_opens f" "fs_dirs f' = fs_dirs f"
    using assms(1) WriteFile_ok [of f "path_join loc (str_int n)" c] by (auto simp: loc_open_def)
  have "FileWriter_WriteKey loc k n encrypter (f, ent) = (Inr (), f', ent')"
    by (simp add: FileWriter_WriteKey_def assms(3) c f'(1))
  moreover have "loc_open f' loc" using assms(1) f' by (simp add: loc_open_def)
  moreover have "rd_GetMetadata (FileReader f' loc) = rd_GetMetadata (FileReader f loc)"
    by (rule files.meta_put_key [OF f'(1)])
  moreover have "rd_GetKey (FileReader f' loc) m = (if m = n then Inr c else rd_GetKey (FileReader f loc) m)" for m
    by (rule files.key_put [OF f'(1)])
  ultimately show ?thesis using d
    by (cases encrypter) (auto simp: loc_reader_def EncryptedReader_def)
qed

text \<open>All keys of a list of versions: the numbers are distinct, so no file is written twice.\<close>

lemma write_keys_ok:
  assumes "loc_open f loc" and "enc_pair encrypter dec"
    and "\<forall>r \<in> set rs. GetKey kz (VersionId r) = Inr (k r) \<and> key_str (k r) = Inr (s r)"
    and "distinct (map (\<lambda>r. version_number (kz_heap kz ! r)) rs)"
  shows "\<exists>f' ent'. write_keys kz loc encrypter rs (f, ent) = (Inr (), f', ent')
    \<and> rd_GetMetadata (FileReader f' loc) = rd_GetMetadata (FileReader f loc)
    \<and> (\<forall>r \<in> set rs. rd_GetKey (loc_reader encrypter dec f' loc) (version_number (kz_heap kz ! r)) = Inr (s r))
    \<and> (\<forall>m. m \<notin> (\<lambda>r. version_number (kz_heap kz ! r)) ` set rs \<longrightarrow>
         rd_GetKey (loc_reader encrypter dec f' loc) m = rd_GetKey (loc_reader encrypter dec f loc) m)"
  using assms
proof (induction rs arbitrary: f ent)
  case Nil
  then show ?case by (simp add: sret_def)
next
  case (Cons r rs)
  let ?n = "version_number (kz_heap kz ! r)"
  obtain f1 ent1 where w: "FileWriter_WriteKey loc (k r) ?n encrypter (f, ent) = (Inr (), f1, ent1)"
    "loc_open f1 loc" "rd_GetMetadata (FileReader f1 loc) = rd_GetMetadata (FileReader f loc)"
    "rd_GetKey (loc_reader encrypter dec f1 loc) ?n = Inr (s r)"
    "\<forall>m. m \<noteq> ?n \<longrightarrow> rd_GetKey (loc_reader encrypter dec f1 loc) m = rd_GetKey (loc_reader encrypter dec f loc) m"
    using WriteKey_ok [OF Cons.prems(1,2), of "k r" "s r" ?n ent] Cons.prems(3) by auto
  have "\<forall>q \<in> set rs. GetKey kz (VersionId q) = Inr (k q) \<and> key_str (k q) = Inr (s q)"
    using Cons.prems(3) by simp
  from Cons.IH [OF w(2) Cons.prems(2) this, of ent1] Cons.prems(4) obtain f' ent' where
    i: "write_keys kz loc encrypter rs (f1, ent1) = (Inr (), f', ent')"
    "rd_GetMetadata (FileReader f' loc) = rd_GetMetadata (FileReader f1 loc)"
    "\<forall>q \<in> set rs. rd_GetKey (loc_reader encrypter dec f' loc) (version_number (kz_heap kz ! q)) = Inr (s q)"
    "\<forall>m. m \<notin> (\<lambda>r. version_number (kz_heap kz ! r)) ` set rs \<longrightarrow>
       rd_GetKey (loc_reader encrypter dec f' loc) m = rd_GetKey (loc_reader encrypter dec f1 loc) m"
    by auto
  have "?n \<notin> (\<lambda>r. version_number (kz_heap kz ! r)) ` set rs" using Cons.prems(4) by simp
  then have "rd_GetKey (loc_reader encrypter dec f' loc) ?n = Inr (s r)" using i(4) w(4) by simp
  moreover have "write_keys kz loc encrypter (r # rs) (f, ent) = (Inr (), f', ent')"
    using Cons.prems(3) by (simp add: sbind_def slift_def w(1) i(1))
  ultimately show ?case using i w by (intro exI [of _ f'] exI [of _ ent']) simp
qed

lemma load_keys_ok:
  assumes "\<forall>r \<in> set rs. rd_GetKey rd (version_number (kz_heap kz ! r)) = Inr (s r)
      \<and> ReadKey (kmd_type (kz_metadata kz)) (s r) = Inr (k r) \<and> key_hash_id (k r) = Inr (h r)"
    and "\<forall>r \<in> set rs. status (kz_heap kz ! r) = PRIMARY \<longrightarrow> kz_primary kz = None"
    and "\<forall>r \<in> set rs. \<forall>q \<in> set rs. status (kz_heap kz ! r) = PRIMARY \<longrightarrow> status (kz_heap kz ! q) = PRIMARY \<longrightarrow> r = q"
    and "distinct rs"
  shows "\<exists>kz'. load_keys rd rs kz = Inr kz' \<and> (\<forall>i. map_of (kz_keys kz') (VersionId i) =
      (if i \<in> set rs then Some (k i) else map_of (kz_keys kz) (VersionId i)))"
  using assms
proof (induction rs arbitrary: kz)
  case (Cons r rs)
  let ?kz = "kz\<lparr>kz_primary := (if status (kz_heap kz ! r) = PRIMARY then Some r else kz_primary kz),
       kz_keys := AList.update (HashId (h r)) (k r) (AList.update (VersionId r) (k r) (kz_keys kz))\<rparr>"
  have step: "load_keys rd (r # rs) kz = load_keys rd rs ?kz"
    using Cons.prems(1,2) by simp
  have "\<exists>kz'. load_keys rd rs ?kz = Inr kz' \<and> (\<forall>i. map_of (kz_keys kz') (VersionId i) =
      (if i \<in> set rs then Some (k i) else map_of (kz_keys ?kz) (VersionId i)))"
  proof (rule Cons.IH)
    show "\<forall>q \<in> set rs. status (kz_heap ?kz ! q) = PRIMARY \<longrightarrow> kz_primary ?kz = None"
    proof (intro ballI impI)
      fix q assume q: "q \<in> set rs" "status (kz_heap ?kz ! q) = PRIMARY"
      then have "q \<noteq> r" using Cons.prems(4) by auto
      then have "status (kz_heap kz ! r) \<noteq> PRIMARY" using Cons.prems(3) q by auto
      moreover have "kz_primary kz = None" using Cons.prems(2) q by auto
      ultimately show "kz_primary ?kz = None" by simp
    qed
  qed (use Cons.prems in auto)
  then show ?case unfolding step using Cons.prems(4) by (auto simp: update_conv')
qed simp

lemma version_at:
  assumes ok: "kmd_ok h m" and v: "kmd_find n m = Some r" and vs: "map ((!) h') (kmd_versions m') = map ((!) h) (kmd_versions m)"
    and ok': "kmd_ok h' m'"
  shows "\<exists>q. kmd_find n m' = Some q \<and> h' ! q = h ! r"
proof -
  have r: "r \<in> set (kmd_versions m)" "version_number (h ! r) = n"
    using metadata_ref [OF ok] v by (auto simp: find_GetVersion split: sum.splits)
  then obtain i where i: "i < length (kmd_versions m)" "kmd_versions m ! i = r" by (auto simp: in_set_conv_nth)
  have len: "length (kmd_versions m') = length (kmd_versions m)" using vs by (rule map_eq_imp_length_eq)
  let ?q = "kmd_versions m' ! i"
  have q: "h' ! ?q = h ! r" using arg_cong [OF vs, of "\<lambda>xs. xs ! i"] i len by simp
  have "version_dict m' ! i \<in> set (version_dict m')" using i len by (simp add: kmd_versions_def)
  moreover have "snd (version_dict m' ! i) = ?q" using i len by (simp add: kmd_versions_def)
  ultimately have "(n, ?q) \<in> set (version_dict m')"
    using ok' q r(2) unfolding kmd_ok_def by (metis (mono_tags, lifting) case_prod_beta prod.collapse)
  then have "map_of (version_dict m') n = Some ?q"
    using ok' by (simp add: kmd_ok_def map_of_is_SomeI)
  then show ?thesis using q by (auto simp: kmd_find_map)
qed

lemma view_back:
  assumes vs: "map ((!) h') (kmd_versions m') = map ((!) h) (kmd_versions m)"
  shows "\<exists>old. \<forall>q \<in> set (kmd_versions m'). old q \<in> set (kmd_versions m) \<and> h' ! q = h ! old q"
proof -
  have "\<exists>r. r \<in> set (kmd_versions m) \<and> h' ! q = h ! r" if "q \<in> set (kmd_versions m')" for q
  proof -
    have "h' ! q \<in> set (map ((!) h) (kmd_versions m))" using that unfolding vs [symmetric] by simp
    then show ?thesis by auto
  qed
  then show ?thesis by metis
qed

lemma view_single_primary:
  assumes vs: "map ((!) h') (kmd_versions m') = map ((!) h) (kmd_versions m)" and d: "distinct (kmd_versions m)"
    and one: "\<forall>r \<in> set (kmd_versions m). \<forall>q \<in> set (kmd_versions m). status (h ! r) = PRIMARY \<longrightarrow> status (h ! q) = PRIMARY \<longrightarrow> r = q"
    and r: "r \<in> set (kmd_versions m')" "status (h' ! r) = PRIMARY"
    and q: "q \<in> set (kmd_versions m')" "status (h' ! q) = PRIMARY"
  shows "r = q"
proof -
  have len: "length (kmd_versions m') = length (kmd_versions m)" using vs by (rule map_eq_imp_length_eq)
  obtain i where i: "i < length (kmd_versions m)" "kmd_versions m' ! i = r"
    using r(1) len by (auto simp: in_set_conv_nth)
  obtain j where j: "j < length (kmd_versions m)" "kmd_versions m' ! j = q"
    using q(1) len by (auto simp: in_set_conv_nth)
  have "h ! (kmd_versions m ! i) = h' ! r" "h ! (kmd_versions m ! j) = h' ! q"
    using arg_cong [OF vs, of "\<lambda>xs. xs ! i"] arg_cong [OF vs, of "\<lambda>xs. xs ! j"] i j len by simp_all
  then have "kmd_versions m ! i = kmd_versions m ! j"
    using one i(1) j(1) r(2) q(2) by simp
  then have "i = j" using d i(1) j(1) nth_eq_iff_index_eq by blast
  then show ?thesis using i j by simp
qed

lemma kmd_same_number:
  assumes "kmd_ok h m" and "r \<in> set (kmd_versions m)" and "q \<in> set (kmd_versions m)"
    and "version_number (h ! r) = version_number (h ! q)"
  shows "r = q"
proof -
  obtain a b where ab: "(a, r) \<in> set (version_dict m)" "(b, q) \<in> set (version_dict m)"
    using assms(2,3) by (auto simp: kmd_versions_def)
  then have "version_number (h ! r) = a" "version_number (h ! q) = b"
    using assms(1) by (auto simp: kmd_ok_def)
  then have "a = b" using assms(4) by simp
  then show ?thesis using assms(1) ab by (auto simp: kmd_ok_def dest: eq_key_imp_eq_value)
qed

lemma kmd_find_ref: "kmd_ok h m \<Longrightarrow> r \<in> set (kmd_versions m) \<Longrightarrow> kmd_find (version_number (h ! r)) m = Some r"
  unfolding kmd_ok_def kmd_versions_def kmd_find_map by (fastforce intro: map_of_is_SomeI)

text \<open>The last key with a hash identifier is the one found under it.\<close>

lemma load_keys_hashes:
  assumes "load_keys rd rs kz = Inr kz'"
    and "\<forall>r \<in> set rs. rd_GetKey rd (version_number (kz_heap kz ! r)) = Inr (s r)
      \<and> ReadKey (kmd_type (kz_metadata kz)) (s r) = Inr (k r) \<and> key_hash_id (k r) = Inr (h r)"
  shows "map_of (kz_keys kz') (HashId x) \<in> (if x \<in> h ` set rs
     then {Some (k r) |r. r \<in> set rs \<and> h r = x} else {map_of (kz_keys kz) (HashId x)})"
  using assms
proof (induction rs arbitrary: kz)
  case (Cons r rs)
  let ?kz = "kz\<lparr>kz_primary := (if status (kz_heap kz ! r) = PRIMARY then Some r else kz_primary kz),
       kz_keys := AList.update (HashId (h r)) (k r) (AList.update (VersionId r) (k r) (kz_keys kz))\<rparr>"
  have "load_keys rd rs ?kz = Inr kz'" using Cons.prems by (simp split: if_splits)
  from Cons.IH [OF this] Cons.prems(2)
  have "map_of (kz_keys kz') (HashId x) \<in> (if x \<in> h ` set rs
      then {Some (k r) |r. r \<in> set rs \<and> h r = x} else {map_of (kz_keys ?kz) (HashId x)})" by simp
  then show ?case by (auto simp: update_conv' split: if_splits)
qed simp

text \<open>
  What a reader delivers is what is loaded: metadata like that of the text, and for every version
  the key of the text under the version's number.
\<close>

lemma load_reader:
  assumes ok: "kmd_ok h m" and meta: "rd_GetMetadata rd = KeyMetadata_str h m"
    and keys: "\<forall>r \<in> set (kmd_versions m). rd_GetKey rd (version_number (h ! r)) = Inr (s r)
      \<and> ReadKey (kmd_type m) (s r) = Inr (k r) \<and> key_hash_id (k r) = Inr (hh r)"
    and one: "\<forall>r \<in> set (kmd_versions m). \<forall>q \<in> set (kmd_versions m). status (h ! r) = PRIMARY \<longrightarrow> status (h ! q) = PRIMARY \<longrightarrow> r = q"
    and enc: "encrypted m \<Longrightarrow> rd_encrypted rd"
  obtains kz' where "\<And>acc. acc (purpose m) \<Longrightarrow> Keyczar_init acc rd = Inr kz'"
    "kmd_view (kz_heap kz') (kz_metadata kz') = kmd_view h m"
    "\<And>n r. kmd_find n m = Some r \<Longrightarrow> \<exists>q. kmd_find n (kz_metadata kz') = Some q
        \<and> kz_heap kz' ! q = h ! r \<and> GetKey kz' (VersionId q) = Inr (k r)"
    "\<And>r. r \<in> set (kmd_versions m) \<Longrightarrow>
        \<exists>q \<in> set (kmd_versions m). hh q = hh r \<and> map_of (kz_keys kz') (HashId (hh r)) = Some (k q)"
proof -
  obtain ms m' h' where ms: "KeyMetadata_str h m = Inr ms" "KeyMetadata_Read ms [] = (Inr m', h')"
    "kmd_ok h' m'" "kmd_view h' m' = kmd_view h m"
    using KeyMetadata_Read_str [OF ok, of "[]"] by blast
  have vs: "map ((!) h') (kmd_versions m') = map ((!) h) (kmd_versions m)"
    and mt: "kmd_type m' = kmd_type m" "purpose m' = purpose m" "encrypted m' = encrypted m"
    using ms(4) by (simp_all add: kmd_view_def)
  obtain old where old: "\<forall>q \<in> set (kmd_versions m'). old q \<in> set (kmd_versions m) \<and> h' ! q = h ! old q"
    using view_back [OF vs] by blast
  let ?kz0 = "\<lparr>kz_heap = h', kz_metadata = m', kz_keys = [], kz_primary = None, kz_default_size = default_size (kmd_type m')\<rparr>"
  have read: "\<forall>q \<in> set (kmd_versions m'). rd_GetKey rd (version_number (kz_heap ?kz0 ! q)) = Inr (s (old q))
      \<and> ReadKey (kmd_type (kz_metadata ?kz0)) (s (old q)) = Inr (k (old q)) \<and> key_hash_id (k (old q)) = Inr (hh (old q))"
    using old keys mt(1) by auto
  have "\<exists>kz'. load_keys rd (kmd_versions m') ?kz0 = Inr kz' \<and> (\<forall>i. map_of (kz_keys kz') (VersionId i) =
      (if i \<in> set (kmd_versions m') then Some (k (old i)) else map_of (kz_keys ?kz0) (VersionId i)))"
    using view_single_primary [OF vs kmd_versions_distinct [OF ok] one] kmd_versions_distinct [OF ms(3)]
    by (intro load_keys_ok [OF read]) auto
  then obtain kz' where l: "load_keys rd (kmd_versions m') ?kz0 = Inr kz'"
    and vkeys: "\<forall>i. map_of (kz_keys kz') (VersionId i) = (if i \<in> set (kmd_versions m') then Some (k (old i)) else None)"
    by auto
  have fr: "kz_heap kz' = h'" "kz_metadata kz' = m'" using load_keys_frame [OF l] by simp_all
  have found: "\<exists>q. kmd_find n m' = Some q \<and> h' ! q = h ! r \<and> GetKey kz' (VersionId q) = Inr (k r)
      \<and> old q = r \<and> q \<in> set (kmd_versions m')" if find: "kmd_find n m = Some r" for n r
  proof -
    obtain q where q: "kmd_find n m' = Some q" "h' ! q = h ! r"
      using version_at [OF ok find vs ms(3)] by blast
    have qin: "q \<in> set (kmd_versions m')"
      using q(1) metadata_ref [OF ms(3)] by (auto simp: find_GetVersion split: sum.splits)
    have rin: "r \<in> set (kmd_versions m)"
      using find metadata_ref [OF ok] by (auto simp: find_GetVersion split: sum.splits)
    have "old q = r" using kmd_same_number [OF ok _ rin] old qin q(2) by (metis (no_types))
    then show ?thesis using q vkeys qin by (auto simp: GetKey_def)
  qed
  show ?thesis
  proof (rule that [of kz'])
    show "Keyczar_init acc rd = Inr kz'" if "acc (purpose m)" for acc
      using that l mt(2,3) enc by (simp add: Keyczar_init_def meta ms(1,2))
    show "kmd_view (kz_heap kz') (kz_metadata kz') = kmd_view h m" using ms(4) fr by simp
    show "\<exists>q. kmd_find n (kz_metadata kz') = Some q \<and> kz_heap kz' ! q = h ! r \<and> GetKey kz' (VersionId q) = Inr (k r)"
      if "kmd_find n m = Some r" for n r using found [OF that] fr by auto
    show "\<exists>q \<in> set (kmd_versions m). hh q = hh r \<and> map_of (kz_keys kz') (HashId (hh r)) = Some (k q)"
      if r: "r \<in> set (kmd_versions m)" for r
    proof -
      have "kmd_find (version_number (h ! r)) m = Some r" using kmd_find_ref [OF ok r] .
      then obtain q where "q \<in> set (kmd_versions m')" "old q = r" using found by blast
      then have "hh r \<in> (\<lambda>q. hh (old q)) ` set (kmd_versions m')" by auto
      with load_keys_hashes [OF l read, of "hh r"] show ?thesis using old by auto
    qed
  qed
qed

text \<open>
  Writing a complete key set and loading it again, with or without encryption of the keys: the
  same metadata, and under every version number the same version and the same key.
\<close>

lemma Write_load:
  assumes c: "kz_complete kz" and o: "loc_open f loc" and e: "enc_pair encrypter dec"
    and a: "acc (purpose (kz_metadata kz))"
  shows "\<exists>kz1 f' ent' kz'. Keyczar_Write (WriterAt loc) encrypter (kz, f, ent) = (Inr (), kz1, f', ent')
    \<and> Keyczar_init acc (loc_reader encrypter dec f' loc) = Inr kz'
    \<and> kmd_view (kz_heap kz') (kz_metadata kz') = kmd_view (kz_heap kz) ((kz_metadata kz)\<lparr>encrypted := (encrypter \<noteq> None)\<rparr>)
    \<and> (\<forall>n r. kmd_find n (kz_metadata kz) = Some r \<longrightarrow> (\<exists>q. kmd_find n (kz_metadata kz') = Some q
        \<and> kz_heap kz' ! q = kz_heap kz ! r \<and> GetKey kz' (VersionId q) = GetKey kz (VersionId r)))"
proof -
  let ?m = "(kz_metadata kz)\<lparr>encrypted := (encrypter \<noteq> None)\<rparr>" and ?h = "kz_heap kz"
  let ?kz1 = "kz\<lparr>kz_metadata := ?m\<rparr>"
  let ?num = "\<lambda>r. version_number (?h ! r)"
  have inv: "kmd_ok ?h (kz_metadata kz)" "dict_ok kz" "primary_ok kz" and vset: "set (kmd_versions (kz_metadata kz)) \<subseteq> set (kz_versions kz)"
    using c by (simp_all add: kz_complete_def kz_inv_def dict_ok_def)
  have mok: "kmd_ok ?h ?m" and mv: "kmd_versions ?m = kmd_versions (kz_metadata kz)"
    and mf: "kmd_find n ?m = kmd_find n (kz_metadata kz)" for n
    using inv(1) by (simp_all add: kmd_ok_def kmd_versions_def kmd_find_map)
  obtain ms where ms: "KeyMetadata_str ?h ?m = Inr ms" using KeyMetadata_Read_str [OF mok, of "[]"] by blast
  obtain k s hh where ks: "\<forall>r \<in> set (kz_versions kz). GetKey kz (VersionId r) = Inr (k r) \<and> key_str (k r) = Inr (s r)
      \<and> ReadKey (kmd_type (kz_metadata kz)) (s r) = Inr (k r) \<and> key_hash_id (k r) = Inr (hh r)"
    using complete_keys [OF c] by blast
  obtain f1 where f1: "FileWriter_WriteMetadata loc (Inr ms) True f = (Inr (), f1)"
      "loc_open f1 loc"
    using o WriteFile_ok [of f "path_join loc ''meta''" ms]
    by (auto simp: FileWriter_WriteMetadata_def Let_def sbind_def slift_def loc_open_def)
  have dist: "distinct (map ?num (kz_versions kz))" using inv(2) by (simp only: dict_ok_def)
  have ks1: "\<forall>r \<in> set (kz_versions kz). GetKey ?kz1 (VersionId r) = Inr (k r) \<and> key_str (k r) = Inr (s r)"
    using ks by (simp add: GetKey_def)
  obtain f' ent' where w: "write_keys ?kz1 loc encrypter (kz_versions kz) (f1, ent) = (Inr (), f', ent')"
    "rd_GetMetadata (FileReader f' loc) = rd_GetMetadata (FileReader f1 loc)"
    "\<forall>r \<in> set (kz_versions kz). rd_GetKey (loc_reader encrypter dec f' loc) (?num r) = Inr (s r)"
    using write_keys_ok [OF f1(2) e ks1, of ent] dist by auto
  have written: "Keyczar_Write (WriterAt loc) encrypter (kz, f, ent) = (Inr (), ?kz1, f', ent')"
    using ms f1(1) w(1) by (simp add: Keyczar_Write_def Let_def kz_versions_def)
  let ?rd = "loc_reader encrypter dec f' loc"
  have rdm: "rd_GetMetadata ?rd = KeyMetadata_str ?h ?m"
    using w(2) files.meta_put [OF f1(1)] ms by (cases encrypter) (simp_all add: loc_reader_def EncryptedReader_def)
  have one: "\<forall>r \<in> set (kmd_versions ?m). \<forall>q \<in> set (kmd_versions ?m). status (?h ! r) = PRIMARY \<longrightarrow>
      status (?h ! q) = PRIMARY \<longrightarrow> r = q"
    using primary_okD(1) [OF inv(3)] unfolding mv by (metis option.inject)
  obtain kz' where kz': "\<And>acc. acc (purpose ?m) \<Longrightarrow> Keyczar_init acc ?rd = Inr kz'"
    "kmd_view (kz_heap kz') (kz_metadata kz') = kmd_view ?h ?m"
    "\<And>n r. kmd_find n ?m = Some r \<Longrightarrow> \<exists>q. kmd_find n (kz_metadata kz') = Some q
        \<and> kz_heap kz' ! q = ?h ! r \<and> GetKey kz' (VersionId q) = Inr (k r)"
  proof (rule load_reader [OF mok rdm _ one])
    show "\<forall>r \<in> set (kmd_versions ?m). rd_GetKey ?rd (?num r) = Inr (s r)
        \<and> ReadKey (kmd_type ?m) (s r) = Inr (k r) \<and> key_hash_id (k r) = Inr (hh r)"
      using w(3) ks vset mv by auto
    show "rd_encrypted ?rd" if "encrypted ?m"
      using that by (cases encrypter) (simp_all add: loc_reader_def EncryptedReader_def)
  qed blast
  have "GetKey kz (VersionId r) = Inr (k r)" if "kmd_find n (kz_metadata kz) = Some r" for n r
    using that ks vset metadata_ref [OF inv(1)] by (auto simp: find_GetVersion split: sum.splits)
  then have "\<exists>q. kmd_find n (kz_metadata kz') = Some q \<and> kz_heap kz' ! q = ?h ! r
      \<and> GetKey kz' (VersionId q) = GetKey kz (VersionId r)" if "kmd_find n (kz_metadata kz) = Some r" for n r
    using kz'(3) [of n r] that mf by metis
  then show ?thesis using written kz'(1,2) a by (intro exI conjI) auto
qed

subsection \<open>Key sets with one key\<close>

text \<open>A reader with one version: the key set holds it, under its number and its hash identifier.\<close>

definition one_version :: "key_status \<Rightarrow> store" where
  "one_version s = [\<lparr>version_number = 1, status = s, exportable = False\<rparr>]"

definition one_key_metadata :: "string \<Rightarrow> key_type \<Rightarrow> key_purpose \<Rightarrow> key_metadata" where
  "one_key_metadata n t p = \<lparr>kmd_name = n, purpose = p, kmd_type = t, encrypted = False, version_dict = [(1, 0)]\<rparr>"

lemma one_key_reader:
  assumes ok: "key_ok k" and h: "key_hash_id k = Inr h" and a: "acc p"
    and m: "rd_GetMetadata rd = KeyMetadata_str (one_version s) (one_key_metadata n (key_type_of k) p)"
    and rk: "rd_GetKey rd 1 = key_str k"
  shows "\<exists>kz r. Keyczar_init acc rd = Inr kz \<and> (s = PRIMARY \<longrightarrow> primary_key kz = Inr k)
    \<and> map_of (kz_keys kz) = [VersionId r \<mapsto> k, HashId h \<mapsto> k] \<and> kz_versions kz = [r]
    \<and> kmd_versions (kz_metadata kz) = [r] \<and> kmd_type (kz_metadata kz) = key_type_of k
    \<and> version_dict (kz_metadata kz) = [(1, r)] \<and> status (kz_heap kz ! r) = s \<and> purpose (kz_metadata kz) = p"
proof -
  let ?m = "one_key_metadata n (key_type_of k) p"
  have "kmd_ok (one_version s) ?m" by (simp add: kmd_ok_def one_version_def one_key_metadata_def)
  from KeyMetadata_Read_str [OF this, of "[]"] obtain tx m' h' where s: "KeyMetadata_str (one_version s) ?m = Inr tx"
    "KeyMetadata_Read tx [] = (Inr m', h')" "kmd_ok h' m'" "kmd_view h' m' = kmd_view (one_version s) ?m"
    by blast
  obtain v r where d: "version_dict m' = [(v, r)]" and r: "h' ! r = one_version s ! 0"
    using s(4) by (auto simp: kmd_view_def kmd_versions_def one_key_metadata_def)
  have v: "v = 1" using s(3) r by (simp add: kmd_ok_def d one_version_def)
  have m': "purpose m' = p" "kmd_type m' = key_type_of k" "\<not> encrypted m'"
    using s(4) by (simp_all add: kmd_view_def one_key_metadata_def)
  obtain ks where ks: "key_str k = Inr ks" "ReadKey (key_type_of k) ks = Inr k"
    using ReadKey_str [OF ok] by (auto simp: ebind_Inr_conv)
  show ?thesis
    using ks h a m' r m rk s(1)
    by (simp add: Keyczar_init_def s(2) kmd_versions_def d v one_version_def primary_key_def primary_id_def
        GetKey_def update_conv' kz_versions_def fun_upd_twist)
qed

lemma static_keyset:
  assumes ok: "key_ok k" and h: "key_hash_id k = Inr h" and a: "acc p"
  shows "\<exists>kz r. Keyczar_init acc (StaticKeyReader k p) = Inr kz \<and> primary_key kz = Inr k
    \<and> map_of (kz_keys kz) = [VersionId r \<mapsto> k, HashId h \<mapsto> k] \<and> kz_versions kz = [r]
    \<and> version_dict (kz_metadata kz) = [(1, r)] \<and> status (kz_heap kz ! r) = PRIMARY"
proof -
  have "rd_GetMetadata (StaticKeyReader k p) =
      KeyMetadata_str (one_version PRIMARY) (one_key_metadata ''Imported'' (key_type_of k) p)"
    "rd_GetKey (StaticKeyReader k p) 1 = key_str k"
    by (simp_all add: StaticKeyReader_def static_metadata_ok one_version_def one_key_metadata_def)
  with one_key_reader [where rd = "StaticKeyReader k p" and acc = acc and s = PRIMARY, OF ok h] a show ?thesis by blast
qed

end
