(* ===== verification/InStream.thy ===== *)
theory InStream
  imports Errors
begin

text \<open>
  The file-like objects the streaming code reads from, which the callers supply (Python's
  \<open>io\<close> protocol): \<open>read(n)\<close> returns at most \<open>n\<close> bytes of what has arrived (everything when \<open>n\<close> is
  negative), the empty string at the end of the input, and on a non-blocking stream \<open>None\<close> (or a
  \<open>BlockingIOError\<close>) when nothing has arrived yet.
\<close>

datatype read_event = Arrived bytes | NoData

record in_stream =
  pending :: "read_event list"
  at_eof :: bool   \<comment> \<open>after the pending events: end of input, or never any more data\<close>

text \<open>What a \<open>read\<close> without a size collects: all the data up to the next gap.\<close>

fun take_arrived :: "read_event list \<Rightarrow> bytes \<times> read_event list" where
  "take_arrived (Arrived c # es) = (let (d, es') = take_arrived es in (c @ d, es'))"
| "take_arrived es = ([], es)"

definition stream_read :: "int \<Rightarrow> in_stream \<Rightarrow> bytes option \<times> in_stream" where
  "stream_read n s = (case pending s of
       [] \<Rightarrow> (if at_eof s then Some [] else None, s)
     | NoData # es \<Rightarrow> (None, s\<lparr>pending := es\<rparr>)
     | Arrived c # es \<Rightarrow>
         (if n < 0 then (let (d, es') = take_arrived es in (Some (c @ d), s\<lparr>pending := es'\<rparr>))
          else if n = 0 then (Some [], s)
          else if length c \<le> nat n then (Some c, s\<lparr>pending := es\<rparr>)
          else (Some (take (nat n) c), s\<lparr>pending := Arrived (drop (nat n) c) # es\<rparr>)))"

fun event_bytes :: "read_event \<Rightarrow> bytes" where
  "event_bytes (Arrived c) = c"
| "event_bytes NoData = []"

fun event_ok :: "read_event \<Rightarrow> bool" where
  "event_ok (Arrived c) = (c \<noteq> [])"
| "event_ok NoData = True"

definition unread :: "in_stream \<Rightarrow> bytes" where
  "unread s = concat (map event_bytes (pending s))"

text \<open>
  A stream that behaves: what arrives is not empty (an empty result means the end), and the
  input ends.
\<close>

definition stream_ok :: "in_stream \<Rightarrow> bool" where
  "stream_ok s \<longleftrightarrow> list_all event_ok (pending s) \<and> at_eof s"

fun event_size :: "read_event \<Rightarrow> nat" where
  "event_size (Arrived c) = Suc (length c)"
| "event_size NoData = 1"

definition stream_size :: "in_stream \<Rightarrow> nat" where
  "stream_size s = sum_list (map event_size (pending s))"

text \<open>A stream over a byte string that is all there, such as an open file.\<close>

definition file_stream :: "bytes \<Rightarrow> in_stream" where
  "file_stream d = \<lparr>pending = (if d = [] then [] else [Arrived d]), at_eof = True\<rparr>"

lemma file_stream_simps [simp]: "stream_ok (file_stream d)" "unread (file_stream d) = d"
  by (simp_all add: file_stream_def stream_ok_def unread_def)

lemma take_arrived_props:
  "take_arrived es = (d, es') \<Longrightarrow>
     concat (map event_bytes es) = d @ concat (map event_bytes es')
     \<and> (list_all event_ok es \<longrightarrow> list_all event_ok es')
     \<and> sum_list (map event_size es') \<le> sum_list (map event_size es)"
  by (induction es arbitrary: d es' rule: take_arrived.induct)
     (auto split: prod.splits simp: le_SucI trans_le_add2)

text \<open>One read, on a stream that behaves.\<close>

lemma stream_read_cases:
  assumes "stream_ok s" and "n \<noteq> 0" and "stream_read n s = (r, s')"
  obtains (gap) "r = None" "unread s' = unread s" "stream_ok s'" "stream_size s' < stream_size s"
    | (eof) "r = Some []" "unread s = []" "s' = s" "pending s = []"
    | (data) d where "r = Some d" "d \<noteq> []" "unread s = d @ unread s'" "stream_ok s'"
        "stream_size s' < stream_size s" "0 \<le> n \<longrightarrow> length d \<le> nat n"
proof (cases "pending s")
  case Nil
  with assms show ?thesis by (intro eof) (auto simp: stream_read_def stream_ok_def unread_def)
next
  case (Cons e es)
  show ?thesis
  proof (cases e)
    case NoData
    with Cons assms show ?thesis
      by (intro gap) (auto simp: stream_read_def stream_ok_def unread_def stream_size_def)
  next
    case (Arrived c)
    then have c: "c \<noteq> []" using Cons assms(1) by (simp add: stream_ok_def)
    show ?thesis
    proof (cases "n < 0")
      case True
      obtain d es' where d: "take_arrived es = (d, es')" by fastforce
      show ?thesis
        using Cons Arrived True assms c d take_arrived_props [OF d]
        by (intro data [of "c @ d"])
           (auto simp: stream_read_def stream_ok_def unread_def stream_size_def)
    next
      case False
      show ?thesis
      proof (cases "length c \<le> nat n")
        case True
        with Cons Arrived False assms c show ?thesis
          by (intro data [of c])
             (auto simp: stream_read_def stream_ok_def unread_def stream_size_def)
      next
        case long: False
        with Cons Arrived False assms c show ?thesis
          by (intro data [of "take (nat n) c"])
             (auto simp: stream_read_def stream_ok_def unread_def stream_size_def)
      qed
    qed
  qed
qed

lemma take_arrived_size:
  "take_arrived es = (d, es') \<Longrightarrow> length d + sum_list (map event_size es') \<le> sum_list (map event_size es)"
  by (induction es arbitrary: d es' rule: take_arrived.induct) (fastforce split: prod.splits)+

lemma stream_read_size:
  assumes "stream_read n s = (x, s')"
  shows "length (case x of None \<Rightarrow> [] | Some d \<Rightarrow> d) + stream_size s' \<le> stream_size s"
  using assms
  by (auto simp: stream_read_def stream_size_def
      split: list.splits read_event.splits if_splits prod.splits dest!: take_arrived_size)

lemma stream_read_blocked: "stream_read n \<lparr>pending = [], at_eof = False\<rparr> = (None, \<lparr>pending = [], at_eof = False\<rparr>)"
  by (simp add: stream_read_def)

subsection \<open>The contract of a source\<close>

text \<open>
  What a client of a file-like object relies on, for a source that still holds the bytes \<open>t\<close>: a
  read returns, hands out the next bytes (or nothing yet), and an empty string only at the end;
  it cannot go on for ever without reaching the end. A source that buffers may hand out somewhat
  more than it was asked for.
\<close>

type_synonym 's reading = "int \<Rightarrow> 's \<Rightarrow> ((exn + bytes option) \<times> 's) option"

definition got :: "bytes option \<Rightarrow> bytes" where
  "got x = (case x of None \<Rightarrow> [] | Some d \<Rightarrow> d)"

lemma got_simps [simp]: "got None = []" "got (Some d) = d"
  by (simp_all add: got_def)

locale byte_source =
  fixes rd :: "'s reading"
    and holds :: "'s \<Rightarrow> bytes \<Rightarrow> bool"
    and rank :: "'s \<Rightarrow> nat"
  assumes read_next: "holds s t \<Longrightarrow> n \<noteq> 0 \<Longrightarrow>
    \<exists>x s' t'. rd n s = Some (Inr x, s') \<and> holds s' t' \<and> t = got x @ t'
      \<and> (x = Some [] \<longrightarrow> t = []) \<and> (x = Some [] \<or> rank s' < rank s)
      \<and> (0 < n \<longrightarrow> length (got x) \<le> 2 * nat n + 2)"

definition raw_read :: "in_stream reading" where
  "raw_read n s = (case stream_read n s of (x, s') \<Rightarrow> Some (Inr x, s'))"

interpretation raw_source: byte_source raw_read "\<lambda>s t. stream_ok s \<and> unread s = t" stream_size
proof
  fix s t and n :: int
  assume s: "stream_ok s \<and> unread s = t" and n: "n \<noteq> 0"
  obtain x s' where rd: "stream_read n s = (x, s')" by fastforce
  from s have ok: "stream_ok s" and t: "t = unread s" by simp_all
  from ok n rd show "\<exists>x s' t'. raw_read n s = Some (Inr x, s') \<and> (stream_ok s' \<and> unread s' = t')
      \<and> t = got x @ t' \<and> (x = Some [] \<longrightarrow> t = []) \<and> (x = Some [] \<or> stream_size s' < stream_size s)
      \<and> (0 < n \<longrightarrow> length (got x) \<le> 2 * nat n + 2)"
  proof (cases rule: stream_read_cases)
    case gap
    with rd t show ?thesis by (simp add: raw_read_def)
  next
    case eof
    with rd t ok show ?thesis by (simp add: raw_read_def)
  next
    case (data d)
    then have "length d \<le> 2 * nat n + 2" if "0 < n"
      using that by (intro trans_le_add1) simp
    with data rd t show ?thesis by (simp add: raw_read_def)
  qed
qed

end
