(* ===== verification/Base64Stream.thy ===== *)
theory Base64Stream
  imports Base64 InStream
begin

text \<open>
  \<open>python/src/keyczar/util.py\<close>: the incremental Base64 codecs. The encoder and the decoder keep
  the bytes that do not fill a group in a buffer (\<open>codecs.BufferedIncrementalEncoder\<close> and
  \<open>BufferedIncrementalDecoder\<close> of the standard library are inlined: data is the buffer followed
  by the input, and what \<open>_buffer_encode\<close> did not consume is the new buffer). The stream writer
  and the stream reader drive them over file-like objects. The theorems say that cutting the
  data into pieces changes nothing.
\<close>

subsection \<open>Encoder\<close>

record b64_encoder =
  enc_buffer :: bytes

definition enc_init :: b64_encoder where
  "enc_init = \<lparr>enc_buffer = []\<rparr>"

definition enc_buffer_encode :: "bytes \<Rightarrow> bool \<Rightarrow> string \<times> nat" where
  "enc_buffer_encode input final =
     (let len_to_write = (if \<not> final then 3 * (length input div 3) else length input)
      in (Base64WSEncode (take len_to_write input), len_to_write))"

text \<open>The second component of the result can be negative when buffered bytes remain.\<close>

definition enc_encode :: "bytes \<Rightarrow> bool \<Rightarrow> b64_encoder \<Rightarrow> (string \<times> int) \<times> b64_encoder" where
  "enc_encode input final enc =
     (let data = enc_buffer enc @ input;
          (result, consumed) = enc_buffer_encode data final;
          enc' = enc\<lparr>enc_buffer := drop consumed data\<rparr>
      in ((result, int (length input) - int (length (enc_buffer enc'))), enc'))"

definition enc_flush :: "b64_encoder \<Rightarrow> string \<times> b64_encoder" where
  "enc_flush enc =
     (if enc_buffer enc \<noteq> []
      then (fst (enc_buffer_encode (enc_buffer enc) True), enc\<lparr>enc_buffer := []\<rparr>)
      else ([], enc))"

subsection \<open>Stream writer\<close>

text \<open>
  The output stream keeps what was written to it. \<open>write\<close> is \<open>codecs.StreamWriter.write\<close>: it
  writes the first component of what \<open>encode\<close> returns.
\<close>

record b64_writer =
  w_out :: string
  w_encoder :: b64_encoder

definition writer_init :: "string \<Rightarrow> b64_writer" where
  "writer_init out = \<lparr>w_out = out, w_encoder = enc_init\<rparr>"

definition writer_encode :: "bytes \<Rightarrow> b64_writer \<Rightarrow> (string \<times> int) \<times> b64_writer" where
  "writer_encode input w =
     (let (r, enc) = enc_encode input False (w_encoder w) in (r, w\<lparr>w_encoder := enc\<rparr>))"

definition writer_write :: "bytes \<Rightarrow> b64_writer \<Rightarrow> b64_writer" where
  "writer_write object w =
     (let ((data, consumed), w') = writer_encode object w in w'\<lparr>w_out := w_out w' @ data\<rparr>)"

definition writer_flush :: "b64_writer \<Rightarrow> b64_writer" where
  "writer_flush w =
     (let (result, enc) = enc_flush (w_encoder w); w' = w\<lparr>w_encoder := enc\<rparr>
      in if result \<noteq> [] then w'\<lparr>w_out := w_out w' @ result\<rparr> else w')"

text \<open>
  \<open>close\<close> flushes and then calls \<open>super().close()\<close>. Neither \<open>codecs.StreamWriter\<close> nor \<open>object\<close> has
  a method of that name (\<open>StreamWriter.__getattr__\<close> is not consulted by \<open>super\<close>), so the call
  raises after the data went out.
\<close>

definition writer_close :: "(b64_writer, exn, unit) st" where
  "writer_close = (\<lambda>w. (Inl PyAttributeError, writer_flush w))"

subsection \<open>Decoder\<close>

record b64_decoder =
  dec_buffer :: bytes

definition dec_init :: b64_decoder where
  "dec_init = \<lparr>dec_buffer = []\<rparr>"

definition dec_buffer_decode :: "bytes \<Rightarrow> bool \<Rightarrow> exn + bytes \<times> nat" where
  "dec_buffer_decode input final =
     (let len_to_read = (if \<not> final then 4 * (length input div 4) else length input)
      in ebind (Base64WSDecode (take len_to_read input)) (\<lambda>r. Inr (r, len_to_read)))"

definition dec_decode :: "bytes \<Rightarrow> bool \<Rightarrow> (b64_decoder, exn, bytes \<times> nat) st" where
  "dec_decode input final = (\<lambda>dec.
     let data = dec_buffer dec @ input in
     case dec_buffer_decode data final of
       Inl e \<Rightarrow> (Inl e, dec)
     | Inr (result, consumed) \<Rightarrow>
         (Inr (result, length input), dec\<lparr>dec_buffer := drop consumed data\<rparr>))"

definition dec_flush :: "(b64_decoder, exn, bytes) st" where
  "dec_flush = (\<lambda>dec.
     if dec_buffer dec \<noteq> [] then
       (case dec_buffer_decode (dec_buffer dec) True of
          Inl e \<Rightarrow> (Inl e, dec)
        | Inr (result, n) \<Rightarrow> (Inr result, dec\<lparr>dec_buffer := []\<rparr>))
     else (Inr [], dec))"

subsection \<open>Stream reader\<close>

text \<open>
  \<open>linebuffer\<close>, \<open>charbuffer\<close> and \<open>bytebuffer\<close> are attributes of \<open>codecs.StreamReader\<close>. \<open>read_loop\<close>
  is the \<open>while True\<close> of \<open>read\<close>, which may not end: its value is then \<open>None\<close>. Its result is the
  last \<open>newdata\<close>. \<open>firstline\<close> matters only for a \<open>UnicodeDecodeError\<close>, which the Base64 decoder
  does not raise.
\<close>

record b64_reader =
  r_stream :: in_stream
  r_decoder :: b64_decoder
  linebuffer :: "string list option"
  charbuffer :: bytes
  bytebuffer :: bytes

definition reader_init :: "in_stream \<Rightarrow> b64_reader" where
  "reader_init s = \<lparr>r_stream = s, r_decoder = dec_init, linebuffer = None, charbuffer = [],
                    bytebuffer = []\<rparr>"

definition reader_decode :: "bytes \<Rightarrow> (b64_reader, exn, bytes \<times> nat) st" where
  "reader_decode input = (\<lambda>r. case dec_decode input False (r_decoder r) of
     (x, dec) \<Rightarrow> (x, r\<lparr>r_decoder := dec\<rparr>))"

definition read_satisfied :: "int \<Rightarrow> int \<Rightarrow> bytes \<Rightarrow> bool" where
  "read_satisfied sz chars buf =
     (if chars < 0 then (if sz < 0 then buf \<noteq> [] else int (length buf) \<ge> sz)
      else int (length buf) \<ge> chars)"

partial_function (option) read_loop ::
    "int \<Rightarrow> int \<Rightarrow> bytes option \<Rightarrow> b64_reader \<Rightarrow> ((exn + bytes option) \<times> b64_reader) option" where
  "read_loop sz chars newdata r =
     (if read_satisfied sz chars (charbuffer r) then Some (Inr newdata, r)
      else (case stream_read sz (r_stream r) of
          (None, s) \<Rightarrow> read_loop sz chars None (r\<lparr>r_stream := s\<rparr>)
        | (Some nd, s) \<Rightarrow>
            (let data = bytebuffer r @ nd in
             case reader_decode data (r\<lparr>r_stream := s\<rparr>) of
               (Inl e, r') \<Rightarrow> Some (Inl e, r')
             | (Inr (newchars, decodedbytes), r') \<Rightarrow>
                 (let r'' = r'\<lparr>bytebuffer := drop decodedbytes data,
                               charbuffer := charbuffer r' @ newchars\<rparr>
                  in if nd = [] then Some (Inr (Some nd), r'')
                     else read_loop sz chars (Some nd) r''))))"

definition merge_lines :: "b64_reader \<Rightarrow> b64_reader" where
  "merge_lines r = (case linebuffer r of
     None \<Rightarrow> r
   | Some ls \<Rightarrow> (if ls = [] then r else r\<lparr>charbuffer := concat ls, linebuffer := None\<rparr>))"

text \<open>What follows the loop: take the result off the buffer, and flush the decoder at the end.\<close>

definition read_finish :: "int \<Rightarrow> bytes option \<Rightarrow> (b64_reader, exn, bytes option) st" where
  "read_finish chars newdata = (\<lambda>r.
     let (result, rest) = (if chars < 0 then (charbuffer r, [])
            else (take (nat chars) (charbuffer r), drop (nat chars) (charbuffer r)));
         r1 = r\<lparr>charbuffer := rest\<rparr>
     in if result = [] \<and> newdata = None then (Inr None, r1)
        else if result = [] \<and> newdata = Some [] \<and> chars \<noteq> 0 then
          (case dec_flush (r_decoder r1) of
             (Inl e, dec) \<Rightarrow> (Inl e, r1\<lparr>r_decoder := dec\<rparr>)
           | (Inr d, dec) \<Rightarrow> (Inr (Some d), r1\<lparr>r_decoder := dec\<rparr>))
        else (Inr (Some result), r1))"

definition reader_read ::
    "int \<Rightarrow> int \<Rightarrow> b64_reader \<Rightarrow> ((exn + bytes option) \<times> b64_reader) option" where
  "reader_read sz chars r =
     (case read_loop sz chars (Some []) (merge_lines r) of
        None \<Rightarrow> None
      | Some (Inl e, r') \<Rightarrow> Some (Inl e, r')
      | Some (Inr newdata, r') \<Rightarrow> Some (read_finish chars newdata r'))"

subsection \<open>Encoding in pieces\<close>

text \<open>
  The writer's contract: what is out, with the encoding of what is buffered, is the encoding of
  everything written, and the buffer is less than a group.
\<close>

definition writer_holds :: "string \<Rightarrow> b64_writer \<Rightarrow> bytes \<Rightarrow> bool" where
  "writer_holds start w s \<longleftrightarrow>
     (\<exists>sent. s = sent @ enc_buffer (w_encoder w) \<and> 3 dvd length sent
       \<and> w_out w = start @ Base64WSEncode sent) \<and> length (enc_buffer (w_encoder w)) < 3"

lemma writer_holds_init: "writer_holds start (writer_init start) []"
  by (simp add: writer_holds_def writer_init_def enc_init_def)

lemma writer_write_holds:
  assumes "writer_holds start w s"
  shows "writer_holds start (writer_write d w) (s @ d)"
proof -
  obtain sent k where s: "s = sent @ enc_buffer (w_encoder w)" and k: "length sent = 3 * k"
    and out: "w_out w = start @ Base64WSEncode sent"
    using assms by (auto simp: writer_holds_def elim!: dvdE)
  let ?data = "enc_buffer (w_encoder w) @ d"
  let ?n = "3 * (length ?data div 3)"
  have le: "?n \<le> length ?data" by (rule times_div_less_eq_dividend)
  have out': "w_out (writer_write d w) = start @ Base64WSEncode (sent @ take ?n ?data)"
    and buf': "enc_buffer (w_encoder (writer_write d w)) = drop ?n ?data"
    using out encode_append [OF k, of "take ?n ?data"]
    by (simp_all add: writer_write_def writer_encode_def enc_encode_def enc_buffer_encode_def Let_def)
  have "length (drop ?n ?data) = length ?data mod 3"
    by (simp only: length_drop minus_mult_div_eq_mod)
  moreover have "length (sent @ take ?n ?data) = 3 * (k + length ?data div 3)"
    using k le by (simp only: length_append length_take min_absorb2) simp
  moreover have "s @ d = (sent @ take ?n ?data) @ drop ?n ?data"
    using s append_take_drop_id [of ?n ?data] by (simp only: append_assoc)
  ultimately show ?thesis
    unfolding writer_holds_def out' buf' by (metis dvd_triv_left mod_less_divisor zero_less_numeral)
qed

lemma writer_flush_out:
  assumes "writer_holds start w s"
  shows "w_out (writer_flush w) = start @ Base64WSEncode s"
    and "enc_buffer (w_encoder (writer_flush w)) = []"
proof -
  obtain sent k where s: "s = sent @ enc_buffer (w_encoder w)" and k: "length sent = 3 * k"
    and out: "w_out w = start @ Base64WSEncode sent"
    using assms by (auto simp: writer_holds_def elim!: dvdE)
  show "w_out (writer_flush w) = start @ Base64WSEncode s"
    using out encode_append [OF k, of "enc_buffer (w_encoder w)"] s
    by (simp add: writer_flush_def enc_flush_def enc_buffer_encode_def Let_def)
  show "enc_buffer (w_encoder (writer_flush w)) = []"
    by (simp add: writer_flush_def enc_flush_def enc_buffer_encode_def Let_def)
qed

definition write_pieces :: "bytes list \<Rightarrow> b64_writer \<Rightarrow> b64_writer" where
  "write_pieces ds w = foldl (\<lambda>w d. writer_write d w) w ds"

lemma write_pieces_holds: "writer_holds start w s \<Longrightarrow> writer_holds start (write_pieces ds w) (s @ concat ds)"
  unfolding write_pieces_def
proof (induction ds arbitrary: w s)
  case (Cons d ds)
  then show ?case using writer_write_holds [OF Cons.prems, of d] by fastforce
qed simp

subsection \<open>Decoding in pieces\<close>

lemma decode_take_encode:
  assumes "p @ q = Base64WSEncode t"
  shows "dec_buffer_decode p False = Inr (take (3 * (length p div 4)) t, 4 * (length p div 4))"
    and "drop (4 * (length p div 4)) p @ q = Base64WSEncode (drop (3 * (length p div 4)) t)"
proof -
  let ?k = "length p div 4"
  have le: "4 * ?k \<le> length p" by (rule times_div_less_eq_dividend)
  have "take (4 * ?k) p = take (4 * ?k) (p @ q)" using le by simp
  also have "\<dots> = Base64WSEncode (take (3 * ?k) t)"
    unfolding assms using take_drop_encode [of ?k t] by simp
  finally show "dec_buffer_decode p False = Inr (take (3 * ?k) t, 4 * ?k)"
    by (simp add: dec_buffer_decode_def)
  have "drop (4 * ?k) p @ q = drop (4 * ?k) (p @ q)" using le by simp
  also have "\<dots> = Base64WSEncode (drop (3 * ?k) t)"
    unfolding assms using take_drop_encode [of ?k t] by simp
  finally show "drop (4 * ?k) p @ q = Base64WSEncode (drop (3 * ?k) t)" .
qed

text \<open>
  The reader's abstract state is the plaintext still to come: what is decoded already, and what
  the undecoded bytes in the decoder and in the stream encode.
\<close>

definition reader_holds :: "b64_reader \<Rightarrow> bytes \<Rightarrow> bool" where
  "reader_holds r t \<longleftrightarrow> stream_ok (r_stream r) \<and> bytebuffer r = [] \<and> linebuffer r = None \<and>
     (\<exists>u. dec_buffer (r_decoder r) @ unread (r_stream r) = Base64WSEncode u \<and> t = charbuffer r @ u)"

lemma reader_holds_init:
  "stream_ok s \<Longrightarrow> unread s = Base64WSEncode t \<Longrightarrow> reader_holds (reader_init s) t"
  by (simp add: reader_holds_def reader_init_def dec_init_def)

lemma reader_decode_holds:
  assumes "dec_buffer (r_decoder r) @ nd @ q = Base64WSEncode u"
  shows "\<exists>dec v w. reader_decode nd r = (Inr (v, length nd), r\<lparr>r_decoder := dec\<rparr>)
     \<and> u = v @ w \<and> dec_buffer dec @ q = Base64WSEncode w
     \<and> length v + length (dec_buffer dec) \<le> length (dec_buffer (r_decoder r)) + length nd
     \<and> length v \<le> 3 * ((length (dec_buffer (r_decoder r)) + length nd) div 4)
     \<and> length (dec_buffer dec) \<le> 3"
proof -
  let ?p = "dec_buffer (r_decoder r) @ nd"
  note d = decode_take_encode [of ?p q u]
  have "reader_decode nd r = (Inr (take (3 * (length ?p div 4)) u, length nd),
      r\<lparr>r_decoder := (r_decoder r)\<lparr>dec_buffer := drop (4 * (length ?p div 4)) ?p\<rparr>\<rparr>)"
    using assms d(1) by (simp add: reader_decode_def dec_decode_def Let_def)
  moreover have "dec_buffer ((r_decoder r)\<lparr>dec_buffer := drop (4 * (length ?p div 4)) ?p\<rparr>) @ q
      = Base64WSEncode (drop (3 * (length ?p div 4)) u)"
    using assms d(2) by simp
  moreover have "length (take (3 * (length ?p div 4)) u)
      + length (dec_buffer ((r_decoder r)\<lparr>dec_buffer := drop (4 * (length ?p div 4)) ?p\<rparr>))
      \<le> length (dec_buffer (r_decoder r)) + length nd"
  proof -
    have "4 * (length ?p div 4) \<le> length ?p" by (rule times_div_less_eq_dividend)
    then have "3 * (length ?p div 4) + (length ?p - 4 * (length ?p div 4)) \<le> length ?p" by linarith
    then show ?thesis by (simp add: min.coboundedI2)
  qed
  moreover have "length (take (3 * (length ?p div 4)) u)
      \<le> 3 * ((length (dec_buffer (r_decoder r)) + length nd) div 4)" by simp
  moreover have "length (dec_buffer ((r_decoder r)\<lparr>dec_buffer := drop (4 * (length ?p div 4)) ?p\<rparr>)) \<le> 3"
  proof -
    have "length (drop (4 * (length ?p div 4)) ?p) = length ?p mod 4"
      by (simp only: length_drop minus_mult_div_eq_mod)
    also have "\<dots> < 4" by simp
    finally show ?thesis by simp
  qed
  moreover have "u = take (3 * (length ?p div 4)) u @ drop (3 * (length ?p div 4)) u" by simp
  ultimately show ?thesis by blast
qed

definition b64_rank :: "b64_reader \<Rightarrow> nat" where
  "b64_rank r = stream_size (r_stream r) + length (charbuffer r) + length (dec_buffer (r_decoder r))"

text \<open>How much a sized read can exceed what was asked for.\<close>

definition b64_small :: "int \<Rightarrow> b64_reader \<Rightarrow> bool" where
  "b64_small sz r \<longleftrightarrow> length (dec_buffer (r_decoder r)) \<le> 3
     \<and> (0 < sz \<longrightarrow> length (charbuffer r) \<le> 2 * nat sz + 2)"

lemma b64_small_step:
  assumes "b64_small sz r" and "\<not> read_satisfied sz chars (charbuffer r)" and "chars < 0"
    and "0 \<le> sz \<longrightarrow> length nd \<le> nat sz" and "charbuffer r' = charbuffer r @ v"
    and "length v \<le> 3 * ((length (dec_buffer (r_decoder r)) + length nd) div 4)"
    and "length (dec_buffer (r_decoder r')) \<le> 3"
  shows "b64_small sz r'"
proof (cases "0 < sz")
  case True
  have "length (dec_buffer (r_decoder r)) + length nd \<le> 3 + nat sz"
    using assms(1,4) True by (auto simp: b64_small_def)
  then have "(length (dec_buffer (r_decoder r)) + length nd) div 4 \<le> (3 + nat sz) div 4"
    by (rule div_le_mono)
  moreover have "4 * ((3 + nat sz) div 4) \<le> 3 + nat sz" by (rule times_div_less_eq_dividend)
  moreover have "length (charbuffer r) < nat sz"
    using assms(2,3) True by (simp add: read_satisfied_def)
  ultimately have "length (charbuffer r) + length v \<le> 2 * nat sz + 2"
    using assms(6) by linarith
  with assms(5,7) show ?thesis by (simp add: b64_small_def)
next
  case False
  with assms(7) show ?thesis by (simp add: b64_small_def)
qed

lemma read_loop_holds:
  assumes "reader_holds r t" and "sz \<noteq> 0"
  shows "\<exists>nd r'. read_loop sz chars newdata r = Some (Inr nd, r') \<and> reader_holds r' t
     \<and> (read_satisfied sz chars (charbuffer r') \<or> nd = Some [] \<and> unread (r_stream r') = [])
     \<and> b64_rank r' \<le> b64_rank r \<and> (nd = None \<longrightarrow> newdata = None \<or> b64_rank r' < b64_rank r)
     \<and> (chars < 0 \<and> b64_small sz r \<longrightarrow> b64_small sz r')"
  using assms(1)
proof (induction "stream_size (r_stream r)" arbitrary: r newdata rule: less_induct)
  case less
  show ?case
  proof (cases "read_satisfied sz chars (charbuffer r)")
    case True
    with less.prems show ?thesis by (subst read_loop.simps) auto
  next
    case False
    obtain x s where rd: "stream_read sz (r_stream r) = (x, s)" by fastforce
    have ok: "stream_ok (r_stream r)" using less.prems by (simp add: reader_holds_def)
    obtain u where u: "dec_buffer (r_decoder r) @ unread (r_stream r) = Base64WSEncode u"
      and t: "t = charbuffer r @ u" and b: "bytebuffer r = []" "linebuffer r = None"
      using less.prems by (auto simp: reader_holds_def)
    from ok assms(2) rd show ?thesis
    proof (cases rule: stream_read_cases)
      case gap
      let ?r = "r\<lparr>r_stream := s\<rparr>"
      have "reader_holds ?r t" using gap u t b by (simp add: reader_holds_def)
      then obtain nd r' where ih: "read_loop sz chars None ?r = Some (Inr nd, r')" "reader_holds r' t"
        "read_satisfied sz chars (charbuffer r') \<or> nd = Some [] \<and> unread (r_stream r') = []"
        "b64_rank r' \<le> b64_rank ?r" "chars < 0 \<and> b64_small sz ?r \<longrightarrow> b64_small sz r'"
        using less.hyps [of ?r None] gap by auto
      moreover have "b64_small sz r \<longrightarrow> b64_small sz ?r" by (simp add: b64_small_def)
      moreover have "b64_rank ?r < b64_rank r" using gap by (simp add: b64_rank_def)
      ultimately show ?thesis using gap False rd
        by (subst read_loop.simps) (fastforce dest: le_less_trans)
    next
      case eof
      obtain dec v w where "reader_decode [] (r\<lparr>r_stream := s\<rparr>) = (Inr (v, 0), r\<lparr>r_stream := s, r_decoder := dec\<rparr>)"
        and "u = v @ w" "dec_buffer dec @ [] = Base64WSEncode w"
        and "length v + length (dec_buffer dec) \<le> length (dec_buffer (r_decoder r))"
        and "length v \<le> 3 * (length (dec_buffer (r_decoder r)) div 4)" "length (dec_buffer dec) \<le> 3"
        using reader_decode_holds [of "r\<lparr>r_stream := s\<rparr>" "[]" "[]" u] u eof by auto
      with eof False rd t b ok show ?thesis
        by (subst read_loop.simps) (auto simp: reader_holds_def b64_rank_def b64_small_def)
    next
      case (data d)
      obtain dec v w where dec: "reader_decode d (r\<lparr>r_stream := s\<rparr>)
          = (Inr (v, length d), r\<lparr>r_stream := s, r_decoder := dec\<rparr>)"
        and uv: "u = v @ w" and w: "dec_buffer dec @ unread s = Base64WSEncode w"
        and len: "length v + length (dec_buffer dec) \<le> length (dec_buffer (r_decoder r)) + length d"
        and small: "length v \<le> 3 * ((length (dec_buffer (r_decoder r)) + length d) div 4)"
          "length (dec_buffer dec) \<le> 3"
        using reader_decode_holds [of "r\<lparr>r_stream := s\<rparr>" d "unread s" u] u data by auto
      let ?r = "r\<lparr>r_stream := s, r_decoder := dec, bytebuffer := [], charbuffer := charbuffer r @ v\<rparr>"
      have "reader_holds ?r t" using data t b uv w by (simp add: reader_holds_def)
      then obtain nd r' where ih: "read_loop sz chars (Some d) ?r = Some (Inr nd, r')" "reader_holds r' t"
        "read_satisfied sz chars (charbuffer r') \<or> nd = Some [] \<and> unread (r_stream r') = []"
        "b64_rank r' \<le> b64_rank ?r" "nd = None \<longrightarrow> b64_rank r' < b64_rank ?r"
        "chars < 0 \<and> b64_small sz ?r \<longrightarrow> b64_small sz r'"
        using less.hyps [of ?r "Some d"] data by auto
      moreover have "chars < 0 \<and> b64_small sz r \<longrightarrow> b64_small sz ?r"
        using data small False by (auto intro!: b64_small_step [of sz r chars d ?r v])
      moreover have "b64_rank ?r \<le> b64_rank r"
        using stream_read_size [OF rd] data len by (simp add: b64_rank_def)
      ultimately show ?thesis using data False rd b dec
        by (subst read_loop.simps) (fastforce dest: le_less_trans)
    qed
  qed
qed

text \<open>
  Reading ends, hands out the next piece of the plaintext, and hands out the empty string only
  when nothing is left.
\<close>

lemma reader_read_holds:
  assumes "reader_holds r t" and "sz \<noteq> 0" and "chars \<noteq> 0"
  shows "\<exists>x r' t'. reader_read sz chars r = Some (Inr x, r') \<and> reader_holds r' t'
     \<and> t = got x @ t' \<and> (x = Some [] \<longrightarrow> t = []) \<and> (x = Some [] \<or> b64_rank r' < b64_rank r)
     \<and> (chars < 0 \<and> charbuffer r = [] \<and> length (dec_buffer (r_decoder r)) \<le> 3 \<longrightarrow>
          charbuffer r' = [] \<and> length (dec_buffer (r_decoder r')) \<le> 3
          \<and> (0 < sz \<longrightarrow> length (got x) \<le> 2 * nat sz + 2))"
proof -
  obtain nd r' where loop: "read_loop sz chars (Some []) r = Some (Inr nd, r')"
    and r': "reader_holds r' t"
    and stop: "read_satisfied sz chars (charbuffer r') \<or> nd = Some [] \<and> unread (r_stream r') = []"
    and rank: "b64_rank r' \<le> b64_rank r" "nd = None \<longrightarrow> b64_rank r' < b64_rank r"
    and small: "chars < 0 \<and> b64_small sz r \<longrightarrow> b64_small sz r'"
    using read_loop_holds [OF assms(1,2), of chars "Some []"] by auto
  obtain u where u: "dec_buffer (r_decoder r') @ unread (r_stream r') = Base64WSEncode u"
    and t: "t = charbuffer r' @ u" using r' by (auto simp: reader_holds_def)
  have merge: "merge_lines r = r" using assms(1) by (simp add: reader_holds_def merge_lines_def)
  define result where "result = (if chars < 0 then charbuffer r' else take (nat chars) (charbuffer r'))"
  define rest where "rest = (if chars < 0 then [] else drop (nat chars) (charbuffer r'))"
  have split: "charbuffer r' = result @ rest" by (simp add: result_def rest_def)
  have fin: "read_finish chars nd r' =
     (if result = [] \<and> nd = None then (Inr None, r'\<lparr>charbuffer := rest\<rparr>)
      else if result = [] \<and> nd = Some [] then
          (case dec_flush (r_decoder r') of
             (Inl e, dec) \<Rightarrow> (Inl e, r'\<lparr>charbuffer := rest, r_decoder := dec\<rparr>)
           | (Inr d, dec) \<Rightarrow> (Inr (Some d), r'\<lparr>charbuffer := rest, r_decoder := dec\<rparr>))
      else (Inr (Some result), r'\<lparr>charbuffer := rest\<rparr>))"
    unfolding read_finish_def result_def rest_def Let_def using assms(3)
    by (simp split: sum.splits prod.splits)
  have holds: "reader_holds (r'\<lparr>charbuffer := rest\<rparr>) (rest @ u)"
    using r' u by (auto simp: reader_holds_def)
  show ?thesis
  proof (cases "result = []")
    case False
    then have "b64_rank (r'\<lparr>charbuffer := rest\<rparr>) < b64_rank r'"
      using split by (simp add: b64_rank_def)
    with rank have "b64_rank (r'\<lparr>charbuffer := rest\<rparr>) < b64_rank r" by linarith
    then show ?thesis using False loop merge fin holds t split small
      by (simp add: reader_read_def b64_small_def rest_def result_def)
  next
    case True
    then have empty: "charbuffer r' = []" using assms(3) by (auto simp: result_def split: if_splits)
    then have "\<not> read_satisfied sz chars (charbuffer r')"
      using assms(2,3) by (auto simp: read_satisfied_def)
    with stop have nd: "nd = Some []" and sent: "unread (r_stream r') = []" by auto
    have enc: "dec_buffer (r_decoder r') = Base64WSEncode u" using u sent by simp
    have "dec_flush (r_decoder r') = (Inr u, (r_decoder r')\<lparr>dec_buffer := []\<rparr>)"
    proof (cases "Base64WSEncode u = []")
      case True
      then have "u = []" using encode_inject [of u "[]"] by simp
      with True enc show ?thesis by (simp add: dec_flush_def)
    next
      case False
      with enc show ?thesis by (simp add: dec_flush_def dec_buffer_decode_def)
    qed
    moreover have "rest = []" using split empty by simp
    moreover have "reader_holds (r'\<lparr>charbuffer := [], r_decoder := (r_decoder r')\<lparr>dec_buffer := []\<rparr>\<rparr>) []"
      using r' sent by (simp add: reader_holds_def)
    moreover have "u = [] \<or> b64_rank (r'\<lparr>charbuffer := [], r_decoder := (r_decoder r')\<lparr>dec_buffer := []\<rparr>\<rparr>) < b64_rank r"
    proof (cases "u = []")
      case False
      then have "Base64WSEncode u \<noteq> []" using encode_inject [of u "[]"] by simp
      then have "0 < length (dec_buffer (r_decoder r'))" using enc by simp
      then have "b64_rank (r'\<lparr>charbuffer := [], r_decoder := (r_decoder r')\<lparr>dec_buffer := []\<rparr>\<rparr>) < b64_rank r'"
        by (simp add: b64_rank_def)
      then show ?thesis using rank(1) by (intro disjI2) (rule less_le_trans)
    qed simp
    moreover have "length u \<le> 2" if "length (dec_buffer (r_decoder r')) \<le> 3"
      using that length_encode [of u] unfolding enc by (cases "length u div 3 = 0") auto
    ultimately show ?thesis
      using loop merge fin True nd t empty small by (auto simp: reader_read_def b64_small_def)
  qed
qed

text \<open>On a non-blocking stream that stays silent the loop never ends.\<close>

lemma read_loop_silent:
  assumes "r_stream r = \<lparr>pending = [], at_eof = False\<rparr>"
    and "\<not> read_satisfied sz chars (charbuffer r)"
  shows "read_loop sz chars x r = None"
proof -
  let ?P = "\<lambda>sz chars x r (y :: (exn + bytes option) \<times> b64_reader). r_stream r = \<lparr>pending = [], at_eof = False\<rparr> \<longrightarrow>
      read_satisfied sz chars (charbuffer r)"
  have "?P sz chars x r y" if "read_loop sz chars x r = Some y" for y
    using that
  proof (rule read_loop.raw_induct [where P = ?P, rotated])
    fix f :: "int \<Rightarrow> int \<Rightarrow> bytes option \<Rightarrow> b64_reader \<Rightarrow> ((exn + bytes option) \<times> b64_reader) option"
    fix sz chars x r y
    assume "\<And>sz chars x r y. f sz chars x r = Some y \<Longrightarrow> ?P sz chars x r y"
      and "(if read_satisfied sz chars (charbuffer r) then Some (Inr x, r)
      else (case stream_read sz (r_stream r) of
          (None, s) \<Rightarrow> f sz chars None (r\<lparr>r_stream := s\<rparr>)
        | (Some nd, s) \<Rightarrow>
            (let data = bytebuffer r @ nd in
             case reader_decode data (r\<lparr>r_stream := s\<rparr>) of
               (Inl e, r') \<Rightarrow> Some (Inl e, r')
             | (Inr (newchars, decodedbytes), r') \<Rightarrow>
                 (let r'' = r'\<lparr>bytebuffer := drop decodedbytes data,
                               charbuffer := charbuffer r' @ newchars\<rparr>
                  in if nd = [] then Some (Inr (Some nd), r'')
                     else f sz chars (Some nd) r'')))) = Some y"
    then show "?P sz chars x r y"
      by (cases "read_satisfied sz chars (charbuffer r)") (fastforce simp: stream_read_blocked)+
  qed
  with assms show ?thesis by (cases "read_loop sz chars x r") auto
qed

text \<open>So the reader is itself a source, of the decoded bytes.\<close>

definition b64_read :: "b64_reader reading" where
  "b64_read n r = reader_read n (-1) r"

definition b64_holds :: "b64_reader \<Rightarrow> bytes \<Rightarrow> bool" where
  "b64_holds r t \<longleftrightarrow> reader_holds r t \<and> charbuffer r = [] \<and> length (dec_buffer (r_decoder r)) \<le> 3"

lemma b64_holds_init:
  "stream_ok s \<Longrightarrow> unread s = Base64WSEncode t \<Longrightarrow> b64_holds (reader_init s) t"
  using reader_holds_init by (simp add: b64_holds_def) (simp add: reader_init_def dec_init_def)

interpretation b64_source: byte_source b64_read b64_holds b64_rank
proof
  fix s t and n :: int
  assume "b64_holds s t" and "n \<noteq> 0"
  then show "\<exists>x s' t'. b64_read n s = Some (Inr x, s') \<and> b64_holds s' t' \<and> t = got x @ t'
      \<and> (x = Some [] \<longrightarrow> t = []) \<and> (x = Some [] \<or> b64_rank s' < b64_rank s)
      \<and> (0 < n \<longrightarrow> length (got x) \<le> 2 * nat n + 2)"
    using reader_read_holds [of s t n "-1"] unfolding b64_holds_def b64_read_def by fastforce
qed

end
