(* ===== verification/Streams.thy ===== *)
theory Streams
  imports SymmetricKeys Base64Stream
begin

text \<open>
  \<open>python/src/keyczar/keys.py\<close>: \<open>EncryptingStreamWriter\<close> and \<open>DecryptingStreamReader\<close>. The
  writer's output stream is either a plain byte stream or the Base64 writer over one; the
  reader's input is any source that keeps the contract of \<open>InStream\<close>, given by its \<open>read\<close>
  function. The theorems: whatever pieces the data is written in, the stream is the ciphertext
  \<open>AesKey.Encrypt\<close> makes; whatever pieces it arrives in and is read in, the reader hands out the
  plaintext; a wrong signature ends in an error.
\<close>

subsection \<open>Output streams\<close>

datatype sink = RawSink string | B64Sink b64_writer

fun sink_write :: "bytes \<Rightarrow> sink \<Rightarrow> sink" where
  "sink_write d (RawSink out) = RawSink (out @ d)"
| "sink_write d (B64Sink w) = B64Sink (writer_write d w)"

fun sink_flush :: "sink \<Rightarrow> sink" where
  "sink_flush (RawSink out) = RawSink out"
| "sink_flush (B64Sink w) = B64Sink (writer_flush w)"

fun sink_out :: "sink \<Rightarrow> string" where
  "sink_out (RawSink out) = out"
| "sink_out (B64Sink w) = w_out w"

subsection \<open>EncryptingStreamWriter\<close>

record enc_writer =
  ew_key :: aes_key
  ew_sink :: sink
  ew_data :: bytes
  ew_closed :: bool
  ew_hmac :: hmac_stream
  ew_cipher :: aes_cipher

definition EncryptingStreamWriter_init ::
    "crypto \<Rightarrow> aes_key \<Rightarrow> sink \<Rightarrow> (entropy, exn, enc_writer) st" where
  "EncryptingStreamWriter_init L key output_stream =
     sbind (slift (CreateStreamable (aes_hmac_key key))) (\<lambda>h.
     sbind (RandBytes (int block_size)) (\<lambda>iv_bytes. slift (
       ebind (aes_key_bytes key) (\<lambda>kb.
       ebind (AES_new L kb iv_bytes) (\<lambda>c.
       ebind (aes_Header key) (\<lambda>hdr.
         Inr \<lparr>ew_key = key, ew_sink = sink_write (hdr @ iv_bytes) output_stream, ew_data = [],
              ew_closed = False, ew_hmac = hs_Update (hdr @ iv_bytes) h, ew_cipher = c\<rparr>))))))"

definition ew_CheckOpen :: "(enc_writer, exn, unit) st" where
  "ew_CheckOpen = (\<lambda>w. if ew_closed w then (Inl PyValueError, w) else (Inr (), w))"

definition ew_WriteEncrypted :: "crypto \<Rightarrow> bytes \<Rightarrow> bool \<Rightarrow> (enc_writer, exn, unit) st" where
  "ew_WriteEncrypted L data0 pad = (\<lambda>w.
     let data = (if pad then aes_Pad data0 else data0) in
     case ac_encrypt L data (ew_cipher w) of
       (Inl e, c) \<Rightarrow> (Inl e, w\<lparr>ew_cipher := c\<rparr>)
     | (Inr encrypted_bytes, c) \<Rightarrow>
         (Inr (), w\<lparr>ew_cipher := c, ew_sink := sink_write encrypted_bytes (ew_sink w),
                    ew_hmac := hs_Update encrypted_bytes (ew_hmac w)\<rparr>))"

definition ew_write :: "crypto \<Rightarrow> bytes \<Rightarrow> (enc_writer, exn, unit) st" where
  "ew_write L data = sbind ew_CheckOpen (\<lambda>_ w0.
     let w = w0\<lparr>ew_data := ew_data w0 @ data\<rparr>;
         encrypt_buffer_size = aes_NoPadBufferSize (int (length (ew_data w)))
     in if int (length (ew_data w)) \<ge> encrypt_buffer_size
        then (case ew_WriteEncrypted L (slice_to (ew_data w) encrypt_buffer_size) False w of
                (Inl e, w') \<Rightarrow> (Inl e, w')
              | (Inr _, w') \<Rightarrow> (Inr (), w'\<lparr>ew_data := slice_from (ew_data w') encrypt_buffer_size\<rparr>))
        else (Inr (), w\<lparr>ew_data := slice_from (ew_data w) 0\<rparr>))"

definition ew_flush :: "crypto \<Rightarrow> (enc_writer, exn, unit) st" where
  "ew_flush L = sbind ew_CheckOpen (\<lambda>_ w.
     sbind (ew_WriteEncrypted L (ew_data w) True) (\<lambda>_ w'.
       (Inr (), w'\<lparr>ew_sink := sink_flush (sink_write (hs_Sign (ew_hmac w')) (ew_sink w'))\<rparr>)) w)"

definition ew_close :: "(enc_writer, exn, unit) st" where
  "ew_close = sbind ew_CheckOpen (\<lambda>_ w. (Inr (), w\<lparr>ew_closed := True\<rparr>))"

definition ew_writes :: "crypto \<Rightarrow> bytes list \<Rightarrow> (enc_writer, exn, unit) st" where
  "ew_writes L ds = foldr (\<lambda>d m. sbind (ew_write L d) (\<lambda>_. m)) ds (sret ())"

subsection \<open>What a stream writer has written\<close>

fun sink_holds :: "string \<Rightarrow> sink \<Rightarrow> bytes \<Rightarrow> bool" where
  "sink_holds start (RawSink out) s \<longleftrightarrow> out = start @ s"
| "sink_holds start (B64Sink w) s \<longleftrightarrow> writer_holds start w s"

fun sink_text :: "sink \<Rightarrow> bytes \<Rightarrow> string" where
  "sink_text (RawSink out) s = s"
| "sink_text (B64Sink w) s = Base64WSEncode s"

lemma sink_write_holds: "sink_holds start k s \<Longrightarrow> sink_holds start (sink_write d k) (s @ d)"
  by (cases k) (simp_all add: writer_write_holds)

lemma sink_flush_out: "sink_holds start k s \<Longrightarrow> sink_out (sink_flush k) = start @ sink_text k s"
  by (cases k) (simp_all add: writer_flush_out)

lemma sink_text_write [simp]: "sink_text (sink_write d k) s = sink_text k s"
  by (cases k) simp_all

text \<open>
  The writer over the data \<open>d\<close> so far: whole blocks of it are encrypted and out, the rest is
  buffered, and the signature has seen what is out.
\<close>

definition ew_holds :: "crypto \<Rightarrow> bytes \<Rightarrow> bytes \<Rightarrow> bytes \<Rightarrow> bytes \<Rightarrow> string \<Rightarrow> enc_writer \<Rightarrow> bytes \<Rightarrow> bool" where
  "ew_holds L kb hb hdr iv start w d \<longleftrightarrow> \<not> ew_closed w \<and>
     (\<exists>sent c. d = sent @ ew_data w \<and> blocks sent \<and> cbc_enc L kb iv sent = Inr c
        \<and> ew_cipher w = \<lparr>ac_key = kb, ac_iv = iv, ac_fed = sent\<rparr>
        \<and> ew_hmac w = \<lparr>hs_key = hb, hs_fed = hdr @ iv @ c\<rparr>
        \<and> sink_holds start (ew_sink w) (hdr @ iv @ c))"

lemma ew_holdsI:
  assumes "\<not> ew_closed w" "d = sent @ ew_data w" "blocks sent" "cbc_enc L kb iv sent = Inr c"
    "ew_cipher w = \<lparr>ac_key = kb, ac_iv = iv, ac_fed = sent\<rparr>"
    "ew_hmac w = \<lparr>hs_key = hb, hs_fed = hdr @ iv @ c\<rparr>" "sink_holds start (ew_sink w) (hdr @ iv @ c)"
  shows "ew_holds L kb hb hdr iv start w d"
  using assms unfolding ew_holds_def by blast

lemma ew_WriteEncrypted_holds:
  assumes "aes_laws L" "aes_args kb iv" "blocks sent" "cbc_enc L kb iv sent = Inr c"
    and "ew_cipher w = \<lparr>ac_key = kb, ac_iv = iv, ac_fed = sent\<rparr>"
    and "blocks x" "x = (if pad then aes_Pad d else d)"
  obtains c2 where "cbc_enc L kb iv (sent @ x) = Inr (c @ c2)"
    "ew_WriteEncrypted L d pad w = (Inr (), w\<lparr>ew_cipher := \<lparr>ac_key = kb, ac_iv = iv, ac_fed = sent @ x\<rparr>,
        ew_sink := sink_write c2 (ew_sink w), ew_hmac := hs_Update c2 (ew_hmac w)\<rparr>)"
proof -
  have "cbc_cipher (cbc_enc L)" using assms(1) by (simp add: aes_laws_def)
  then obtain c' c2 where "cbc_enc L kb iv sent = Inr c'" "cbc_enc L kb iv (sent @ x) = Inr (c' @ c2)"
    "length c' = length sent"
    using assms(2,3,6) by (rule cbc_cipher_prefix)
  with assms(4,5,7) show ?thesis
    by (intro that [of c2]) (simp_all add: ew_WriteEncrypted_def ac_encrypt_def Let_def)
qed

lemma ew_write_holds:
  assumes laws: "aes_laws L" "aes_args kb iv" and w: "ew_holds L kb hb hdr iv start w d"
  shows "\<exists>w'. ew_write L x w = (Inr (), w') \<and> ew_holds L kb hb hdr iv start w' (d @ x)
     \<and> sink_text (ew_sink w') = sink_text (ew_sink w)"
proof -
  obtain sent c where s: "\<not> ew_closed w" "d = sent @ ew_data w" "blocks sent" "cbc_enc L kb iv sent = Inr c"
    "ew_cipher w = \<lparr>ac_key = kb, ac_iv = iv, ac_fed = sent\<rparr>"
    "ew_hmac w = \<lparr>hs_key = hb, hs_fed = hdr @ iv @ c\<rparr>" "sink_holds start (ew_sink w) (hdr @ iv @ c)"
    using w by (auto simp: ew_holds_def)
  define w1 where "w1 = w\<lparr>ew_data := ew_data w @ x\<rparr>"
  define n where "n = aes_NoPadBufferSize (int (length (ew_data w1)))"
  have wr_def: "ew_write L x w = (if int (length (ew_data w1)) \<ge> n
      then (case ew_WriteEncrypted L (slice_to (ew_data w1) n) False w1 of
                (Inl e, w') \<Rightarrow> (Inl e, w')
              | (Inr _, w') \<Rightarrow> (Inr (), w'\<lparr>ew_data := slice_from (ew_data w') n\<rparr>))
      else (Inr (), w1\<lparr>ew_data := slice_from (ew_data w1) 0\<rparr>))"
    using s(1) unfolding ew_write_def ew_CheckOpen_def sbind_def Let_def n_def w1_def by simp
  show ?thesis
  proof (cases "int (length (ew_data w1)) \<ge> n")
    case False
    then have "ew_write L x w = (Inr (), w1)" unfolding wr_def by simp
    moreover have "ew_holds L kb hb hdr iv start w1 (d @ x)"
      using s by (auto simp: ew_holds_def w1_def)
    ultimately show ?thesis by (simp add: w1_def)
  next
    case True
    define m where "m = nat n"
    have n16: "16 \<le> n" "16 dvd n" using NoPad_props(1,2) by (simp_all add: n_def)
    then have n: "n = int m" by (simp add: m_def)
    then have m: "n = int m" "16 dvd m" "m \<le> length (ew_data w1)"
      using True n16(2) int_dvd_int_iff [of 16 m] by simp_all
    let ?y = "take m (ew_data w1)"
    have y: "blocks ?y" using m by (simp add: blocks_def)
    obtain c2 where c2: "cbc_enc L kb iv (sent @ ?y) = Inr (c @ c2)" and
      wr: "ew_WriteEncrypted L ?y False w1 = (Inr (), w1\<lparr>ew_cipher := \<lparr>ac_key = kb, ac_iv = iv, ac_fed = sent @ ?y\<rparr>,
        ew_sink := sink_write c2 (ew_sink w1), ew_hmac := hs_Update c2 (ew_hmac w1)\<rparr>)"
      by (rule ew_WriteEncrypted_holds [OF laws s(3,4), of w1 ?y False ?y])
         (use s y in \<open>simp_all add: w1_def\<close>)
    let ?w2 = "w1\<lparr>ew_cipher := \<lparr>ac_key = kb, ac_iv = iv, ac_fed = sent @ ?y\<rparr>,
        ew_sink := sink_write c2 (ew_sink w1), ew_hmac := hs_Update c2 (ew_hmac w1),
        ew_data := drop m (ew_data w1)\<rparr>"
    have "ew_write L x w = (Inr (), ?w2)"
      using True wr unfolding wr_def m(1) by simp
    moreover have "ew_holds L kb hb hdr iv start ?w2 (d @ x)"
    proof -
      have "d @ x = (sent @ ?y) @ drop m (ew_data w1)" unfolding s(2) append.assoc append_take_drop_id
        by (simp add: w1_def)
      moreover have "blocks (sent @ ?y)" using s(3) y by simp
      moreover have "sink_holds start (sink_write c2 (ew_sink w)) (hdr @ iv @ c @ c2)"
        using sink_write_holds [OF s(7), of c2] by simp
      ultimately show ?thesis using s(1,6) c2
        by (intro ew_holdsI [where sent = "sent @ ?y" and c = "c @ c2"]) (simp_all add: w1_def hs_Update_def)
    qed
    ultimately show ?thesis by (intro exI [of _ ?w2]) (simp add: w1_def fun_eq_iff)
  qed
qed

lemma ew_writes_holds:
  assumes laws: "aes_laws L" "aes_args kb iv" and w: "ew_holds L kb hb hdr iv start w d"
  shows "\<exists>w'. ew_writes L ds w = (Inr (), w') \<and> ew_holds L kb hb hdr iv start w' (d @ concat ds)
     \<and> sink_text (ew_sink w') = sink_text (ew_sink w)"
  using w
proof (induction ds arbitrary: w d)
  case Nil
  then show ?case by (simp add: ew_writes_def sret_def)
next
  case (Cons x ds)
  obtain w1 where w1: "ew_write L x w = (Inr (), w1)" "ew_holds L kb hb hdr iv start w1 (d @ x)"
    "sink_text (ew_sink w1) = sink_text (ew_sink w)"
    using ew_write_holds [OF laws Cons.prems, of x] by blast
  show ?case using Cons.IH [OF w1(2)] w1 by (simp add: ew_writes_def sbind_def)
qed

lemma ew_flush_holds:
  assumes laws: "aes_laws L" "aes_args kb iv" and w: "ew_holds L kb hb hdr iv start w d"
    and c: "cbc_enc L kb iv (aes_Pad d) = Inr c"
  shows "\<exists>w'. ew_flush L w = (Inr (), w') \<and>
     sink_out (ew_sink w') = start @ sink_text (ew_sink w) (hdr @ iv @ c @ hmac_sha1 hb (hdr @ iv @ c))"
proof -
  obtain sent c1 where s: "\<not> ew_closed w" "d = sent @ ew_data w" "blocks sent" "cbc_enc L kb iv sent = Inr c1"
    "ew_cipher w = \<lparr>ac_key = kb, ac_iv = iv, ac_fed = sent\<rparr>"
    "ew_hmac w = \<lparr>hs_key = hb, hs_fed = hdr @ iv @ c1\<rparr>" "sink_holds start (ew_sink w) (hdr @ iv @ c1)"
    using w by (auto simp: ew_holds_def)
  have pad: "aes_Pad d = sent @ aes_Pad (ew_data w)"
  proof -
    have "length (sent @ ew_data w) mod 16 = length (ew_data w) mod 16"
      using s(3) by (auto simp: blocks_def elim!: dvdE)
    then show ?thesis by (simp add: s(2) aes_Pad_def Let_def)
  qed
  obtain c2 where c2: "cbc_enc L kb iv (sent @ aes_Pad (ew_data w)) = Inr (c1 @ c2)" and
    wr: "ew_WriteEncrypted L (ew_data w) True w = (Inr (), w\<lparr>ew_cipher :=
      \<lparr>ac_key = kb, ac_iv = iv, ac_fed = sent @ aes_Pad (ew_data w)\<rparr>,
        ew_sink := sink_write c2 (ew_sink w), ew_hmac := hs_Update c2 (ew_hmac w)\<rparr>)"
    by (rule ew_WriteEncrypted_holds [OF laws s(3-5), of "aes_Pad (ew_data w)" True "ew_data w"])
       (simp_all add: aes_Pad_blocks)
  have cc: "c = c1 @ c2" using c c2 pad by simp
  let ?sig = "hmac_sha1 hb (hdr @ iv @ c)"
  have "sink_holds start (sink_write ?sig (sink_write c2 (ew_sink w))) (((hdr @ iv @ c1) @ c2) @ ?sig)"
    by (intro sink_write_holds s(7))
  then have "sink_out (sink_flush (sink_write ?sig (sink_write c2 (ew_sink w))))
      = start @ sink_text (ew_sink w) (hdr @ iv @ c @ ?sig)"
    using sink_flush_out by (simp add: cc)
  then show ?thesis
    using s(1) wr by (simp add: ew_flush_def ew_CheckOpen_def sbind_def hs_Sign_def hs_Update_def s(6) cc)
qed

definition stream_encrypt :: "crypto \<Rightarrow> aes_key \<Rightarrow> sink \<Rightarrow> bytes list \<Rightarrow> (entropy, exn, sink) st" where
  "stream_encrypt L k out ds = sbind (EncryptingStreamWriter_init L k out) (\<lambda>w.
     slift (case sbind (ew_writes L ds) (\<lambda>_. ew_flush L) w of
       (Inl e, w') \<Rightarrow> Inl e | (Inr _, w') \<Rightarrow> Inr (ew_sink w')))"

lemma stream_encrypt_eq:
  assumes ok: "backend_ok L" "aes_ok k" and start: "sink_holds start out []"
    and enc: "aes_Encrypt L k (concat ds) r = (Inr ct, r')"
  shows "\<exists>out'. stream_encrypt L k out ds r = (Inr out', r') \<and> sink_out out' = start @ sink_text out ct"
proof -
  obtain kb h iv c sig where
    e: "aes_Encrypt L k (concat ds) r = (Inr ((CHR 0x00 # h) @ iv @ c @ sig), \<lambda>i. r (i + 16))"
    and kb: "aes_key_bytes k = Inr kb" and args: "aes_args kb iv" and h: "aes_Hash k = Inr (Base64WSEncode h)"
    and iv: "iv = map r [0..<16]" and c: "cbc_enc L kb iv (aes_Pad (concat ds)) = Inr c" and sig:
    "hmac_Sign (aes_hmac_key k) ((CHR 0x00 # h) @ iv @ c) = Inr sig"
    using ok by (rule aes_Encrypt_shape)
  obtain hb where hb: "hmac_key_bytes (aes_hmac_key k) = Inr hb" using ok(2) by (rule aes_okE)
  have hdr: "aes_Header k = Inr (CHR 0x00 # h)" using h by (simp add: aes_Header_def Key_Header_def)
  let ?hdr = "CHR 0x00 # h"
  have laws: "aes_laws L" using ok(1) by (simp add: backend_ok_def)
  define w where "w = \<lparr>ew_key = k, ew_sink = sink_write (?hdr @ iv) out, ew_data = [],
     ew_closed = False, ew_hmac = \<lparr>hs_key = hb, hs_fed = ?hdr @ iv\<rparr>,
     ew_cipher = \<lparr>ac_key = kb, ac_iv = iv, ac_fed = []\<rparr>\<rparr>"
  have rnd: "RandBytes 16 r = (Inr iv, \<lambda>i. r (i + 16))" by (simp add: iv)
  have init: "EncryptingStreamWriter_init L k out r = (Inr w, \<lambda>i. r (i + 16))"
    using hb kb hdr laws args
    by (simp add: EncryptingStreamWriter_init_def CreateStreamable_def sbind_def slift_def rnd AES_new_def
        aes_laws_def w_def hs_Update_def del: RandBytes_nat)
  have "cbc_cipher (cbc_enc L)" using laws by (simp add: aes_laws_def)
  then have "cbc_enc L kb iv [] = Inr []" using args cbc_cipherE [of "cbc_enc L" kb iv "[]"] by auto
  moreover have "sink_holds start (sink_write (?hdr @ iv) out) (?hdr @ iv)"
    using sink_write_holds [OF start, of "?hdr @ iv"] by simp
  ultimately have "ew_holds L kb hb ?hdr iv start w []"
    by (simp add: ew_holds_def w_def)
  then obtain w1 where w1: "ew_writes L ds w = (Inr (), w1)" "ew_holds L kb hb ?hdr iv start w1 ([] @ concat ds)"
    "sink_text (ew_sink w1) = sink_text (ew_sink w)"
    using ew_writes_holds [OF laws args] by blast
  obtain w2 where w2: "ew_flush L w1 = (Inr (), w2)"
    "sink_out (ew_sink w2) = start @ sink_text (ew_sink w1) (?hdr @ iv @ c @ hmac_sha1 hb (?hdr @ iv @ c))"
    using ew_flush_holds [OF laws args w1(2)] c by auto
  have "sig = hmac_sha1 hb (?hdr @ iv @ c)" using sig hb by (simp add: hmac_Sign_def)
  moreover have "sink_text (ew_sink w) = sink_text out" by (simp add: w_def fun_eq_iff)
  ultimately have "sink_out (ew_sink w2) = start @ sink_text out ct" using w1(3) w2(2) e enc by simp
  then show ?thesis using init w1(1) w2(1) e enc
    by (simp add: stream_encrypt_def sbind_def slift_def)
qed

subsection \<open>DecryptingStreamReader\<close>

record 's dec_reader =
  dr_src :: 's
  dr_buffer_size :: int
  dr_key :: "aes_key option"
  dr_cipher :: "aes_cipher option"
  dr_hmac :: "hmac_stream option"
  dr_enc :: bytes
  dr_dec :: bytes
  dr_closed :: bool

definition DecryptingStreamReader_init :: "'s \<Rightarrow> int \<Rightarrow> 's dec_reader" where
  "DecryptingStreamReader_init input_stream buffer_size =
     \<lparr>dr_src = input_stream, dr_buffer_size = buffer_size, dr_key = None, dr_cipher = None,
      dr_hmac = None, dr_enc = [], dr_dec = [], dr_closed = False\<rparr>"

text \<open>
  \<open>__ReadBytes\<close>: the loop asks for \<open>size\<close> bytes each time, so it may return more. The value
  \<open>None\<close> of this and the following functions is a call that does not return.
\<close>

partial_function (option) ReadBytes_loop ::
    "'s reading \<Rightarrow> int \<Rightarrow> bool \<Rightarrow> bytes \<Rightarrow> 's \<Rightarrow> ((exn + bytes \<times> bool) \<times> 's) option" where
  "ReadBytes_loop rd sz block result s =
     (case rd sz s of
        None \<Rightarrow> None
      | Some (Inl e, s') \<Rightarrow> Some (Inl e, s')
      | Some (Inr read_bytes, s') \<Rightarrow>
          (if got read_bytes \<noteq> [] then
             (if int (length (result @ got read_bytes)) < sz
              then ReadBytes_loop rd sz block (result @ got read_bytes) s'
              else Some (Inr (result @ got read_bytes, True), s'))
           else if read_bytes \<noteq> None then Some (Inr (result, False), s')
           else if \<not> block then Some (Inr (result, True), s')
           else if int (length result) < sz then ReadBytes_loop rd sz block result s'
           else Some (Inr (result, True), s')))"

definition dr_ReadBytes ::
    "'s reading \<Rightarrow> int \<Rightarrow> bool \<Rightarrow> 's dec_reader \<Rightarrow> ((exn + bytes \<times> bool) \<times> 's dec_reader) option" where
  "dr_ReadBytes rd sz block r = (case ReadBytes_loop rd sz block [] (dr_src r) of
     None \<Rightarrow> None | Some (x, s) \<Rightarrow> Some (x, r\<lparr>dr_src := s\<rparr>))"

text \<open>\<open>parse\<close> is the \<open>_ParseHeader\<close> of the key set.\<close>

definition dr_CreateKey ::
    "'s reading \<Rightarrow> (bytes \<Rightarrow> exn + aes_key) \<Rightarrow> 's dec_reader \<Rightarrow> ((exn + bool) \<times> 's dec_reader) option" where
  "dr_CreateKey rd parse r0 = (if dr_key r0 \<noteq> None then Some (Inr True, r0) else
     (case dr_ReadBytes rd (int HEADER_SIZE - int (length (dr_enc r0))) True r0 of
        None \<Rightarrow> None
      | Some (Inl e, r) \<Rightarrow> Some (Inl e, r)
      | Some (Inr (read_bytes, is_data_avail), r) \<Rightarrow>
          (let enc = dr_enc r @ read_bytes in
           if length enc \<ge> HEADER_SIZE then
             (let hdr_bytes = take HEADER_SIZE enc; r1 = r\<lparr>dr_enc := drop HEADER_SIZE enc\<rparr> in
              case parse hdr_bytes of
                Inl e \<Rightarrow> Some (Inl e, r1)
              | Inr k \<Rightarrow>
                  (case CreateStreamable (aes_hmac_key k) of
                     Inl e \<Rightarrow> Some (Inl e, r1\<lparr>dr_key := Some k\<rparr>)
                   | Inr h \<Rightarrow> Some (Inr is_data_avail,
                       r1\<lparr>dr_key := Some k, dr_hmac := Some (hs_Update hdr_bytes h),
                          dr_buffer_size := (if dr_buffer_size r1 \<ge> 0
                            then aes_NoPadBufferSize (dr_buffer_size r1) else dr_buffer_size r1)\<rparr>)))
           else Some (Inr is_data_avail, r\<lparr>dr_enc := enc\<rparr>))))"

definition dr_CreateCipher ::
    "'s reading \<Rightarrow> crypto \<Rightarrow> aes_key \<Rightarrow> 's dec_reader \<Rightarrow> ((exn + bool) \<times> 's dec_reader) option" where
  "dr_CreateCipher rd L k r0 = (if dr_cipher r0 \<noteq> None then Some (Inr True, r0) else
     (case dr_ReadBytes rd (int block_size - int (length (dr_enc r0))) True r0 of
        None \<Rightarrow> None
      | Some (Inl e, r) \<Rightarrow> Some (Inl e, r)
      | Some (Inr (read_bytes, is_data_avail), r) \<Rightarrow>
          (let enc = dr_enc r @ read_bytes in
           if length enc \<ge> block_size then
             (let iv_bytes = take block_size enc;
                  r1 = r\<lparr>dr_enc := drop block_size enc,
                         dr_hmac := map_option (hs_Update iv_bytes) (dr_hmac r)\<rparr>
              in case ebind (aes_key_bytes k) (\<lambda>kb. AES_new L kb iv_bytes) of
                   Inl e \<Rightarrow> Some (Inl e, r1)
                 | Inr c \<Rightarrow> Some (Inr is_data_avail, r1\<lparr>dr_cipher := Some c\<rparr>))
           else Some (Inr is_data_avail, r\<lparr>dr_enc := enc\<rparr>))))"

text \<open>
  How much of the buffer can be decrypted: a signature, and a block while there may be more data,
  are held back, and what is not a whole number of blocks.
\<close>

definition dr_select :: "bool \<Rightarrow> bytes \<Rightarrow> bytes" where
  "dr_select is_data_avail enc =
     (let reserved_data_len = HLEN + (if is_data_avail then block_size else 0);
          available_data = slice_to enc (- int reserved_data_len);
          no_decrypt_len = (if is_data_avail then length available_data mod block_size else 0)
      in if no_decrypt_len \<noteq> 0 then slice_to available_data (- int no_decrypt_len) else available_data)"

partial_function (option) dr_loop ::
    "'s reading \<Rightarrow> 's dec_reader \<Rightarrow> ((exn + bytes \<times> bool) \<times> 's dec_reader) option" where
  "dr_loop rd r0 = (case dr_ReadBytes rd (int block_size) False r0 of
     None \<Rightarrow> None
   | Some (Inl e, r) \<Rightarrow> Some (Inl e, r)
   | Some (Inr (read_bytes, is_data_avail), r) \<Rightarrow>
       (let r1 = r\<lparr>dr_enc := dr_enc r @ read_bytes\<rparr>;
            data_to_decrypt = dr_select is_data_avail (dr_enc r1)
        in if is_data_avail \<and> data_to_decrypt = [] then dr_loop rd r1
           else Some (Inr (data_to_decrypt, is_data_avail), r1)))"

definition dr_decrypt :: "crypto \<Rightarrow> aes_key \<Rightarrow> bytes \<Rightarrow> bool \<Rightarrow> ('s dec_reader, exn, unit) st" where
  "dr_decrypt L k data is_data_avail = (\<lambda>r0. case (dr_cipher r0, dr_hmac r0) of
     (Some c0, Some h0) \<Rightarrow>
      (if data = [] then (Inr (), r0) else
       let h = hs_Update data h0;
           r = r0\<lparr>dr_hmac := Some h, dr_enc := drop (length data) (dr_enc r0)\<rparr>
       in case ac_decrypt L data c0 of
            (Inl e, c) \<Rightarrow> (Inl e, r\<lparr>dr_cipher := Some c\<rparr>)
          | (Inr decrypted, c) \<Rightarrow>
              (let r1 = r\<lparr>dr_cipher := Some c\<rparr> in
               if \<not> is_data_avail then
                 (if length (dr_enc r1) \<noteq> HLEN then (Inl (ShortCiphertextError (length (dr_enc r1))), r1)
                  else let r2 = r1\<lparr>dr_enc := []\<rparr> in
                       if \<not> VerifySignedData (hs_Sign h) (dr_enc r1) then (Inl InvalidSignatureError, r2)
                       else (case aes_UnPad decrypted of
                               Inl e \<Rightarrow> (Inl e, r2)
                             | Inr d \<Rightarrow> (Inr (), r2\<lparr>dr_dec := dr_dec r2 @ d\<rparr>)))
               else (Inr (), r1\<lparr>dr_dec := dr_dec r1 @ decrypted\<rparr>)))
   | _ \<Rightarrow> (Inl PyAttributeError, r0))"

definition dr_result :: "int \<Rightarrow> bool \<Rightarrow> 's dec_reader \<Rightarrow> bytes option \<times> 's dec_reader" where
  "dr_result chars is_data_avail r =
     (let (result, rest) = (if chars < 0 then (dr_dec r, [])
            else (slice_to (dr_dec r) chars, slice_from (dr_dec r) chars))
      in (if result = [] \<and> is_data_avail then None else Some result, r\<lparr>dr_dec := rest\<rparr>))"

definition dr_read ::
    "'s reading \<Rightarrow> crypto \<Rightarrow> (bytes \<Rightarrow> exn + aes_key) \<Rightarrow> int \<Rightarrow> 's dec_reader
     \<Rightarrow> ((exn + bytes option) \<times> 's dec_reader) option" where
  "dr_read rd L parse chars r0 = (if dr_closed r0 then Some (Inl PyValueError, r0) else
     (case dr_CreateKey rd parse r0 of
        None \<Rightarrow> None
      | Some (Inl e, r) \<Rightarrow> Some (Inl e, r)
      | Some (Inr avail1, r1) \<Rightarrow>
          (case (if avail1 \<and> dr_key r1 \<noteq> None
                 then dr_CreateCipher rd L (the (dr_key r1)) r1 else Some (Inr avail1, r1)) of
             None \<Rightarrow> None
           | Some (Inl e, r) \<Rightarrow> Some (Inl e, r)
           | Some (Inr avail2, r2) \<Rightarrow>
               (if avail2 \<and> dr_key r2 \<noteq> None \<and> dr_cipher r2 \<noteq> None then
                  (case dr_loop rd r2 of
                     None \<Rightarrow> None
                   | Some (Inl e, r) \<Rightarrow> Some (Inl e, r)
                   | Some (Inr (data, avail3), r3) \<Rightarrow>
                       (case dr_decrypt L (the (dr_key r3)) data avail3 r3 of
                          (Inl e, r) \<Rightarrow> Some (Inl e, r)
                        | (Inr _, r4) \<Rightarrow>
                            (case dr_result chars avail3 r4 of (x, r) \<Rightarrow> Some (Inr x, r))))
                else (case dr_result chars avail2 r2 of (x, r) \<Rightarrow> Some (Inr x, r))))))"

definition dr_close :: "'s dec_reader \<Rightarrow> 's dec_reader" where
  "dr_close r = r\<lparr>dr_closed := True\<rparr>"

subsection \<open>Reading the source\<close>

text \<open>
  Reading from any source: what is returned and what remains make up what was there; not enough
  data is an end of the input; a blocking call waits for what was asked.
\<close>

context byte_source
begin

lemma ReadBytes_spec:
  assumes "holds s t" and "0 < sz" and "int (length res) < sz"
  shows "\<exists>x avail s' t'. ReadBytes_loop rd sz block res s = Some (Inr (res @ x, avail), s')
     \<and> holds s' t' \<and> t = x @ t' \<and> (\<not> avail \<longrightarrow> t' = [] \<and> int (length (res @ x)) < sz)
     \<and> (avail \<and> block \<longrightarrow> sz \<le> int (length (res @ x))) \<and> (avail \<longrightarrow> rank s' < rank s)
     \<and> length (res @ x) \<le> 3 * nat sz + 2"
  using assms(1,3)
proof (induction "rank s" arbitrary: s t res rule: less_induct)
  case less
  obtain y s1 t1 where rd: "rd sz s = Some (Inr y, s1)" and s1: "holds s1 t1" and t: "t = got y @ t1"
    and eof: "y = Some [] \<longrightarrow> t = []" and rank: "y = Some [] \<or> rank s1 < rank s"
    and bound: "length (got y) \<le> 2 * nat sz + 2"
    using read_next [OF less.prems(1), of sz] assms(2) by blast
  consider (data) "got y \<noteq> []" | (gap) "y = None" | (eof) "y = Some []"
    by (cases y) (auto simp: got_def)
  then show ?case
  proof cases
    case data
    then have r1: "rank s1 < rank s" using rank by auto
    show ?thesis
    proof (cases "int (length (res @ got y)) < sz")
      case True
      from less.hyps [OF r1 s1 True] obtain x avail s' t' where
        ih: "ReadBytes_loop rd sz block (res @ got y) s1 = Some (Inr ((res @ got y) @ x, avail), s')"
        "holds s' t'" "t1 = x @ t'" "\<not> avail \<longrightarrow> t' = [] \<and> int (length ((res @ got y) @ x)) < sz"
        "avail \<and> block \<longrightarrow> sz \<le> int (length ((res @ got y) @ x))" "avail \<longrightarrow> rank s' < rank s1"
        "length ((res @ got y) @ x) \<le> 3 * nat sz + 2"
        by blast
      have "ReadBytes_loop rd sz block res s = Some (Inr (res @ (got y @ x), avail), s')"
        using rd data True ih(1) by (subst ReadBytes_loop.simps) simp
      with ih t r1 show ?thesis by (intro exI conjI) (assumption, auto)
    next
      case False
      then have "ReadBytes_loop rd sz block res s = Some (Inr (res @ got y, True), s1)"
        using rd data by (subst ReadBytes_loop.simps) simp
      moreover have "length (res @ got y) \<le> 3 * nat sz + 2"
        using bound less.prems(2) by simp
      ultimately show ?thesis using False s1 t r1 by (intro exI conjI) (assumption, auto)
    qed
  next
    case gap
    then have r1: "rank s1 < rank s" using rank by auto
    show ?thesis
    proof (cases "block \<and> int (length res) < sz")
      case True
      from less.hyps [OF r1 s1 less.prems(2)] obtain x avail s' t' where
        ih: "ReadBytes_loop rd sz block res s1 = Some (Inr (res @ x, avail), s')"
        "holds s' t'" "t1 = x @ t'" "\<not> avail \<longrightarrow> t' = [] \<and> int (length (res @ x)) < sz"
        "avail \<and> block \<longrightarrow> sz \<le> int (length (res @ x))" "avail \<longrightarrow> rank s' < rank s1"
        "length (res @ x) \<le> 3 * nat sz + 2"
        by blast
      have "ReadBytes_loop rd sz block res s = Some (Inr (res @ x, avail), s')"
        using rd gap True ih(1) by (subst ReadBytes_loop.simps) simp
      with ih t r1 gap show ?thesis by (intro exI conjI) (assumption, auto)
    next
      case False
      then have "ReadBytes_loop rd sz block res s = Some (Inr (res @ [], True), s1)"
        using rd gap by (subst ReadBytes_loop.simps) auto
      with False s1 t r1 gap less.prems(2) show ?thesis by (intro exI conjI) (assumption, auto)
    qed
  next
    case eof
    then have "ReadBytes_loop rd sz block res s = Some (Inr (res @ [], False), s1)"
      using rd by (subst ReadBytes_loop.simps) simp
    moreover have "t = []" "t1 = []" using eof \<open>y = Some [] \<longrightarrow> t = []\<close> t by auto
    ultimately show ?thesis using s1 less.prems(2) by (intro exI conjI) (assumption, auto)
  qed
qed

end

subsection \<open>What can be decrypted\<close>

lemma dr_select_False: "dr_select False enc = take (length enc - 20) enc"
  by (simp add: dr_select_def Let_def)

lemma dr_select_True:
  assumes "dr_select True enc \<noteq> []"
  obtains e2 where "enc = dr_select True enc @ e2" "blocks (dr_select True enc)" "36 \<le> length e2"
proof -
  define a where "a = take (length enc - 36) enc"
  define m where "m = length a - length a mod 16"
  have sel: "dr_select True enc = take m a"
  proof (cases "length a mod 16 = 0")
    case True
    then show ?thesis by (simp add: dr_select_def Let_def a_def m_def)
  next
    case False
    then have "slice_to a (- int (length a mod 16)) = take m a"
      by (simp only: slice_to_neg m_def if_False)
    with False show ?thesis by (simp add: dr_select_def Let_def a_def [symmetric])
  qed
  have "a \<noteq> []" using assms sel by auto
  then have len: "length a = length enc - 36" "36 < length enc" by (auto simp: a_def)
  have "enc = take m a @ drop m enc"
    by (simp add: a_def min_def m_def)
  moreover have "blocks (take m a)"
  proof -
    have "m = 16 * (length a div 16)" by (simp add: m_def minus_mod_eq_mult_div)
    moreover have "length (take m a) = m" by (simp add: m_def)
    ultimately show ?thesis unfolding blocks_def by (metis dvd_triv_left)
  qed
  moreover have "36 \<le> length (drop m enc)"
    using len by (simp add: m_def)
  ultimately show ?thesis using that sel by metis
qed

subsection \<open>The states of a reader\<close>

text \<open>
  After the header and the vector: \<open>fed\<close> is decrypted, \<open>todo\<close> (ciphertext and signature) is in the
  buffer and in the source.
\<close>

definition dr_at :: "('s \<Rightarrow> bytes \<Rightarrow> bool) \<Rightarrow> aes_key \<Rightarrow> bytes \<Rightarrow> bytes \<Rightarrow> bytes \<Rightarrow> bytes
    \<Rightarrow> 's dec_reader \<Rightarrow> bytes \<Rightarrow> bytes \<Rightarrow> bool" where
  "dr_at holds k kb hb hdr iv r fed todo \<longleftrightarrow> \<not> dr_closed r \<and> dr_key r = Some k
     \<and> dr_cipher r = Some \<lparr>ac_key = kb, ac_iv = iv, ac_fed = fed\<rparr>
     \<and> dr_hmac r = Some \<lparr>hs_key = hb, hs_fed = hdr @ iv @ fed\<rparr>
     \<and> (\<exists>t. holds (dr_src r) t \<and> dr_enc r @ t = todo)"

definition dr_setup :: "crypto \<Rightarrow> (bytes \<Rightarrow> exn + aes_key) \<Rightarrow> aes_key \<Rightarrow> bytes \<Rightarrow> bytes \<Rightarrow> bytes \<Rightarrow> bytes \<Rightarrow> bool" where
  "dr_setup L parse k kb hb hdr iv \<longleftrightarrow> aes_laws L \<and> parse hdr = Inr k \<and> length hdr = 5
     \<and> aes_key_bytes k = Inr kb \<and> hmac_key_bytes (aes_hmac_key k) = Inr hb \<and> aes_args kb iv"

lemma dr_decrypt_more:
  assumes at: "dr_at holds k kb hb hdr iv r fed (c2 @ sig)" and sig: "length sig = 20"
    and dec: "cbc_cipher (cbc_dec L)" "aes_args kb iv" "cbc_dec L kb iv (fed @ c2) = Inr P"
    and blocks: "blocks fed" "blocks c2"
    and data: "dr_enc r = data @ e2" "blocks data" "36 \<le> length e2" "data \<noteq> []"
  shows "\<exists>r' c3. dr_decrypt L k data True r = (Inr (), r') \<and> c2 = data @ c3 \<and> 16 \<le> length c3
     \<and> dr_at holds k kb hb hdr iv r' (fed @ data) (c3 @ sig)
     \<and> dr_dec r' = dr_dec r @ take (length data) (drop (length fed) P)"
proof -
  obtain t where t: "holds (dr_src r) t" "data @ e2 @ t = c2 @ sig"
    using at data(1) by (auto simp: dr_at_def)
  have "length data + 16 \<le> length c2"
    using arg_cong [OF t(2), of length] sig data(3) by simp
  then have "data = take (length data) c2" using t(2)
    by (metis append_eq_conv_conj le_add1 order_trans take_append take_all_iff diff_is_0_eq take_0 append_Nil2)
  then obtain c3 where c3: "c2 = data @ c3" by (metis append_take_drop_id)
  then have len3: "16 \<le> length c3" using \<open>length data + 16 \<le> length c2\<close> by simp
  have b3: "blocks c3" using blocks(2) data(2) c3 by simp
  have fd: "blocks (fed @ data)" using blocks(1) data(2) by simp
  obtain P1 P2 where P1: "cbc_dec L kb iv (fed @ data) = Inr P1"
    and PP: "cbc_dec L kb iv ((fed @ data) @ c3) = Inr (P1 @ P2)" and lP: "length P1 = length (fed @ data)"
    using cbc_cipher_prefix [OF dec(1,2) fd b3] by metis
  have "P = P1 @ P2" using PP dec(3) c3 by simp
  then have chunk: "drop (length fed) P1 = take (length data) (drop (length fed) P)"
    using lP by (simp add: take_drop)
  let ?r = "r\<lparr>dr_hmac := Some (hs_Update data \<lparr>hs_key = hb, hs_fed = hdr @ iv @ fed\<rparr>),
     dr_enc := drop (length data) (dr_enc r), dr_cipher := Some \<lparr>ac_key = kb, ac_iv = iv, ac_fed = fed @ data\<rparr>,
     dr_dec := dr_dec r @ drop (length fed) P1\<rparr>"
  have "dr_decrypt L k data True r = (Inr (), ?r)"
    using at data(4) P1 by (simp add: dr_decrypt_def dr_at_def ac_decrypt_def Let_def)
  moreover have "dr_at holds k kb hb hdr iv ?r (fed @ data) (c3 @ sig)"
    using at data(1) t c3 by (auto simp: dr_at_def hs_Update_def)
  ultimately show ?thesis using c3 len3 chunk by (intro exI [of _ ?r] exI [of _ c3]) simp
qed

lemma dr_decrypt_last:
  assumes at: "dr_at holds k kb hb hdr iv r fed (c2 @ sig)" and sig: "length sig = 20"
    and dec: "cbc_dec L kb iv (fed @ c2) = Inr P" and enc: "dr_enc r = c2 @ sig" and ne: "c2 \<noteq> []"
  shows "\<exists>r'. dr_decrypt L k c2 False r = (if hmac_sha1 hb (hdr @ iv @ fed @ c2) = sig
        then (case aes_UnPad (drop (length fed) P) of Inl e \<Rightarrow> (Inl e, r')
              | Inr d \<Rightarrow> (Inr (), r'\<lparr>dr_dec := dr_dec r @ d\<rparr>))
        else (Inl InvalidSignatureError, r'))
     \<and> dr_at holds k kb hb hdr iv r' (fed @ c2) [] \<and> dr_enc r' = []"
proof -
  let ?r = "r\<lparr>dr_hmac := Some (hs_Update c2 \<lparr>hs_key = hb, hs_fed = hdr @ iv @ fed\<rparr>),
     dr_enc := [], dr_cipher := Some \<lparr>ac_key = kb, ac_iv = iv, ac_fed = fed @ c2\<rparr>\<rparr>"
  have "dr_at holds k kb hb hdr iv ?r (fed @ c2) []"
    using at enc by (auto simp: dr_at_def hs_Update_def)
  moreover have "dr_decrypt L k c2 False r = (if hmac_sha1 hb (hdr @ iv @ fed @ c2) = sig
        then (case aes_UnPad (drop (length fed) P) of Inl e \<Rightarrow> (Inl e, ?r)
              | Inr d \<Rightarrow> (Inr (), ?r\<lparr>dr_dec := dr_dec r @ d\<rparr>))
        else (Inl InvalidSignatureError, ?r))"
    using at ne dec enc sig
    by (simp add: dr_decrypt_def dr_at_def ac_decrypt_def VerifySignedData_eq hs_Sign_def hs_Update_def
        Let_def split: sum.split)
  ultimately show ?thesis by (intro exI [of _ ?r]) simp
qed

context byte_source
begin

lemma dr_ReadBytes_spec:
  assumes "holds (dr_src r) t" and "0 < sz"
  shows "\<exists>x avail s' t'. dr_ReadBytes rd sz block r = Some (Inr (x, avail), r\<lparr>dr_src := s'\<rparr>)
     \<and> holds s' t' \<and> t = x @ t' \<and> (\<not> avail \<longrightarrow> t' = [] \<and> int (length x) < sz)
     \<and> (avail \<and> block \<longrightarrow> sz \<le> int (length x)) \<and> (avail \<longrightarrow> rank s' < rank (dr_src r))
     \<and> length x \<le> 3 * nat sz + 2"
proof -
  have "int (length ([] :: bytes)) < sz" using assms(2) by simp
  from ReadBytes_spec [OF assms this, of block] obtain x avail s' t' where
    "ReadBytes_loop rd sz block [] (dr_src r) = Some (Inr ([] @ x, avail), s')"
    and rest: "holds s' t' \<and> t = x @ t' \<and> (\<not> avail \<longrightarrow> t' = [] \<and> int (length ([] @ x)) < sz)
     \<and> (avail \<and> block \<longrightarrow> sz \<le> int (length ([] @ x))) \<and> (avail \<longrightarrow> rank s' < rank (dr_src r))
     \<and> length ([] @ x) \<le> 3 * nat sz + 2"
    by blast
  then have "dr_ReadBytes rd sz block r = Some (Inr (x, avail), r\<lparr>dr_src := s'\<rparr>)"
    by (simp add: dr_ReadBytes_def)
  with rest show ?thesis unfolding append_Nil by blast
qed

lemma dr_loop_spec:
  assumes "dr_at holds k kb hb hdr iv r fed todo"
  shows "\<exists>data avail r'. dr_loop rd r = Some (Inr (data, avail), r') \<and> dr_at holds k kb hb hdr iv r' fed todo
     \<and> dr_dec r' = dr_dec r \<and> data = dr_select avail (dr_enc r') \<and> (avail \<longrightarrow> data \<noteq> [])
     \<and> (\<not> avail \<longrightarrow> dr_enc r' = todo)"
  using assms
proof (induction "rank (dr_src r)" arbitrary: r rule: less_induct)
  case less
  obtain t where t: "holds (dr_src r) t" "dr_enc r @ t = todo" using less.prems by (auto simp: dr_at_def)
  obtain x avail s' t' where rb: "dr_ReadBytes rd 16 False r = Some (Inr (x, avail), r\<lparr>dr_src := s'\<rparr>)"
    and s': "holds s' t'" "t = x @ t'" "\<not> avail \<longrightarrow> t' = []" "avail \<longrightarrow> rank s' < rank (dr_src r)"
    using dr_ReadBytes_spec [OF t(1), of 16 False] by auto
  let ?r = "r\<lparr>dr_src := s', dr_enc := dr_enc r @ x\<rparr>"
  have at: "dr_at holds k kb hb hdr iv ?r fed todo"
    using less.prems t s' by (auto simp: dr_at_def)
  show ?case
  proof (cases "avail \<and> dr_select avail (dr_enc r @ x) = []")
    case True
    then have rb': "dr_ReadBytes rd 16 False r = Some (Inr (x, True), r\<lparr>dr_src := s'\<rparr>)"
      and empty: "dr_select True (dr_enc r @ x) = []" using rb by auto
    have "dr_loop rd r = dr_loop rd ?r"
      by (subst dr_loop.simps) (simp add: rb' empty Let_def)
    with less.hyps [of ?r] at True s'(4) show ?thesis by simp
  next
    case False
    then have "dr_loop rd r = Some (Inr (dr_select avail (dr_enc r @ x), avail), ?r)"
      using rb by (subst dr_loop.simps) (auto simp add: Let_def)
    with False at t s' show ?thesis by auto
  qed
qed

lemma dr_start:
  assumes su0: "dr_setup L parse k kb hb hdr iv" and src: "holds s (hdr @ iv @ todo)"
  shows "\<exists>r1 r2. dr_CreateKey rd parse (DecryptingStreamReader_init s n) = Some (Inr True, r1)
     \<and> dr_key r1 = Some k \<and> dr_CreateCipher rd L k r1 = Some (Inr True, r2)
     \<and> dr_at holds k kb hb hdr iv r2 [] todo \<and> dr_dec r2 = []"
proof -
  note su = su0 [unfolded dr_setup_def aes_args_def]
  let ?r0 = "DecryptingStreamReader_init s n"
  obtain x avail s1 t1 where rb: "dr_ReadBytes rd 5 True ?r0 = Some (Inr (x, avail), ?r0\<lparr>dr_src := s1\<rparr>)"
    and s1: "holds s1 t1" "hdr @ iv @ todo = x @ t1" "\<not> avail \<longrightarrow> t1 = [] \<and> int (length x) < 5"
      "avail \<and> True \<longrightarrow> 5 \<le> int (length x)" "length x \<le> 3 * nat 5 + 2"
  proof -
    have "holds (dr_src ?r0) (hdr @ iv @ todo)" "(0 :: int) < 5"
      using src by (simp_all add: DecryptingStreamReader_init_def)
    from dr_ReadBytes_spec [OF this, of True] that show ?thesis by blast
  qed
  have avail: "avail" and x5: "5 \<le> length x"
    using s1(2-4) arg_cong [OF s1(2), of length] su by (cases avail; auto)+
  have hdr: "take 5 x = hdr" and rest: "drop 5 x @ t1 = iv @ todo"
    using arg_cong [OF s1(2), of "take 5"] arg_cong [OF s1(2), of "drop 5"] x5 su by simp_all
  let ?r1 = "?r0\<lparr>dr_src := s1, dr_enc := drop 5 x, dr_key := Some k,
       dr_hmac := Some \<lparr>hs_key = hb, hs_fed = hdr\<rparr>,
       dr_buffer_size := (if n \<ge> 0 then aes_NoPadBufferSize n else n)\<rparr>"
  have ck: "dr_CreateKey rd parse ?r0 = Some (Inr True, ?r1)"
    using rb x5 hdr su avail
    by (simp add: dr_CreateKey_def DecryptingStreamReader_init_def CreateStreamable_def hs_Update_def Let_def)
  have x9: "length x \<le> 20" using s1(5) by simp
  obtain y avail2 s2 t2 where
    rb2: "dr_ReadBytes rd (16 - int (length (drop 5 x))) True ?r1 = Some (Inr (y, avail2), ?r1\<lparr>dr_src := s2\<rparr>)"
    and s2: "holds s2 t2" "t1 = y @ t2" "\<not> avail2 \<longrightarrow> t2 = [] \<and> int (length y) < 16 - int (length (drop 5 x))"
      "avail2 \<and> True \<longrightarrow> 16 - int (length (drop 5 x)) \<le> int (length y)"
  proof -
    have "holds (dr_src ?r1) t1" "0 < 16 - int (length (drop 5 x))"
      using s1(1) x9 by simp_all
    from dr_ReadBytes_spec [OF this, of True] that show ?thesis by auto
  qed
  have len2: "length (drop 5 x) + length t1 = 16 + length todo"
    using arg_cong [OF rest, of length] su by simp
  have avail2: "avail2" and enough: "16 \<le> length (drop 5 x @ y)"
    using s2(2-4) len2 by (cases avail2; auto)+
  have iv: "take 16 (drop 5 x @ y) = iv" and todo: "drop 16 (drop 5 x @ y) @ t2 = todo"
    using arg_cong [OF rest, of "take 16"] arg_cong [OF rest, of "drop 16"] enough su s2(2) by simp_all
  let ?r2 = "?r1\<lparr>dr_src := s2, dr_enc := drop 16 (drop 5 x @ y),
      dr_hmac := Some \<lparr>hs_key = hb, hs_fed = hdr @ iv\<rparr>,
      dr_cipher := Some \<lparr>ac_key = kb, ac_iv = iv, ac_fed = []\<rparr>\<rparr>"
  have "AES_new L kb iv = Inr \<lparr>ac_key = kb, ac_iv = iv, ac_fed = []\<rparr>"
    using su0 by (auto simp: AES_new_def dr_setup_def aes_laws_def)
  then have "dr_CreateCipher rd L k ?r1 = Some (Inr True, ?r2)"
    using rb2 avail2 enough iv su
    by (simp add: dr_CreateCipher_def DecryptingStreamReader_init_def hs_Update_def Let_def)
  moreover have "dr_at holds k kb hb hdr iv ?r2 [] todo"
    using s2(1) todo by (auto simp: dr_at_def DecryptingStreamReader_init_def)
  ultimately show ?thesis using ck
    by (intro exI [of _ ?r1] exI [of _ ?r2]) (simp add: DecryptingStreamReader_init_def)
qed

lemma dr_read_at:
  assumes "dr_at holds k kb hb hdr iv r fed todo"
  shows "dr_read rd L parse chars r = (case dr_loop rd r of
       None \<Rightarrow> None
     | Some (Inl e, r) \<Rightarrow> Some (Inl e, r)
     | Some (Inr (data, avail3), r3) \<Rightarrow>
         (case dr_decrypt L (the (dr_key r3)) data avail3 r3 of
            (Inl e, r) \<Rightarrow> Some (Inl e, r)
          | (Inr _, r4) \<Rightarrow> (case dr_result chars avail3 r4 of (x, r) \<Rightarrow> Some (Inr x, r))))"
  using assms by (simp add: dr_at_def dr_read_def dr_CreateKey_def dr_CreateCipher_def)

lemma dr_read_init:
  assumes "dr_CreateKey rd parse r = Some (Inr True, r1)" "dr_key r1 = Some k"
    and "dr_CreateCipher rd L k r1 = Some (Inr True, r2)" "dr_at holds k kb hb hdr iv r2 [] todo"
    and "\<not> dr_closed r"
  shows "dr_read rd L parse chars r = dr_read rd L parse chars r2"
  using assms dr_read_at [OF assms(4)] by (simp add: dr_read_def dr_at_def)

text \<open>One read of a reader whose ciphertext \<open>fed @ c2\<close> decrypts to \<open>P\<close>.\<close>

lemma dr_read_step:
  assumes at: "dr_at holds k kb hb hdr iv r fed (c2 @ sig)" and sig: "length sig = 20"
    and dec: "cbc_cipher (cbc_dec L)" "aes_args kb iv" "cbc_dec L kb iv (fed @ c2) = Inr P"
    and blocks: "blocks fed" "blocks c2" and len: "16 \<le> length c2"
  shows "(\<exists>data c3 r'. dr_read rd L parse chars r = (case dr_result chars True r' of (x, r'') \<Rightarrow> Some (Inr x, r''))
       \<and> data \<noteq> [] \<and> c2 = data @ c3 \<and> blocks data \<and> 16 \<le> length c3 \<and> dr_at holds k kb hb hdr iv r' (fed @ data) (c3 @ sig)
       \<and> dr_dec r' = dr_dec r @ take (length data) (drop (length fed) P))
   \<or> (\<exists>r'. dr_read rd L parse chars r = (if hmac_sha1 hb (hdr @ iv @ fed @ c2) = sig
        then (case aes_UnPad (drop (length fed) P) of Inl e \<Rightarrow> Some (Inl e, r')
              | Inr d \<Rightarrow> (case dr_result chars False (r'\<lparr>dr_dec := dr_dec r @ d\<rparr>) of (x, r'') \<Rightarrow> Some (Inr x, r'')))
        else Some (Inl InvalidSignatureError, r'))
       \<and> dr_at holds k kb hb hdr iv r' (fed @ c2) [] \<and> dr_enc r' = [])"
proof -
  obtain data avail r1 where loop: "dr_loop rd r = Some (Inr (data, avail), r1)"
    and at1: "dr_at holds k kb hb hdr iv r1 fed (c2 @ sig)" and d1: "dr_dec r1 = dr_dec r"
    and data: "data = dr_select avail (dr_enc r1)" "avail \<longrightarrow> data \<noteq> []" "\<not> avail \<longrightarrow> dr_enc r1 = c2 @ sig"
    using dr_loop_spec [OF at] by blast
  have key: "dr_key r1 = Some k" using at1 by (simp add: dr_at_def)
  show ?thesis
  proof (cases avail)
    case True
    then have ne: "dr_select True (dr_enc r1) \<noteq> []" using data by auto
    obtain e2 where e2: "dr_enc r1 = data @ e2" "blocks data" "36 \<le> length e2"
      using dr_select_True [OF ne] data(1) True by auto
    obtain r2 c3 where dd: "dr_decrypt L k data True r1 = (Inr (), r2)" "c2 = data @ c3" "16 \<le> length c3"
      "dr_at holds k kb hb hdr iv r2 (fed @ data) (c3 @ sig)"
      "dr_dec r2 = dr_dec r1 @ take (length data) (drop (length fed) P)"
      using dr_decrypt_more [OF at1 sig dec blocks e2] data(2) True by blast
    have rd: "dr_read rd L parse chars r = (case dr_result chars True r2 of (x, r'') \<Rightarrow> Some (Inr x, r''))"
      unfolding dr_read_at [OF at] using loop key dd(1) True by simp
    have ne': "data \<noteq> []" using data(2) True by blast
    show ?thesis
      by (rule disjI1, rule exI [of _ data], rule exI [of _ c3], rule exI [of _ r2], intro conjI)
         (fact rd ne' dd(2-4) e2(2) dd(5) [unfolded d1])+
  next
    case False
    then have enc: "dr_enc r1 = c2 @ sig" and c2: "data = c2"
      using data sig by (simp_all add: dr_select_False)
    have "c2 \<noteq> []" using len by auto
    from dr_decrypt_last [OF at1 sig dec(3) enc this] obtain r2 where
      dd: "dr_decrypt L k c2 False r1 = (if hmac_sha1 hb (hdr @ iv @ fed @ c2) = sig
        then (case aes_UnPad (drop (length fed) P) of Inl e \<Rightarrow> (Inl e, r2)
              | Inr d \<Rightarrow> (Inr (), r2\<lparr>dr_dec := dr_dec r1 @ d\<rparr>))
        else (Inl InvalidSignatureError, r2))"
      "dr_at holds k kb hb hdr iv r2 (fed @ c2) []" "dr_enc r2 = []"
      by (elim exE conjE) (rule that; assumption)
    have "dr_read rd L parse chars r = (if hmac_sha1 hb (hdr @ iv @ fed @ c2) = sig
        then (case aes_UnPad (drop (length fed) P) of Inl e \<Rightarrow> Some (Inl e, r2)
              | Inr d \<Rightarrow> (case dr_result chars False (r2\<lparr>dr_dec := dr_dec r @ d\<rparr>) of (x, r'') \<Rightarrow> Some (Inr x, r'')))
        else Some (Inl InvalidSignatureError, r2))"
      unfolding dr_read_at [OF at] using loop key dd(1) False c2 d1
      by (simp split: sum.split)
    with dd show ?thesis by (intro disjI2) blast
  qed
qed

lemma dr_read_end:
  assumes at: "dr_at holds k kb hb hdr iv r fed []"
  shows "\<exists>r'. dr_read rd L parse chars r = (case dr_result chars False r' of (x, r'') \<Rightarrow> Some (Inr x, r''))
     \<and> dr_at holds k kb hb hdr iv r' fed [] \<and> dr_dec r' = dr_dec r"
proof -
  obtain data avail r1 where loop: "dr_loop rd r = Some (Inr (data, avail), r1)"
    and at1: "dr_at holds k kb hb hdr iv r1 fed []" and d1: "dr_dec r1 = dr_dec r"
    and data: "data = dr_select avail (dr_enc r1)" "avail \<longrightarrow> data \<noteq> []" "\<not> avail \<longrightarrow> dr_enc r1 = []"
    using dr_loop_spec [OF at] by blast
  have enc: "dr_enc r1 = []" using at1 by (auto simp: dr_at_def)
  then have "data = []" using data(1) by (simp add: dr_select_def Let_def)
  with data(2) have "\<not> avail" by simp
  moreover have "dr_decrypt L k [] False r1 = (Inr (), r1)"
    using at1 by (simp add: dr_decrypt_def dr_at_def)
  moreover have "dr_key r1 = Some k" using at1 by (simp add: dr_at_def)
  ultimately show ?thesis
    unfolding dr_read_at [OF at] using loop at1 d1 \<open>data = []\<close> by (intro exI [of _ r1]) simp
qed

end

subsection \<open>The whole plaintext\<close>

text \<open>
  The reader holds the plaintext \<open>t\<close>: before the first read all of it, then what is decrypted and
  not handed out followed by what the rest of the ciphertext holds.
\<close>

definition dr_holds :: "('s \<Rightarrow> bytes \<Rightarrow> bool) \<Rightarrow> crypto \<Rightarrow> (bytes \<Rightarrow> exn + aes_key) \<Rightarrow> aes_key \<Rightarrow> bytes \<Rightarrow> bytes
    \<Rightarrow> bytes \<Rightarrow> bytes \<Rightarrow> bytes \<Rightarrow> bytes \<Rightarrow> 's dec_reader \<Rightarrow> bytes \<Rightarrow> bool" where
  "dr_holds holds L parse k kb hb hdr iv c d r t \<longleftrightarrow>
     (let sig = hmac_sha1 hb (hdr @ iv @ c) in
      (\<exists>s n. r = DecryptingStreamReader_init s n \<and> holds s (hdr @ iv @ c @ sig) \<and> t = d)
      \<or> (\<exists>fed c2. c = fed @ c2 \<and> blocks fed \<and> 16 \<le> length c2 \<and> dr_at holds k kb hb hdr iv r fed (c2 @ sig)
           \<and> t = dr_dec r @ drop (length fed) d)
      \<or> (dr_at holds k kb hb hdr iv r c [] \<and> t = dr_dec r))"

lemma dr_result_some:
  assumes "chars \<noteq> 0"
  shows "\<exists>y rest. dr_result chars avail r = (if y = [] \<and> avail then None else Some y, r\<lparr>dr_dec := rest\<rparr>)
     \<and> dr_dec r = y @ rest \<and> (y = [] \<longrightarrow> dr_dec r = [])"
proof (cases "chars < 0")
  case True
  then show ?thesis by (auto simp: dr_result_def Let_def)
next
  case False
  then obtain m where m: "chars = int (Suc m)" using assms
    by (metis gr0_implies_Suc linorder_neqE_linordered_idom nat_0_le zero_less_nat_eq nat_int not_less)
  have "dr_result chars avail r = (if take (Suc m) (dr_dec r) = [] \<and> avail then None
      else Some (take (Suc m) (dr_dec r)), r\<lparr>dr_dec := drop (Suc m) (dr_dec r)\<rparr>)"
    by (simp only: m dr_result_def Let_def slice_to_nat slice_from_nat prod.case of_nat_less_0_iff if_False)
  then show ?thesis
    by (intro exI [of _ "take (Suc m) (dr_dec r)"] exI [of _ "drop (Suc m) (dr_dec r)"]) simp
qed

lemma dr_at_dec [simp]: "dr_at holds k kb hb hdr iv (r\<lparr>dr_dec := x\<rparr>) fed todo = dr_at holds k kb hb hdr iv r fed todo"
  by (simp add: dr_at_def)

context byte_source
begin

lemma dr_read_holds:
  assumes su: "dr_setup L parse k kb hb hdr iv"
    and c: "cbc_dec L kb iv c = Inr (aes_Pad d)" "blocks c" "length c = length (aes_Pad d)"
    and r: "dr_holds holds L parse k kb hb hdr iv c d r t" and chars: "chars \<noteq> 0"
  shows "\<exists>y r' t'. dr_read rd L parse chars r = Some (Inr (Some y), r')
     \<and> dr_holds holds L parse k kb hb hdr iv c d r' t' \<and> t = y @ t' \<and> (y = [] \<longrightarrow> t = [])"
proof -
  define sig where "sig = hmac_sha1 hb (hdr @ iv @ c)"
  have sig: "length sig = 20" by (simp add: sig_def)
  have dec: "cbc_cipher (cbc_dec L)" "aes_args kb iv" using su by (auto simp: dr_setup_def aes_laws_def)
  have in_mid: ?thesis if c2: "c = fed @ c2" "blocks fed" "16 \<le> length c2"
    and at: "dr_at holds k kb hb hdr iv r2 fed (c2 @ sig)" and t: "t = dr_dec r2 @ drop (length fed) d"
    and eq: "dr_read rd L parse chars r = dr_read rd L parse chars r2" for fed c2 r2
  proof -
    have b2: "blocks c2" using c(2) c2 by simp
    have fl: "length fed \<le> length d" using c2 c(3) aes_Pad_longer(2) [of d] by simp
    from dr_read_step [OF at sig dec c(1) [unfolded c2(1)] c2(2) b2 c2(3), of parse chars] show ?thesis
    proof (elim disjE exE conjE)
      fix data c3 r'
      assume rd: "dr_read rd L parse chars r2 = (case dr_result chars True r' of (x, r'') \<Rightarrow> Some (Inr x, r''))"
        and ne: "data \<noteq> []" and c3: "c2 = data @ c3" and b: "blocks data" and l3: "16 \<le> length c3"
        and at': "dr_at holds k kb hb hdr iv r' (fed @ data) (c3 @ sig)"
        and d': "dr_dec r' = dr_dec r2 @ take (length data) (drop (length fed) (aes_Pad d))"
      have l: "length fed + length data \<le> length d"
        using c2(1) c3 l3 c(3) aes_Pad_longer(2) [of d] by simp
      then have chunk: "take (length data) (drop (length fed) (aes_Pad d)) = take (length data) (drop (length fed) d)"
        by (simp add: aes_Pad_def Let_def)
      have t': "t = dr_dec r' @ drop (length (fed @ data)) d"
        using append_take_drop_id [of "length data" "drop (length fed) d"]
        by (simp add: t d' chunk add.commute)
      obtain y rest where y: "dr_result chars True r' = (if y = [] \<and> True then None else Some y, r'\<lparr>dr_dec := rest\<rparr>)"
        "dr_dec r' = y @ rest" "y = [] \<longrightarrow> dr_dec r' = []"
        using dr_result_some [OF chars, of True r'] by blast
      have "length fed < length d" using l ne by (cases data) auto
      then have "dr_dec r' \<noteq> []" using d' chunk ne by simp
      then have yne: "y \<noteq> []" using y by auto
      have "dr_holds holds L parse k kb hb hdr iv c d (r'\<lparr>dr_dec := rest\<rparr>) (rest @ drop (length (fed @ data)) d)"
        unfolding dr_holds_def Let_def sig_def [symmetric]
        using c2 c3 b l3 at' by (intro disjI2 disjI1 exI [of _ "fed @ data"] exI [of _ c3]) simp
      then show ?thesis using rd y yne t' eq by simp
    next
      fix r'
      assume rd: "dr_read rd L parse chars r2 = (if hmac_sha1 hb (hdr @ iv @ fed @ c2) = sig
        then (case aes_UnPad (drop (length fed) (aes_Pad d)) of Inl e \<Rightarrow> Some (Inl e, r')
              | Inr d' \<Rightarrow> (case dr_result chars False (r'\<lparr>dr_dec := dr_dec r2 @ d'\<rparr>) of (x, r'') \<Rightarrow> Some (Inr x, r'')))
        else Some (Inl InvalidSignatureError, r'))"
        and at': "dr_at holds k kb hb hdr iv r' (fed @ c2) []"
      have "aes_UnPad (drop (length fed) (aes_Pad d)) = Inr (drop (length fed) d)"
        using fl by (rule aes_UnPad_drop_Pad)
      with rd have rd': "dr_read rd L parse chars r2 =
          (case dr_result chars False (r'\<lparr>dr_dec := t\<rparr>) of (x, r'') \<Rightarrow> Some (Inr x, r''))"
        using c2(1) t by (simp add: sig_def)
      obtain y rest where y: "dr_result chars False (r'\<lparr>dr_dec := t\<rparr>) = (if y = [] \<and> False then None else Some y,
          r'\<lparr>dr_dec := t, dr_dec := rest\<rparr>)" "t = y @ rest" "y = [] \<longrightarrow> t = []"
        using dr_result_some [OF chars, of False "r'\<lparr>dr_dec := t\<rparr>"] by auto
      have "dr_holds holds L parse k kb hb hdr iv c d (r'\<lparr>dr_dec := rest\<rparr>) rest"
        unfolding dr_holds_def Let_def using c2(1) at' by simp
      then show ?thesis using rd' y eq by simp
    qed
  qed
  from r consider (start) s n where "r = DecryptingStreamReader_init s n" "holds s (hdr @ iv @ c @ sig)" "t = d"
    | (mid) fed c2 where "c = fed @ c2" "blocks fed" "16 \<le> length c2" "dr_at holds k kb hb hdr iv r fed (c2 @ sig)"
        "t = dr_dec r @ drop (length fed) d"
    | (finished) "dr_at holds k kb hb hdr iv r c []" "t = dr_dec r"
    unfolding dr_holds_def Let_def sig_def [symmetric] by blast
  then show ?thesis
  proof cases
    case start
    obtain r1 r2 where r2: "dr_CreateKey rd parse r = Some (Inr True, r1)" "dr_key r1 = Some k"
      "dr_CreateCipher rd L k r1 = Some (Inr True, r2)" "dr_at holds k kb hb hdr iv r2 [] (c @ sig)" "dr_dec r2 = []"
      using dr_start [OF su start(2)] start(1) by blast
    have "\<not> dr_closed r" by (simp add: start DecryptingStreamReader_init_def)
    with r2 have "dr_read rd L parse chars r = dr_read rd L parse chars r2" by (intro dr_read_init)
    moreover have "16 \<le> length c"
      using c(2,3) aes_Pad_longer(1) [of d] by (auto simp: blocks_def elim!: dvdE)
    ultimately show ?thesis using r2 start(3) by (intro in_mid [of "[]" c r2]) simp_all
  next
    case mid
    then show ?thesis by (intro in_mid) simp_all
  next
    case finished
    obtain r1 where r1: "dr_read rd L parse chars r = (case dr_result chars False r1 of (x, r'') \<Rightarrow> Some (Inr x, r''))"
      "dr_at holds k kb hb hdr iv r1 c []" "dr_dec r1 = t"
      using dr_read_end [OF finished(1)] finished(2) by blast
    obtain y rest where y: "dr_result chars False r1 = (if y = [] \<and> False then None else Some y, r1\<lparr>dr_dec := rest\<rparr>)"
      "dr_dec r1 = y @ rest" "y = [] \<longrightarrow> dr_dec r1 = []"
      using dr_result_some [OF chars, of False r1] by blast
    have "dr_holds holds L parse k kb hb hdr iv c d (r1\<lparr>dr_dec := rest\<rparr>) rest"
      unfolding dr_holds_def Let_def using r1(2) by simp
    moreover have "dr_read rd L parse chars r = Some (Inr (Some y), r1\<lparr>dr_dec := rest\<rparr>)"
      using r1(1) y(1) by simp
    moreover have "t = y @ rest" "y = [] \<longrightarrow> t = []" using r1(3) y by simp_all
    ultimately show ?thesis by blast
  qed
qed

end

text \<open>Several reads in a row, with the sizes asked for.\<close>

fun dr_reads :: "'s reading \<Rightarrow> crypto \<Rightarrow> (bytes \<Rightarrow> exn + aes_key) \<Rightarrow> int list \<Rightarrow> 's dec_reader
    \<Rightarrow> (exn + bytes option list) option" where
  "dr_reads rd L parse [] r = Some (Inr [])"
| "dr_reads rd L parse (n # ns) r = (case dr_read rd L parse n r of
      None \<Rightarrow> None
    | Some (Inl e, r') \<Rightarrow> Some (Inl e)
    | Some (Inr x, r') \<Rightarrow> map_option (\<lambda>xs. ebind xs (\<lambda>ys. Inr (x # ys))) (dr_reads rd L parse ns r'))"

lemma length_concat_nonempty: "[] \<notin> set ys \<Longrightarrow> length ys \<le> length (concat ys)"
proof (induction ys)
  case (Cons y ys)
  then show ?case by (cases y) auto
qed simp

text \<open>
  A ciphertext with a wrong signature: the reads may hand out data, \<open>m\<close> bytes at most, but they end
  in an \<open>InvalidSignatureError\<close> and not in the empty string.
\<close>

definition dr_forged :: "('s \<Rightarrow> bytes \<Rightarrow> bool) \<Rightarrow> aes_key \<Rightarrow> bytes \<Rightarrow> bytes
    \<Rightarrow> bytes \<Rightarrow> bytes \<Rightarrow> bytes \<Rightarrow> bytes \<Rightarrow> nat \<Rightarrow> 's dec_reader \<Rightarrow> bool" where
  "dr_forged holds k kb hb hdr iv c sig m r \<longleftrightarrow>
     (\<exists>s n. r = DecryptingStreamReader_init s n \<and> holds s (hdr @ iv @ c @ sig) \<and> length c \<le> m)
     \<or> (\<exists>fed c2. c = fed @ c2 \<and> blocks fed \<and> 16 \<le> length c2 \<and> dr_at holds k kb hb hdr iv r fed (c2 @ sig)
          \<and> length (dr_dec r) + length c2 \<le> m)"

context byte_source
begin

lemma dr_reads_holds:
  assumes su: "dr_setup L parse k kb hb hdr iv"
    and c: "cbc_dec L kb iv c = Inr (aes_Pad d)" "blocks c" "length c = length (aes_Pad d)"
    and r: "dr_holds holds L parse k kb hb hdr iv c d r t" and ns: "0 \<notin> set ns"
  shows "\<exists>ys. dr_reads rd L parse ns r = Some (Inr (map Some ys)) \<and> length ys = length ns
     \<and> (\<exists>t'. t = concat ys @ t' \<and> ([] \<in> set ys \<longrightarrow> t' = []))"
  using r ns
proof (induction ns arbitrary: r t)
  case Nil
  then show ?case by simp
next
  case (Cons n ns)
  obtain y r1 t1 where y: "dr_read rd L parse n r = Some (Inr (Some y), r1)"
    "dr_holds holds L parse k kb hb hdr iv c d r1 t1" "t = y @ t1" "y = [] \<longrightarrow> t = []"
    using dr_read_holds [OF su c Cons.prems(1), of n] Cons.prems(2) by auto
  obtain ys t' where ys: "dr_reads rd L parse ns r1 = Some (Inr (map Some ys))" "length ys = length ns"
    "t1 = concat ys @ t'" "[] \<in> set ys \<longrightarrow> t' = []"
    using Cons.IH [OF y(2)] Cons.prems(2) by auto
  have "dr_reads rd L parse (n # ns) r = Some (Inr (map Some (y # ys)))" using y(1) ys(1) by simp
  moreover have "t = concat (y # ys) @ t'" "[] \<in> set (y # ys) \<longrightarrow> t' = []"
    using y ys by auto
  ultimately show ?case using ys(2) by (intro exI [of _ "y # ys"]) auto
qed

text \<open>Decrypting what \<open>AesKey.Encrypt\<close> made.\<close>

lemma dr_reads_encrypted:
  assumes ok: "backend_ok L" "aes_ok k" and enc: "aes_Encrypt L k d r = (Inr ct, r')"
    and parse: "parse (take 5 ct) = Inr k" and src: "holds s ct" and ns: "0 \<notin> set ns"
  shows "\<exists>ys. dr_reads rd L parse ns (DecryptingStreamReader_init s n) = Some (Inr (map Some ys))
     \<and> length ys = length ns \<and> (\<exists>t. d = concat ys @ t) \<and> (length d < length ns \<longrightarrow> concat ys = d)"
proof -
  obtain kb h iv c sig where
    e: "aes_Encrypt L k d r = (Inr ((CHR 0x00 # h) @ iv @ c @ sig), \<lambda>i. r (i + 16))"
    and kb: "aes_key_bytes k = Inr kb" and args: "aes_args kb iv" and h: "length h = 4"
    and c: "cbc_enc L kb iv (aes_Pad d) = Inr c" "length c = length (aes_Pad d)" and sig:
    "hmac_Sign (aes_hmac_key k) ((CHR 0x00 # h) @ iv @ c) = Inr sig"
    using ok by (rule aes_Encrypt_shape)
  obtain hb where hb: "hmac_key_bytes (aes_hmac_key k) = Inr hb" using ok(2) by (rule aes_okE)
  let ?hdr = "CHR 0x00 # h"
  have ct: "ct = ?hdr @ iv @ c @ sig" using e enc by simp
  have sg: "sig = hmac_sha1 hb (?hdr @ iv @ c)" using sig hb by (simp add: hmac_Sign_def)
  have laws: "aes_laws L" using ok(1) by (simp add: backend_ok_def)
  have su: "dr_setup L parse k kb hb ?hdr iv"
    using laws parse kb hb args h by (simp add: dr_setup_def ct)
  have dec: "cbc_dec L kb iv c = Inr (aes_Pad d)"
    using laws args c(1) aes_Pad_blocks unfolding aes_laws_def by blast
  have bc: "blocks c" using c(2) aes_Pad_blocks [of d] by (simp add: blocks_def)
  have hold: "dr_holds holds L parse k kb hb ?hdr iv c d (DecryptingStreamReader_init s n) d"
    unfolding dr_holds_def Let_def sg [symmetric] using src ct
    by (intro disjI1 exI [of _ s] exI [of _ n]) simp
  from dr_reads_holds [OF su dec bc c(2) hold ns] obtain ys t' where
    ys: "dr_reads rd L parse ns (DecryptingStreamReader_init s n) = Some (Inr (map Some ys))"
    "length ys = length ns" "d = concat ys @ t'" "[] \<in> set ys \<longrightarrow> t' = []"
    by blast
  have "concat ys = d" if "length d < length ns"
  proof (cases "[] \<in> set ys")
    case False
    then have "length ys \<le> length (concat ys)" by (rule length_concat_nonempty)
    with that ys(2,3) show ?thesis by simp
  qed (use ys in simp)
  with ys show ?thesis by blast
qed

lemma dr_read_forged:
  assumes su: "dr_setup L parse k kb hb hdr iv" and c: "blocks c" "16 \<le> length c"
    and sig: "length sig = 20" "sig \<noteq> hmac_sha1 hb (hdr @ iv @ c)"
    and r: "dr_forged holds k kb hb hdr iv c sig m r" and chars: "chars \<noteq> 0"
  shows "\<exists>x r'. dr_read rd L parse chars r = Some (x, r') \<and>
     (x = Inl InvalidSignatureError
      \<or> (\<exists>y. x = Inr (Some y) \<and> y \<noteq> [] \<and> length y \<le> m \<and> dr_forged holds k kb hb hdr iv c sig (m - length y) r'))"
proof -
  have dec: "cbc_cipher (cbc_dec L)" "aes_args kb iv" using su by (auto simp: dr_setup_def aes_laws_def)
  obtain P where P: "cbc_dec L kb iv c = Inr P" "length P = length c"
    using cbc_cipherE [OF dec c(1)] by metis
  have in_mid: ?thesis if c2: "c = fed @ c2" "blocks fed" "16 \<le> length c2"
    and at: "dr_at holds k kb hb hdr iv r2 fed (c2 @ sig)" and m: "length (dr_dec r2) + length c2 \<le> m"
    and eq: "dr_read rd L parse chars r = dr_read rd L parse chars r2" for fed c2 r2
  proof -
    have b2: "blocks c2" using c(1) c2 by simp
    from dr_read_step [OF at sig(1) dec P(1) [unfolded c2(1)] c2(2) b2 c2(3), of parse chars] show ?thesis
    proof (elim disjE exE conjE)
      fix data c3 r'
      assume rd: "dr_read rd L parse chars r2 = (case dr_result chars True r' of (x, r'') \<Rightarrow> Some (Inr x, r''))"
        and ne: "data \<noteq> []" and c3: "c2 = data @ c3" and b: "blocks data" and l3: "16 \<le> length c3"
        and at': "dr_at holds k kb hb hdr iv r' (fed @ data) (c3 @ sig)"
        and d': "dr_dec r' = dr_dec r2 @ take (length data) (drop (length fed) P)"
      obtain y rest where y: "dr_result chars True r' = (if y = [] \<and> True then None else Some y, r'\<lparr>dr_dec := rest\<rparr>)"
        "dr_dec r' = y @ rest" "y = [] \<longrightarrow> dr_dec r' = []"
        using dr_result_some [OF chars, of True r'] by blast
      have "length fed < length P" using P(2) c2 by auto
      then have "dr_dec r' \<noteq> []" using d' ne by simp
      then have "y \<noteq> []" using y by auto
      moreover have len: "length y + length rest + length c3 \<le> m"
        using m d' c3 arg_cong [OF y(2), of length] by simp
      moreover have "dr_forged holds k kb hb hdr iv c sig (m - length y) (r'\<lparr>dr_dec := rest\<rparr>)"
        unfolding dr_forged_def using c2 c3 b l3 at' len
        by (intro disjI2 exI [of _ "fed @ data"] exI [of _ c3]) simp
      ultimately show ?thesis using rd y eq by simp
    next
      fix r'
      assume "dr_read rd L parse chars r2 = (if hmac_sha1 hb (hdr @ iv @ fed @ c2) = sig
        then (case aes_UnPad (drop (length fed) P) of Inl e \<Rightarrow> Some (Inl e, r')
              | Inr d' \<Rightarrow> (case dr_result chars False (r'\<lparr>dr_dec := dr_dec r2 @ d'\<rparr>) of (x, r'') \<Rightarrow> Some (Inr x, r'')))
        else Some (Inl InvalidSignatureError, r'))"
      then have "dr_read rd L parse chars r2 = Some (Inl InvalidSignatureError, r')"
        using sig(2) c2(1) by simp
      then show ?thesis using eq by simp
    qed
  qed
  from r consider (start) s n where "r = DecryptingStreamReader_init s n" "holds s (hdr @ iv @ c @ sig)" "length c \<le> m"
    | (mid) fed c2 where "c = fed @ c2" "blocks fed" "16 \<le> length c2" "dr_at holds k kb hb hdr iv r fed (c2 @ sig)"
      "length (dr_dec r) + length c2 \<le> m"
    unfolding dr_forged_def by blast
  then show ?thesis
  proof cases
    case start
    obtain r1 r2 where r2: "dr_CreateKey rd parse r = Some (Inr True, r1)" "dr_key r1 = Some k"
      "dr_CreateCipher rd L k r1 = Some (Inr True, r2)" "dr_at holds k kb hb hdr iv r2 [] (c @ sig)" "dr_dec r2 = []"
      using dr_start [OF su start(2)] start(1) by blast
    have "\<not> dr_closed r" by (simp add: start DecryptingStreamReader_init_def)
    with r2 have "dr_read rd L parse chars r = dr_read rd L parse chars r2" by (intro dr_read_init)
    then show ?thesis using r2 c start(3) by (intro in_mid [of "[]" c r2]) simp_all
  next
    case mid
    then show ?thesis by (intro in_mid) simp_all
  qed
qed

lemma dr_reads_forged:
  assumes su: "dr_setup L parse k kb hb hdr iv" and c: "blocks c" "16 \<le> length c"
    and sig: "length sig = 20" "sig \<noteq> hmac_sha1 hb (hdr @ iv @ c)"
    and r: "dr_forged holds k kb hb hdr iv c sig m r" and ns: "0 \<notin> set ns"
  shows "dr_reads rd L parse ns r = Some (Inl InvalidSignatureError)
     \<or> (\<exists>ys. dr_reads rd L parse ns r = Some (Inr (map Some ys)) \<and> [] \<notin> set ys \<and> length ns \<le> m)"
  using r ns
proof (induction ns arbitrary: r m)
  case Nil
  show ?case by (intro disjI2 exI [of _ "[]"]) simp
next
  case (Cons n ns)
  obtain x r' where x: "dr_read rd L parse n r = Some (x, r')" "x = Inl InvalidSignatureError
      \<or> (\<exists>y. x = Inr (Some y) \<and> y \<noteq> [] \<and> length y \<le> m \<and> dr_forged holds k kb hb hdr iv c sig (m - length y) r')"
    using dr_read_forged [OF su c sig Cons.prems(1), of n] Cons.prems(2) by auto
  from x(2) show ?case
  proof (elim disjE exE conjE)
    fix y assume y: "x = Inr (Some y)" "y \<noteq> []" "length y \<le> m" "dr_forged holds k kb hb hdr iv c sig (m - length y) r'"
    have "0 \<notin> set ns" using Cons.prems(2) by simp
    from Cons.IH [OF y(4) this] show ?case
    proof (elim disjE exE conjE)
      fix ys assume "dr_reads rd L parse ns r' = Some (Inr (map Some ys))" "[] \<notin> set ys" "length ns \<le> m - length y"
      then show ?case using x(1) y by (intro disjI2 exI [of _ "y # ys"]) (cases y; simp)
    qed (use x(1) y in simp_all)
  qed (use x(1) in simp)
qed

text \<open>What a truncated ciphertext gives: the end of the data, and no error.\<close>

lemma dr_read_short:
  assumes src: "holds s t" and len: "length t < 5"
  shows "\<exists>r'. dr_read rd L parse chars (DecryptingStreamReader_init s n) = Some (Inr (Some []), r')"
proof -
  let ?r0 = "DecryptingStreamReader_init s n"
  have "holds (dr_src ?r0) t" "(0 :: int) < 5"
    using src by (simp_all add: DecryptingStreamReader_init_def)
  from dr_ReadBytes_spec [OF this, of True] obtain x avail s1 t1 where
    rb: "dr_ReadBytes rd 5 True ?r0 = Some (Inr (x, avail), ?r0\<lparr>dr_src := s1\<rparr>)"
    and x: "t = x @ t1" "avail \<and> True \<longrightarrow> 5 \<le> int (length x)"
    by blast
  have "\<not> avail" "length x < 5" using x len by auto
  then show ?thesis
    using rb by (auto simp: dr_read_def dr_CreateKey_def DecryptingStreamReader_init_def dr_result_def
        slice_to_def slice_from_def Let_def)
qed

lemma dr_read_truncated:
  assumes su: "dr_setup L parse k kb hb hdr iv" and src: "holds s (hdr @ iv @ todo)"
    and len: "length todo \<le> 20"
  shows "\<exists>r'. dr_read rd L parse chars (DecryptingStreamReader_init s n) = Some (Inr (Some []), r')"
proof -
  let ?r = "DecryptingStreamReader_init s n"
  obtain r1 r2 where r2: "dr_CreateKey rd parse ?r = Some (Inr True, r1)" "dr_key r1 = Some k"
    "dr_CreateCipher rd L k r1 = Some (Inr True, r2)" and at: "dr_at holds k kb hb hdr iv r2 [] todo"
    and d: "dr_dec r2 = []"
    using dr_start [OF su src] by blast
  have "dr_read rd L parse chars ?r = dr_read rd L parse chars r2"
    by (rule dr_read_init [OF r2 at]) (simp add: DecryptingStreamReader_init_def)
  obtain data avail r3 where loop: "dr_loop rd r2 = Some (Inr (data, avail), r3)"
    and at3: "dr_at holds k kb hb hdr iv r3 [] todo" and d3: "dr_dec r3 = dr_dec r2"
    and data: "data = dr_select avail (dr_enc r3)" "avail \<longrightarrow> data \<noteq> []" "\<not> avail \<longrightarrow> dr_enc r3 = todo"
    using dr_loop_spec [OF at] by blast
  have "length (dr_enc r3) \<le> 20" using at3 len by (auto simp: dr_at_def)
  then have "data = []" using data(1) by (auto simp: dr_select_def Let_def)
  with data(2) have na: "\<not> avail" by simp
  have "dr_decrypt L k [] False r3 = (Inr (), r3)"
    using at3 by (simp add: dr_decrypt_def dr_at_def)
  moreover have "dr_key r3 = Some k" using at3 by (simp add: dr_at_def)
  ultimately have "dr_read rd L parse chars r2 = (case dr_result chars False r3 of (x, r) \<Rightarrow> Some (Inr x, r))"
    unfolding dr_read_at [OF at] using loop \<open>data = []\<close> na by simp
  then have "\<exists>r'. dr_read rd L parse chars r2 = Some (Inr (Some []), r')"
    using d d3 by (simp add: dr_result_def slice_to_def Let_def split: prod.split)
  with \<open>dr_read rd L parse chars ?r = dr_read rd L parse chars r2\<close> show ?thesis by simp
qed

end

end
