(* ===== verification/Packing.thy ===== *)
theory Packing
  imports ByteUtil
begin

text \<open>
  \<open>python/src/keyczar/util.py\<close>: \<open>PackByteArray\<close>, \<open>PackMultipleByteArrays\<close> and their inverses,
  over \<open>struct\<close>'s \<open>>i\<close> (a signed 32-bit big-endian integer, for values out of range and strings of
  another length a \<open>struct.error\<close>). The loop of \<open>UnpackMultipleByteArrays\<close> follows lengths read
  from the data, which are signed: it need not end, and its value is then \<open>None\<close>.
\<close>

definition pack_int :: "int \<Rightarrow> exn + bytes" where
  "pack_int n = (if - (2 ^ 31) \<le> n \<and> n < 2 ^ 31 then Inr (IntToBytes n) else Inl PyStructError)"

definition unpack_int :: "bytes \<Rightarrow> exn + int" where
  "unpack_int s = (if length s = 4
     then (let v = BytesToLong s in Inr (if v < 2 ^ 31 then v else v - 2 ^ 32))
     else Inl PyStructError)"

text \<open>The argument \<open>None\<close> is \<open>None\<close>.\<close>

definition PackByteArray :: "bytes option \<Rightarrow> exn + bytes" where
  "PackByteArray array = (case array of
       None \<Rightarrow> Inr []
     | Some a \<Rightarrow> ebind (pack_int (int (length a))) (\<lambda>h. Inr (h @ a)))"

definition PackMultipleByteArrays :: "bytes option list \<Rightarrow> exn + bytes" where
  "PackMultipleByteArrays arrays =
     ebind (pack_int (int (length arrays))) (\<lambda>h.
     ebind (emap PackByteArray arrays) (\<lambda>cs. Inr (h @ concat cs)))"

definition UnpackByteArray :: "bytes \<Rightarrow> int \<Rightarrow> exn + bytes \<times> int" where
  "UnpackByteArray data offset =
     ebind (unpack_int (slice data offset (offset + 4))) (\<lambda>array_len.
       let offset' = offset + 4
       in Inr (slice data offset' (offset' + array_len), offset' + array_len))"

partial_function (option) unpack_loop ::
    "bytes \<Rightarrow> int \<Rightarrow> bytes list \<Rightarrow> (exn + bytes list \<times> int) option" where
  "unpack_loop data position result =
     (if position < int (length data) then
        (case UnpackByteArray data position of
           Inl e \<Rightarrow> Some (Inl e)
         | Inr (array, position') \<Rightarrow> unpack_loop data position' (result @ [array]))
      else Some (Inr (result, position)))"

definition UnpackMultipleByteArrays :: "bytes \<Rightarrow> (exn + bytes list) option" where
  "UnpackMultipleByteArrays data = (case unpack_loop data 4 [] of
       None \<Rightarrow> None
     | Some (Inl e) \<Rightarrow> Some (Inl e)
     | Some (Inr (result, position)) \<Rightarrow>
         Some (if position = int (length data) then Inr result else Inl PyAssertionError))"

subsection \<open>Round trip\<close>

lemma unpack_pack_int: "pack_int n = Inr s \<Longrightarrow> unpack_int s = Inr n"
proof (cases "n < 0")
  case True
  assume p: "pack_int n = Inr s"
  then have "- 2147483648 \<le> n" and s: "s = IntToBytes n" by (auto simp: pack_int_def split: if_splits)
  then have "(n + 4294967296) mod 4294967296 = n + 4294967296"
    using True by (intro mod_pos_pos_trivial) simp_all
  then have "n mod 4294967296 = n + 4294967296" by simp
  with True \<open>- 2147483648 \<le> n\<close> show ?thesis
    by (simp add: unpack_int_def s BytesToLong_IntToBytes)
next
  case False
  assume p: "pack_int n = Inr s"
  then have "n < 2147483648" and s: "s = IntToBytes n" by (auto simp: pack_int_def split: if_splits)
  with False show ?thesis
    by (simp add: unpack_int_def s BytesToLong_IntToBytes mod_pos_pos_trivial)
qed

lemma length_pack_int: "pack_int n = Inr s \<Longrightarrow> length s = 4"
  by (auto simp: pack_int_def split: if_splits)

lemma slice_middle:
  assumes "i = int (length xs)" and "j = i + int (length ys)"
  shows "slice (xs @ ys @ zs) i j = ys"
proof -
  have "j = int (length xs + length ys)" using assms by simp
  then show ?thesis unfolding assms(1) by (simp only: slice_nat) simp
qed

lemma UnpackByteArray_Pack:
  assumes "PackByteArray (Some a) = Inr p"
  shows "UnpackByteArray (pre @ p @ post) (int (length pre)) = Inr (a, int (length (pre @ p)))"
proof -
  obtain h where h: "pack_int (int (length a)) = Inr h" and p: "p = h @ a"
    using assms by (auto simp: PackByteArray_def ebind_Inr_conv)
  have len: "length h = 4" using h by (rule length_pack_int)
  have "slice (pre @ h @ (a @ post)) (int (length pre)) (int (length pre) + 4) = h"
    by (rule slice_middle) (simp_all add: len)
  moreover have "slice ((pre @ h) @ a @ post) (int (length pre) + 4) (int (length pre) + 4 + int (length a)) = a"
    by (rule slice_middle) (simp_all add: len)
  ultimately show ?thesis
    using unpack_pack_int [OF h] by (simp add: UnpackByteArray_def p len Let_def)
qed

lemma PackByteArray_None: "PackByteArray None = Inr []"
  by (simp add: PackByteArray_def)

lemma PackByteArray_nonempty: "PackByteArray (Some a) = Inr p \<Longrightarrow> 4 \<le> length p"
  by (auto simp: PackByteArray_def ebind_Inr_conv dest: length_pack_int)

lemma unpack_loop_Pack:
  assumes "emap PackByteArray (map Some as) = Inr ps"
  shows "unpack_loop (pre @ concat ps) (int (length pre)) result
    = Some (Inr (result @ as, int (length (pre @ concat ps))))"
  using assms
proof (induction as arbitrary: pre ps result)
  case Nil
  then show ?case by (subst unpack_loop.simps) simp
next
  case (Cons a as)
  from Cons.prems obtain p ps' where p: "PackByteArray (Some a) = Inr p"
    and ps': "emap PackByteArray (map Some as) = Inr ps'" and ps: "ps = p # ps'"
    by (auto simp: ebind_Inr_conv)
  have "unpack_loop ((pre @ p) @ concat ps') (int (length (pre @ p))) (result @ [a])
      = Some (Inr ((result @ [a]) @ as, int (length ((pre @ p) @ concat ps'))))"
    by (rule Cons.IH) (rule ps')
  moreover have "0 < int (length p) + int (length (concat ps'))" using PackByteArray_nonempty [OF p] by simp
  ultimately show ?case
    using UnpackByteArray_Pack [OF p, of pre "concat ps'"]
    by (subst unpack_loop.simps) (simp add: ps)
qed

lemma unpack_pack_multiple:
  assumes "PackMultipleByteArrays (map Some as) = Inr s"
  shows "UnpackMultipleByteArrays s = Some (Inr as)"
proof -
  obtain h ps where h: "pack_int (int (length as)) = Inr h"
    and ps: "emap PackByteArray (map Some as) = Inr ps" and s: "s = h @ concat ps"
    using assms by (auto simp: PackMultipleByteArrays_def ebind_Inr_conv)
  have "length h = 4" using h by (rule length_pack_int)
  then show ?thesis
    using unpack_loop_Pack [OF ps, of h "[]"] by (simp add: UnpackMultipleByteArrays_def s)
qed

text \<open>When packing succeeds: no array and no list of arrays of \<open>2 ^ 31\<close> or more.\<close>

lemma PackByteArray_ok:
  assumes "int (length a) < 2 ^ 31"
  shows "PackByteArray (Some a) = Inr (IntToBytes (int (length a)) @ a)"
proof -
  have "- (2 ^ 31) \<le> int (length a)" by (rule order_trans [of _ 0]) simp_all
  with assms show ?thesis by (simp only: PackByteArray_def pack_int_def option.case if_True ebind_simps simp_thms)
qed

lemma PackMultipleByteArrays_ok:
  assumes "int (length as) < 2 ^ 31" and "\<forall>a \<in> set as. int (length a) < 2 ^ 31"
  shows "PackMultipleByteArrays (map Some as) =
    Inr (IntToBytes (int (length as)) @ concat (map (\<lambda>a. IntToBytes (int (length a)) @ a) as))"
proof -
  have ps: "emap PackByteArray (map Some as) = Inr (map (\<lambda>a. IntToBytes (int (length a)) @ a) as)"
    using assms(2) by (induction as) (simp_all add: PackByteArray_ok)
  have "- (2 ^ 31) \<le> int (length as)" by (rule order_trans [of _ 0]) simp_all
  with assms(1) have "pack_int (int (length as)) = Inr (IntToBytes (int (length as)))"
    by (simp only: pack_int_def if_True simp_thms)
  with ps show ?thesis by (simp add: PackMultipleByteArrays_def)
qed

subsection \<open>The loop that does not end\<close>

text \<open>
  A length of -4 makes \<open>UnpackByteArray\<close> return the offset it was given, with an empty array.
\<close>

lemma unpack_loop_stuck:
  assumes "pos < int (length data)" and "\<And>r. UnpackByteArray data pos = Inr (a, pos)"
  shows "unpack_loop data pos result = None"
proof -
  let ?P = "\<lambda>d p r (y :: exn + bytes list \<times> int). d = data \<longrightarrow> p \<noteq> pos"
  have "?P data pos result y" if "unpack_loop data pos result = Some y" for y
    using that
  proof (rule unpack_loop.raw_induct [where P = ?P, rotated])
    fix f :: "bytes \<Rightarrow> int \<Rightarrow> bytes list \<Rightarrow> (exn + bytes list \<times> int) option"
    fix d p r y
    assume "\<And>d p r y. f d p r = Some y \<Longrightarrow> ?P d p r y"
      and "(if p < int (length d) then
        (case UnpackByteArray d p of
           Inl e \<Rightarrow> Some (Inl e)
         | Inr (array, position') \<Rightarrow> f d position' (r @ [array]))
      else Some (Inr (r, p))) = Some y"
    then show "?P d p r y" using assms by fastforce
  qed
  then show ?thesis by (cases "unpack_loop data pos result") auto
qed

lemma unpack_minus_four:
  assumes "length count = 4"
  shows "UnpackMultipleByteArrays (count @ [CHR 0xFF, CHR 0xFF, CHR 0xFF, CHR 0xFC] @ rest) = None"
proof -
  let ?d = "count @ [CHR 0xFF, CHR 0xFF, CHR 0xFF, CHR 0xFC] @ rest"
  have "slice ?d 4 (4 + 4) = [CHR 0xFF, CHR 0xFF, CHR 0xFF, CHR 0xFC]"
    using assms by (intro slice_middle) simp_all
  moreover have "unpack_int [CHR 0xFF, CHR 0xFF, CHR 0xFF, CHR 0xFC] = Inr (-4)"
    by (simp add: unpack_int_def BytesToLong_be_int be_int_def Let_def)
  ultimately have "UnpackByteArray ?d 4 = Inr (slice ?d 8 4, 4)" by (simp add: UnpackByteArray_def)
  then have "unpack_loop ?d 4 [] = None" using assms by (intro unpack_loop_stuck) simp_all
  then show ?thesis by (simp add: UnpackMultipleByteArrays_def)
qed

text \<open>No length in the data is -4, or less: then every step moves forward and the loop ends.\<close>

definition loop_moves :: "bytes \<Rightarrow> bool" where
  "loop_moves data \<longleftrightarrow>
     (\<forall>p < length data. \<forall>n. unpack_int (slice data (int p) (int p + 4)) = Inr n \<longrightarrow> 0 \<le> n)"

lemma unpack_loop_total:
  assumes "loop_moves data"
  shows "unpack_loop data (int p) result \<noteq> None"
proof (induction "length data - p" arbitrary: p result rule: less_induct)
  case less
  show ?case
  proof (cases "p < length data")
    case True
    show ?thesis
    proof (cases "unpack_int (slice data (int p) (int p + 4))")
      case (Inl e)
      with True show ?thesis by (subst unpack_loop.simps) (simp add: UnpackByteArray_def)
    next
      case (Inr n)
      then have n: "0 \<le> n" using assms True by (auto simp: loop_moves_def)
      then have eq: "int p + 4 + n = int (p + 4 + nat n)" by simp
      have "unpack_loop data (int (p + 4 + nat n)) r \<noteq> None" for r
        using True by (intro less.hyps) simp
      with Inr True show ?thesis
        by (subst unpack_loop.simps) (simp only: UnpackByteArray_def Let_def eq ebind_simps sum.case prod.case split: if_splits, simp)
    qed
  next
    case False
    then show ?thesis by (subst unpack_loop.simps) simp
  qed
qed

lemma UnpackMultiple_total:
  "loop_moves data \<Longrightarrow> UnpackMultipleByteArrays data \<noteq> None"
  using unpack_loop_total [of data 4 "[]"]
  by (auto simp: UnpackMultipleByteArrays_def split: option.splits sum.splits)

end
