(* ===== verification/Crypters.thy ===== *)
theory Crypters
  imports KeysetIO Streams Packing
begin

text \<open>
  \<open>python/src/keyczar/keyczar.py\<close>: the classes built on a key set, \<open>Encrypter\<close>, \<open>Crypter\<close>,
  \<open>Verifier\<close>, \<open>Signer\<close> and their unversioned variants. An optional encoder or decoder is an
  argument, as in the code. Where the source compares a primary key with \<open>None\<close> the model has no
  branch: \<open>GetKey\<close> has raised by then.
\<close>

type_synonym encoder = "(bytes \<Rightarrow> string) option"
type_synonym decoder = "(string \<Rightarrow> exn + bytes) option"

definition encode_with :: "encoder \<Rightarrow> bytes \<Rightarrow> string" where
  "encode_with encoder s = (case encoder of None \<Rightarrow> s | Some f \<Rightarrow> f s)"

definition decode_with :: "decoder \<Rightarrow> string \<Rightarrow> exn + bytes" where
  "decode_with decoder s = (case decoder of None \<Rightarrow> Inr s | Some f \<Rightarrow> f s)"

subsection \<open>Purposes\<close>

definition Encrypter_acceptable :: "key_purpose \<Rightarrow> bool" where
  "Encrypter_acceptable p \<longleftrightarrow> p = ENCRYPT \<or> p = DECRYPT_AND_ENCRYPT"

definition Crypter_acceptable :: "key_purpose \<Rightarrow> bool" where
  "Crypter_acceptable p \<longleftrightarrow> p = DECRYPT_AND_ENCRYPT"

definition Verifier_acceptable :: "key_purpose \<Rightarrow> bool" where
  "Verifier_acceptable p \<longleftrightarrow> p = VERIFY \<or> p = SIGN_AND_VERIFY"

definition Signer_acceptable :: "key_purpose \<Rightarrow> bool" where
  "Signer_acceptable p \<longleftrightarrow> p = SIGN_AND_VERIFY"

definition UnversionedVerifier_acceptable :: "key_purpose \<Rightarrow> bool" where
  "UnversionedVerifier_acceptable p \<longleftrightarrow> p = VERIFY \<or> p = SIGN_AND_VERIFY"

definition UnversionedSigner_acceptable :: "key_purpose \<Rightarrow> bool" where
  "UnversionedSigner_acceptable p \<longleftrightarrow> p = SIGN_AND_VERIFY"

definition Encrypter_Read :: "fs \<Rightarrow> string \<Rightarrow> exn + keyczar" where
  "Encrypter_Read f location = ebind (CreateReader f location) (Keyczar_init Encrypter_acceptable)"

definition Crypter_Read :: "fs \<Rightarrow> string \<Rightarrow> exn + keyczar" where
  "Crypter_Read f location = ebind (CreateReader f location) (Keyczar_init Crypter_acceptable)"

definition Verifier_Read :: "fs \<Rightarrow> string \<Rightarrow> exn + keyczar" where
  "Verifier_Read f location = ebind (CreateReader f location) (Keyczar_init Verifier_acceptable)"

definition Signer_Read :: "fs \<Rightarrow> string \<Rightarrow> exn + keyczar" where
  "Signer_Read f location = ebind (CreateReader f location) (Keyczar_init Signer_acceptable)"

text \<open>The unversioned classes do not look for a reader: they always read files.\<close>

definition UnversionedVerifier_Read :: "fs \<Rightarrow> string \<Rightarrow> exn + keyczar" where
  "UnversionedVerifier_Read f location = Keyczar_init UnversionedVerifier_acceptable (FileReader f location)"

definition UnversionedSigner_Read :: "fs \<Rightarrow> string \<Rightarrow> exn + keyczar" where
  "UnversionedSigner_Read f location = Keyczar_init UnversionedSigner_acceptable (FileReader f location)"

subsection \<open>Encrypting and decrypting\<close>

definition Encrypter_Encrypt :: "crypto \<Rightarrow> keyczar \<Rightarrow> bytes \<Rightarrow> encoder \<Rightarrow> (entropy, exn, string) st" where
  "Encrypter_Encrypt L kz data encoder =
     sbind (slift (primary_key kz)) (\<lambda>encrypting_key.
     sbind (key_Encrypt L encrypting_key data) (\<lambda>ciphertext.
       sret (encode_with encoder ciphertext)))"

text \<open>The streams use parts of an AES key that no other class has.\<close>

fun stream_key :: "key \<Rightarrow> exn + aes_key" where
  "stream_key (AesKey k) = Inr k"
| "stream_key _ = Inl PyAttributeError"

definition CreateEncryptingStreamWriter :: "crypto \<Rightarrow> keyczar \<Rightarrow> string \<Rightarrow> bool \<Rightarrow> (entropy, exn, enc_writer) st" where
  "CreateEncryptingStreamWriter L kz output_stream encoder =
     sbind (slift (primary_key kz)) (\<lambda>encrypting_key.
       let stream = (if encoder then B64Sink (writer_init output_stream) else RawSink output_stream) in
       sbind (slift (stream_key encrypting_key)) (\<lambda>k. EncryptingStreamWriter_init L k stream))"

definition Crypter_Decrypt :: "crypto \<Rightarrow> keyczar \<Rightarrow> string \<Rightarrow> decoder \<Rightarrow> exn + bytes" where
  "Crypter_Decrypt L kz ciphertext decoder =
     ebind (decode_with decoder ciphertext) (\<lambda>data_bytes.
       if length data_bytes < HEADER_SIZE then Inl (ShortCiphertextError (length data_bytes))
       else ebind (ParseHeader kz (slice_to data_bytes (int HEADER_SIZE))) (\<lambda>key. key_Decrypt L key data_bytes))"

datatype source = RawSource in_stream | B64Source b64_reader

fun source_read :: "source reading" where
  "source_read n (RawSource s) = map_option (map_prod id RawSource) (raw_read n s)"
| "source_read n (B64Source s) = map_option (map_prod id B64Source) (b64_read n s)"

definition CreateDecryptingStreamReader :: "in_stream \<Rightarrow> bool \<Rightarrow> int \<Rightarrow> source dec_reader" where
  "CreateDecryptingStreamReader output_stream decoder buffer_size =
     (let stream = (if decoder then B64Source (reader_init output_stream) else RawSource output_stream)
      in DecryptingStreamReader_init stream buffer_size)"

text \<open>What the reader asks of the key set: the key that the header names.\<close>

definition stream_parse :: "keyczar \<Rightarrow> bytes \<Rightarrow> exn + aes_key" where
  "stream_parse kz hdr = ebind (ParseHeader kz hdr) stream_key"

subsection \<open>Signing and verifying\<close>

definition InternalVerify :: "crypto \<Rightarrow> keyczar \<Rightarrow> bytes \<Rightarrow> bytes \<Rightarrow> bytes \<Rightarrow> bytes option \<Rightarrow> exn + bool" where
  "InternalVerify L kz header signature data nonce =
     ebind (ParseHeader kz header) (\<lambda>key.
     ebind (PackByteArray nonce) (\<lambda>n. key_Verify L key (data @ n @ VERSION_BYTE) signature))"

definition Verifier_Verify :: "crypto \<Rightarrow> keyczar \<Rightarrow> bytes \<Rightarrow> string \<Rightarrow> decoder \<Rightarrow> exn + bool" where
  "Verifier_Verify L kz data sig decoder =
     ebind (decode_with decoder sig) (\<lambda>sig_bytes.
       if length sig_bytes < HEADER_SIZE then Inl (ShortSignatureError (length sig_bytes))
       else InternalVerify L kz (slice_to sig_bytes (int HEADER_SIZE)) (slice_from sig_bytes (int HEADER_SIZE)) data None)"

definition Verifier_AttachedVerify :: "crypto \<Rightarrow> keyczar \<Rightarrow> string \<Rightarrow> bytes option \<Rightarrow> decoder \<Rightarrow> exn + bytes option" where
  "Verifier_AttachedVerify L kz signed_data nonce decoder =
     ebind (decode_with decoder signed_data) (\<lambda>decoded_data.
     ebind (UnpackByteArray decoded_data (int HEADER_SIZE)) (\<lambda>(data, offset).
       let signature = slice_from decoded_data offset in
       ebind (InternalVerify L kz (slice_to decoded_data (int HEADER_SIZE)) signature data nonce) (\<lambda>ok.
         Inr (if ok then Some data else None))))"

definition InternalSign :: "crypto \<Rightarrow> keyczar \<Rightarrow> bytes \<Rightarrow> bytes option \<Rightarrow> (entropy, exn, bytes) st" where
  "InternalSign L kz data nonce =
     sbind (slift (primary_key kz)) (\<lambda>signing_key.
     sbind (slift (PackByteArray nonce)) (\<lambda>n. key_Sign L signing_key (data @ n @ VERSION_BYTE)))"

definition Signer_Sign :: "crypto \<Rightarrow> keyczar \<Rightarrow> bytes \<Rightarrow> encoder \<Rightarrow> (entropy, exn, string) st" where
  "Signer_Sign L kz data encoder =
     sbind (slift (ebind (primary_key kz) key_Header)) (\<lambda>header.
     sbind (InternalSign L kz data None) (\<lambda>sig. sret (encode_with encoder (header @ sig))))"

definition Signer_AttachedSign :: "crypto \<Rightarrow> keyczar \<Rightarrow> bytes \<Rightarrow> bytes option \<Rightarrow> encoder \<Rightarrow> (entropy, exn, string) st" where
  "Signer_AttachedSign L kz data nonce encoder =
     sbind (slift (ebind (primary_key kz) key_Header)) (\<lambda>header.
     sbind (slift (PackByteArray (Some data))) (\<lambda>packed.
     sbind (InternalSign L kz data nonce) (\<lambda>sig. sret (encode_with encoder (header @ packed @ sig)))))"

text \<open>Unversioned signatures have no header: every key is tried, until one verifies or raises.\<close>

fun verify_any :: "crypto \<Rightarrow> keyczar \<Rightarrow> bytes \<Rightarrow> bytes \<Rightarrow> nat list \<Rightarrow> exn + bool" where
  "verify_any L kz data sig_bytes [] = Inr False"
| "verify_any L kz data sig_bytes (version # vs) =
     ebind (case map_of (kz_keys kz) (VersionId version) of None \<Rightarrow> Inl PyKeyError | Some k \<Rightarrow> Inr k) (\<lambda>key.
     ebind (key_Verify L key data sig_bytes) (\<lambda>result.
       if result then Inr True else verify_any L kz data sig_bytes vs))"

definition UnversionedVerifier_Verify :: "crypto \<Rightarrow> keyczar \<Rightarrow> bytes \<Rightarrow> string \<Rightarrow> decoder \<Rightarrow> exn + bool" where
  "UnversionedVerifier_Verify L kz data sig decoder =
     ebind (decode_with decoder sig) (\<lambda>sig_bytes. verify_any L kz data sig_bytes (kz_versions kz))"

definition UnversionedSigner_Sign :: "crypto \<Rightarrow> keyczar \<Rightarrow> bytes \<Rightarrow> encoder \<Rightarrow> (entropy, exn, string) st" where
  "UnversionedSigner_Sign L kz data encoder =
     sbind (slift (primary_key kz)) (\<lambda>signing_key.
     sbind (key_Sign L signing_key data) (\<lambda>signature. sret (encode_with encoder signature)))"

subsection \<open>Pairs of keys\<close>

text \<open>Which key verifies what which key signs, and what that takes of the packages.\<close>

definition rsa_signing :: "crypto \<Rightarrow> rsa_private \<Rightarrow> rsa_public \<Rightarrow> bool" where
  "rsa_signing L prv pub \<longleftrightarrow> rsa_pair L (rk_key prv) (rp_key pub) \<and> rk_size prv = rp_size pub
     \<and> 304 \<le> rp_size pub \<and> 256 ^ nat (rp_size pub div 8 - 1) \<le> rsa_n (rp_key pub)"

definition dsa_signing :: "crypto \<Rightarrow> dsa_private \<Rightarrow> dsa_public \<Rightarrow> bool" where
  "dsa_signing L prv pub \<longleftrightarrow> der_laws L \<and> dsa_pair L (dk_key prv) (dp_key pub)"

fun sign_pair :: "crypto \<Rightarrow> key \<Rightarrow> key \<Rightarrow> bool" where
  "sign_pair L (HmacKey a) (HmacKey b) \<longleftrightarrow> a = b"
| "sign_pair L (RsaPrivateKey a) (RsaPublicKey b) \<longleftrightarrow> rsa_signing L a b"
| "sign_pair L (RsaPrivateKey a) (RsaPrivateKey b) \<longleftrightarrow> rsa_signing L a (rk_public b)"
| "sign_pair L (DsaPrivateKey a) (DsaPublicKey b) \<longleftrightarrow> dsa_signing L a b"
| "sign_pair L (DsaPrivateKey a) (DsaPrivateKey b) \<longleftrightarrow> dsa_signing L a (dk_public b)"
| "sign_pair L _ _ \<longleftrightarrow> False"

text \<open>The contract of a signature scheme, and what it gives to a client that looks keys up.\<close>

locale signature_scheme =
  fixes sign :: "'k \<Rightarrow> bytes \<Rightarrow> ('r, exn, bytes) st"
    and verify :: "'k \<Rightarrow> bytes \<Rightarrow> bytes \<Rightarrow> exn + bool"
    and pairs :: "'k \<Rightarrow> 'k \<Rightarrow> bool"
  assumes verify_sign: "pairs prv pub \<Longrightarrow> sign prv msg r = (Inr sig, r') \<Longrightarrow> verify pub msg sig = Inr True"
begin

lemma lookup_verify:
  assumes "look hdr = Inr pub" and "pairs prv pub" and "sign prv msg r = (Inr sig, r')"
  shows "ebind (look hdr) (\<lambda>k. verify k msg sig) = Inr True"
  using assms verify_sign by simp

text \<open>Trying keys one after the other finds the right one, if those before it do not raise.\<close>

lemma verify_first:
  assumes "pairs prv pub" and "sign prv msg r = (Inr sig, r')" and "pub \<in> set ks"
    and "\<forall>k \<in> set ks. \<exists>b. verify k msg sig = Inr b"
  shows "\<exists>k \<in> set ks. verify k msg sig = Inr True"
  using assms verify_sign by blast

end

interpretation key_signatures: signature_scheme "key_Sign L" "key_Verify L" "sign_pair L" for L
proof
  show "key_Verify L pub msg sig = Inr True"
    if p: "sign_pair L prv pub" and s: "key_Sign L prv msg r = (Inr sig, r')" for prv pub msg r sig r'
    using p s
    by (cases prv; cases pub)
       (auto simp: slift_def hmac_Verify_Sign rsa_signing_def dsa_signing_def rsa_priv_Verify_def
          dsa_priv_Verify_def intro: rsa_Verify_Sign dsa_Verify_Sign)
qed

text \<open>The same for encryption; the header of the ciphertext names the key.\<close>

locale encryption_scheme =
  fixes encrypt :: "'k \<Rightarrow> bytes \<Rightarrow> ('r, exn, bytes) st"
    and decrypt :: "'k \<Rightarrow> bytes \<Rightarrow> exn + bytes"
    and header :: "'k \<Rightarrow> exn + bytes"
    and pairs :: "'k \<Rightarrow> 'k \<Rightarrow> bool"
  assumes decrypt_encrypt: "pairs pub prv \<Longrightarrow> encrypt pub d r = (Inr c, r') \<Longrightarrow> decrypt prv c = Inr d"
    and header_encrypt: "pairs pub prv \<Longrightarrow> encrypt pub d r = (Inr c, r') \<Longrightarrow>
      5 \<le> length c \<and> header pub = Inr (take 5 c)"
begin

lemma lookup_decrypt:
  assumes "pairs pub prv" and "encrypt pub d r = (Inr c, r')" and "header pub = Inr h" and "look h = Inr prv"
  shows "ebind (look (take 5 c)) (\<lambda>k. decrypt k c) = Inr d"
  using assms header_encrypt [OF assms(1,2)] decrypt_encrypt by simp

end

fun encrypt_pair :: "crypto \<Rightarrow> key \<Rightarrow> key \<Rightarrow> bool" where
  "encrypt_pair L (AesKey a) (AesKey b) \<longleftrightarrow> a = b \<and> backend_ok L \<and> aes_ok a"
| "encrypt_pair L _ _ \<longleftrightarrow> False"

interpretation key_encryption: encryption_scheme "key_Encrypt L" "key_Decrypt L" key_Header "encrypt_pair L" for L
proof
  fix pub prv d r c r'
  assume p: "encrypt_pair L pub prv" and e: "key_Encrypt L pub d r = (Inr c, r')"
  then obtain k where k: "pub = AesKey k" "prv = AesKey k" "backend_ok L" "aes_ok k"
    by (cases pub; cases prv) auto
  then have ek: "aes_Encrypt L k d r = (Inr c, r')" using e by simp
  show "key_Decrypt L prv c = Inr d" using aes_Decrypt_Encrypt [OF k(3,4) ek] k by simp
  obtain kb h iv x sig where s: "aes_Encrypt L k d r = (Inr ((CHR 0x00 # h) @ iv @ x @ sig), \<lambda>i. r (i + 16))"
    "aes_Hash k = Inr (Base64WSEncode h)" "length h = 4"
    using k(3,4) by (rule aes_Encrypt_shape)
  then have "c = (CHR 0x00 # h) @ iv @ x @ sig" using ek by simp
  then show "5 \<le> length c \<and> key_Header pub = Inr (take 5 c)"
    using s(2,3) k(1) by (simp add: key_Header_def Key_Header_def)
qed

subsection \<open>Round trips\<close>

definition codec_pair :: "encoder \<Rightarrow> decoder \<Rightarrow> bool" where
  "codec_pair encoder decoder \<longleftrightarrow> (\<forall>s. decode_with decoder (encode_with encoder s) = Inr s)"

lemma codec_pairs: "codec_pair None None" "codec_pair (Some Base64WSEncode) (Some Base64WSDecode)"
  by (simp_all add: codec_pair_def encode_with_def decode_with_def)

lemma ParseHeader_zero: "ParseHeader kz hdr = (if hdr = [] then Inl PyIndexError
    else if hdr ! 0 = CHR 0x00 then GetKey kz (HashId (Base64WSEncode (drop 1 hdr)))
    else Inl (BadVersionError (byte_ord (hdr ! 0))))"
  by (cases hdr) (auto simp: ParseHeader_def Let_def slice_from_def clip_index_def char_eq_ord)

lemma ParseHeader_key:
  assumes "key_Header k = Inr hdr" and "key_hash_id k = Inr h" and "map_of (kz_keys kz) (HashId h) = Some k'"
  shows "ParseHeader kz hdr = Inr k' \<and> length hdr = 5"
proof -
  obtain b where "hdr = CHR 0x00 # b" "length b = 4" "key_hash_id k = Inr (Base64WSEncode b)"
    using key_Header_shape [OF assms(1)] by blast
  with assms(2,3) show ?thesis by (simp add: ParseHeader_def GetKey_def)
qed

lemma key_Header_hash_id: "key_Header k = Inr hdr \<Longrightarrow> \<exists>h. key_hash_id k = Inr h"
  by (auto simp: key_Header_def Key_Header_def ebind_Inr_conv)

lemma Decrypt_Encrypt:
  assumes p: "primary_key kz = Inr pub" and h: "key_hash_id pub = Inr h"
    and k: "map_of (kz_keys kz') (HashId h) = Some prv" and pair: "encrypt_pair L pub prv"
    and c: "codec_pair encoder decoder" and e: "Encrypter_Encrypt L kz d encoder r = (Inr ct, r')"
  shows "Crypter_Decrypt L kz' ct decoder = Inr d"
proof -
  obtain b where b: "key_Encrypt L pub d r = (Inr b, r')" "ct = encode_with encoder b"
    using e p by (auto simp: Encrypter_Encrypt_def sbind_def slift_def sret_def split: prod.splits sum.splits)
  note hd = key_encryption.header_encrypt [OF pair b(1)]
  then have "ParseHeader kz' (take 5 b) = Inr prv" using ParseHeader_key h k by blast
  then have "ebind (ParseHeader kz' (take 5 b)) (\<lambda>k. key_Decrypt L k b) = Inr d"
    using key_encryption.decrypt_encrypt [OF pair b(1)] by simp
  then show ?thesis using c hd by (simp add: Crypter_Decrypt_def codec_pair_def b(2) not_less)
qed

lemma Sign_shape:
  assumes "Signer_Sign L kz data encoder r = (Inr sig, r')" and "primary_key kz = Inr prv"
  obtains hdr s where "key_Header prv = Inr hdr" "key_Sign L prv (data @ VERSION_BYTE) r = (Inr s, r')"
    "sig = encode_with encoder (hdr @ s)"
  using assms
  by (auto simp: Signer_Sign_def InternalSign_def sbind_def slift_def sret_def PackByteArray_def
      split: prod.splits sum.splits)

lemma Verify_Sign:
  assumes p: "primary_key kz = Inr prv" and h: "key_hash_id prv = Inr h"
    and k: "map_of (kz_keys kz') (HashId h) = Some pub" and pair: "sign_pair L prv pub"
    and c: "codec_pair encoder decoder" and s: "Signer_Sign L kz data encoder r = (Inr sig, r')"
  shows "Verifier_Verify L kz' data sig decoder = Inr True"
proof -
  obtain hdr b where b: "key_Header prv = Inr hdr" "key_Sign L prv (data @ VERSION_BYTE) r = (Inr b, r')"
    "sig = encode_with encoder (hdr @ b)"
    using s p by (rule Sign_shape)
  have hdr: "ParseHeader kz' hdr = Inr pub" "length hdr = 5" using ParseHeader_key [OF b(1) h k] by simp_all
  have "key_Verify L pub (data @ VERSION_BYTE) b = Inr True"
    by (rule key_signatures.verify_sign [OF pair b(2)])
  with hdr show ?thesis using c
    by (simp add: Verifier_Verify_def InternalVerify_def PackByteArray_def codec_pair_def b(3))
qed

lemma AttachedSign_shape:
  assumes "Signer_AttachedSign L kz data nonce encoder r = (Inr blob, r')" and "primary_key kz = Inr prv"
  obtains hdr packed n s where "key_Header prv = Inr hdr" "PackByteArray (Some data) = Inr packed"
    "PackByteArray nonce = Inr n" "key_Sign L prv (data @ n @ VERSION_BYTE) r = (Inr s, r')"
    "blob = encode_with encoder (hdr @ packed @ s)"
  using assms
  by (auto simp: Signer_AttachedSign_def InternalSign_def sbind_def slift_def sret_def
      split: prod.splits sum.splits)

lemma AttachedVerify_Sign:
  assumes p: "primary_key kz = Inr prv" and h: "key_hash_id prv = Inr h"
    and k: "map_of (kz_keys kz') (HashId h) = Some pub" and pair: "sign_pair L prv pub"
    and c: "codec_pair encoder decoder" and s: "Signer_AttachedSign L kz data nonce encoder r = (Inr blob, r')"
  shows "Verifier_AttachedVerify L kz' blob nonce decoder = Inr (Some data)"
proof -
  obtain hdr packed n b where b: "key_Header prv = Inr hdr" "PackByteArray (Some data) = Inr packed"
    "PackByteArray nonce = Inr n" "key_Sign L prv (data @ n @ VERSION_BYTE) r = (Inr b, r')"
    "blob = encode_with encoder (hdr @ packed @ b)"
    using s p by (rule AttachedSign_shape)
  have hdr: "ParseHeader kz' hdr = Inr pub" "length hdr = 5" using ParseHeader_key [OF b(1) h k] by simp_all
  have unp: "UnpackByteArray (hdr @ packed @ b) 5 = Inr (data, int (length (hdr @ packed)))"
    using UnpackByteArray_Pack [OF b(2), of hdr b] hdr(2) by simp
  have "key_Verify L pub (data @ n @ VERSION_BYTE) b = Inr True"
    by (rule key_signatures.verify_sign [OF pair b(4)])
  moreover have "slice_from (hdr @ packed @ b) (int (length (hdr @ packed))) = b"
    by (simp only: slice_from_nat append_assoc [symmetric]) simp
  ultimately show ?thesis using c hdr unp b(3)
    by (simp add: Verifier_AttachedVerify_def InternalVerify_def codec_pair_def b(5) Let_def)
qed

text \<open>A detached signature and an attached one are told apart by nothing that is signed.\<close>

lemma InternalSign_nonce:
  assumes "PackByteArray (Some nonce) = Inr n"
  shows "InternalSign L kz data (Some nonce) = InternalSign L kz (data @ n) None"
  using assms by (simp add: InternalSign_def sbind_def slift_def PackByteArray_def fun_eq_iff)

subsection \<open>Unversioned signatures\<close>

lemma verify_any_keys:
  assumes "\<forall>r \<in> set vs. map_of (kz_keys kz) (VersionId r) = Some (k r) \<and> key_Verify L (k r) data sig = Inr (b r)"
  shows "verify_any L kz data sig vs = Inr (\<exists>r \<in> set vs. b r)"
  using assms by (induction vs) simp_all

lemma UnversionedVerify_Sign:
  assumes p: "primary_key kz = Inr prv" and pair: "sign_pair L prv pub" and c: "codec_pair encoder decoder"
    and s: "UnversionedSigner_Sign L kz data encoder r = (Inr sig, r')"
    and vs: "v \<in> set (kz_versions kz')" "map_of (kz_keys kz') (VersionId v) = Some pub"
    and total: "\<forall>w \<in> set (kz_versions kz'). \<forall>x. \<exists>k b. map_of (kz_keys kz') (VersionId w) = Some k \<and> key_Verify L k data x = Inr b"
  shows "UnversionedVerifier_Verify L kz' data sig decoder = Inr True"
proof -
  obtain b where b: "key_Sign L prv data r = (Inr b, r')" "sig = encode_with encoder b"
    using s p by (auto simp: UnversionedSigner_Sign_def sbind_def slift_def sret_def split: prod.splits sum.splits)
  let ?k = "\<lambda>w. the (map_of (kz_keys kz') (VersionId w))"
  let ?b = "\<lambda>w. key_Verify L (?k w) data b = Inr True"
  have "verify_any L kz' data b (kz_versions kz') = Inr (\<exists>w \<in> set (kz_versions kz'). ?b w)"
  proof (intro verify_any_keys [where k = ?k] ballI conjI)
    fix w assume "w \<in> set (kz_versions kz')"
    with total obtain k x where "map_of (kz_keys kz') (VersionId w) = Some k" "key_Verify L k data b = Inr x" by blast
    then show "map_of (kz_keys kz') (VersionId w) = Some (?k w)" and "key_Verify L (?k w) data b = Inr (?b w)" by simp_all
  qed
  moreover have "?b v" using vs(2) key_signatures.verify_sign [OF pair b(1)] by simp
  ultimately show ?thesis using c vs(1) by (auto simp: UnversionedVerifier_Verify_def codec_pair_def b(2))
qed

subsection \<open>Streams of a key set\<close>

fun source_holds :: "source \<Rightarrow> bytes \<Rightarrow> bool" where
  "source_holds (RawSource s) t \<longleftrightarrow> stream_ok s \<and> unread s = t"
| "source_holds (B64Source s) t \<longleftrightarrow> b64_holds s t"

fun source_rank :: "source \<Rightarrow> nat" where
  "source_rank (RawSource s) = stream_size s"
| "source_rank (B64Source s) = b64_rank s"

interpretation sources: byte_source source_read source_holds source_rank
proof
  fix s t and n :: int
  assume h: "source_holds s t" and n: "n \<noteq> 0"
  show "\<exists>x s' t'. source_read n s = Some (Inr x, s') \<and> source_holds s' t' \<and> t = got x @ t'
      \<and> (x = Some [] \<longrightarrow> t = []) \<and> (x = Some [] \<or> source_rank s' < source_rank s)
      \<and> (0 < n \<longrightarrow> length (got x) \<le> 2 * nat n + 2)"
  proof (cases s)
    case (RawSource a)
    from raw_source.read_next [of a t n] h n RawSource show ?thesis by fastforce
  next
    case (B64Source a)
    from b64_source.read_next [of a t n] h n B64Source show ?thesis by fastforce
  qed
qed

definition stream_text :: "bool \<Rightarrow> bytes \<Rightarrow> string" where
  "stream_text coded s = (if coded then Base64WSEncode s else s)"

lemma source_holds_init:
  assumes "stream_ok s" and "unread s = stream_text coded ct"
  shows "source_holds (dr_src (CreateDecryptingStreamReader s coded n)) ct"
  using assms b64_holds_init
  by (cases coded) (simp_all add: CreateDecryptingStreamReader_def DecryptingStreamReader_init_def stream_text_def)

text \<open>
  Whatever the pieces, streaming through the writer and the reader of two key sets that share the
  primary key gives back the data.
\<close>

lemma Encrypt_AES:
  assumes "primary_key kz = Inr (AesKey k)"
  shows "Encrypter_Encrypt L kz d None = aes_Encrypt L k d"
  using assms
  by (auto simp: Encrypter_Encrypt_def sbind_def slift_def sret_def encode_with_def fun_eq_iff
      split: prod.split sum.split)

definition crypter_stream :: "crypto \<Rightarrow> keyczar \<Rightarrow> string \<Rightarrow> bool \<Rightarrow> bytes list \<Rightarrow> (entropy, exn, sink) st" where
  "crypter_stream L kz out coded ds = sbind (CreateEncryptingStreamWriter L kz out coded) (\<lambda>w.
     slift (case sbind (ew_writes L ds) (\<lambda>_. ew_flush L) w of
       (Inl e, w') \<Rightarrow> Inl e | (Inr _, w') \<Rightarrow> Inr (ew_sink w')))"

lemma crypter_stream_eq:
  assumes ok: "backend_ok L" "aes_ok k" and p: "primary_key kz = Inr (AesKey k)"
    and e: "Encrypter_Encrypt L kz (concat ds) None r = (Inr ct, r')"
  shows "\<exists>out'. crypter_stream L kz out coded ds r = (Inr out', r') \<and> sink_out out' = out @ stream_text coded ct"
proof -
  let ?s = "if coded then B64Sink (writer_init out) else RawSink out"
  have e': "aes_Encrypt L k (concat ds) r = (Inr ct, r')" using e by (simp add: Encrypt_AES [OF p])
  have "sink_holds out ?s []" by (simp add: writer_init_def writer_holds_def enc_init_def)
  from stream_encrypt_eq [OF ok this e'] obtain out' where
    o: "stream_encrypt L k ?s ds r = (Inr out', r')" "sink_out out' = out @ sink_text ?s ct"
    by blast
  have "crypter_stream L kz out coded ds = stream_encrypt L k ?s ds"
    by (simp add: crypter_stream_def stream_encrypt_def CreateEncryptingStreamWriter_def p sbind_def slift_def)
  with o show ?thesis by (cases coded) (simp_all add: stream_text_def)
qed

lemma crypter_reads:
  assumes ok: "backend_ok L" "aes_ok k" and p: "primary_key kz = Inr (AesKey k)" and h: "aes_Hash k = Inr h"
    and k: "map_of (kz_keys kz') (HashId h) = Some (AesKey k)"
    and e: "Encrypter_Encrypt L kz d None r = (Inr ct, r')"
    and s: "stream_ok s" "unread s = stream_text coded ct" and ns: "0 \<notin> set ns"
  shows "\<exists>ys. dr_reads source_read L (stream_parse kz') ns (CreateDecryptingStreamReader s coded n)
      = Some (Inr (map Some ys))
     \<and> length ys = length ns \<and> (\<exists>t. d = concat ys @ t) \<and> (length d < length ns \<longrightarrow> concat ys = d)"
proof -
  have e': "aes_Encrypt L k d r = (Inr ct, r')" using e by (simp add: Encrypt_AES [OF p])
  have "key_Encrypt L (AesKey k) d r = (Inr ct, r')" "encrypt_pair L (AesKey k) (AesKey k)"
    using e' ok by simp_all
  from key_encryption.header_encrypt [OF this(2,1)] have "key_Header (AesKey k) = Inr (take 5 ct)" by simp
  then have parse: "stream_parse kz' (take 5 ct) = Inr k"
    using ParseHeader_key [of "AesKey k" "take 5 ct" h kz'] h k by (simp add: stream_parse_def)
  obtain src where src: "CreateDecryptingStreamReader s coded n = DecryptingStreamReader_init src n"
    by (simp add: CreateDecryptingStreamReader_def Let_def)
  then have "source_holds src ct"
    using source_holds_init [OF s, of n] by (simp add: DecryptingStreamReader_init_def)
  then show ?thesis
    unfolding src by (intro sources.dr_reads_encrypted [where ct = ct and k = k and r = r and r' = r'] ok e' parse ns)
qed

end
