(* ===== verification/Sessions.thy ===== *)
theory Sessions
  imports Crypters
begin

text \<open>
  \<open>python/src/keyczar/keyczar.py\<close>, \<open>_Session\<close> and the four session classes: data is encrypted with a
  fresh AES key, the session key, which is itself encrypted by a key set. The encrypters,
  crypters, signers and verifiers that the constructors are given are used through one method
  each; here they are those methods.
\<close>

definition SESSION_NONCE_SIZE :: int where
  "SESSION_NONCE_SIZE = 16"

record session =
  session_key :: aes_key
  session_nonce :: "bytes option"
  session_crypter :: "keyczar option"   \<comment> \<open>\<open>_crypter\<close>, once it has been made\<close>

definition Session_Create :: "aes_key \<Rightarrow> bytes option \<Rightarrow> session" where
  "Session_Create k nonce = \<lparr>session_key = k, session_nonce = nonce, session_crypter = None\<rparr>"

definition Session_New :: "(entropy, exn, session) st" where
  "Session_New = sbind (AesKey_Generate (default_size AES)) (\<lambda>k.
     sbind (RandBytes SESSION_NONCE_SIZE) (\<lambda>nonce. sret (Session_Create k (Some nonce))))"

text \<open>The unpacking of the key data need not return.\<close>

definition LoadPackedKey :: "bytes \<Rightarrow> (exn + session) option" where
  "LoadPackedKey packed_key_data = (case UnpackMultipleByteArrays packed_key_data of
     None \<Rightarrow> None
   | Some r \<Rightarrow> Some (ebind r (\<lambda>unpacked.
       if length unpacked \<noteq> 2 then Inl PyAssertionError
       else let aes_key_bytes = unpacked ! 0; hmac_key_bytes = unpacked ! 1;
                hmac_key = HmacKey_init (Base64WSEncode hmac_key_bytes) (int (length hmac_key_bytes) * 8)
            in ebind (AesKey_init (Base64WSEncode aes_key_bytes) hmac_key (int (length aes_key_bytes) * 8) CBC)
                 (\<lambda>k. Inr (Session_Create k None)))))"

definition LoadJsonSession :: "string \<Rightarrow> exn + session" where
  "LoadJsonSession json_session_data =
     ebind (json_loads json_session_data) (\<lambda>json_dict.
     ebind (json_get ''key'' json_dict) (\<lambda>key.
     ebind (AesKey_Read (json_dumps key)) (\<lambda>k.
     ebind (get_str ''nonce'' json_dict) (\<lambda>n.
     ebind (Base64WSDecode n) (\<lambda>nonce. Inr (Session_Create k (Some nonce)))))))"

definition Session_crypter :: "(session, exn, keyczar) st" where
  "Session_crypter = (\<lambda>s. case session_crypter s of
     Some kz \<Rightarrow> (Inr kz, s)
   | None \<Rightarrow> (case Keyczar_init Crypter_acceptable (StaticKeyReader (AesKey (session_key s)) DECRYPT_AND_ENCRYPT) of
       Inl e \<Rightarrow> (Inl e, s) | Inr kz \<Rightarrow> (Inr kz, s\<lparr>session_crypter := Some kz\<rparr>)))"

definition Session_packed_key :: "session \<Rightarrow> exn + bytes" where
  "Session_packed_key s = ebind (aes_key_bytes (session_key s)) (\<lambda>kb.
     ebind (hmac_key_bytes (aes_hmac_key (session_key s))) (\<lambda>hb. PackMultipleByteArrays [Some kb, Some hb]))"

text \<open>Without a nonce, as after \<open>LoadPackedKey\<close>, it is \<open>str(None)\<close> that is encoded.\<close>

definition Session_json :: "session \<Rightarrow> exn + string" where
  "Session_json s = ebind (ebind (aes_str (session_key s)) json_loads) (\<lambda>key.
     let nonce = (case session_nonce s of None \<Rightarrow> ''None'' | Some n \<Rightarrow> n)
     in Inr (json_dumps (JObj [(''key'', key), (''nonce'', JStr (Base64WSEncode nonce))])))"

subsection \<open>The session classes\<close>

record session_encrypter =
  se_session :: session
  se_session_material :: string

definition SessionEncrypter_init :: "(bytes \<Rightarrow> (entropy, exn, string) st) \<Rightarrow> (entropy, exn, session_encrypter) st" where
  "SessionEncrypter_init encrypter_Encrypt =
     sbind Session_New (\<lambda>s. sbind (slift (Session_packed_key s)) (\<lambda>packed.
     sbind (encrypter_Encrypt packed) (\<lambda>m. sret \<lparr>se_session = s, se_session_material = m\<rparr>)))"

text \<open>Encrypting with the session may make its crypter first.\<close>

definition Session_Encrypt :: "crypto \<Rightarrow> bytes \<Rightarrow> encoder \<Rightarrow> (session \<times> entropy, exn, string) st" where
  "Session_Encrypt L plaintext encoder = (\<lambda>(s, ent). case Session_crypter s of
     (Inl e, s') \<Rightarrow> (Inl e, s', ent)
   | (Inr kz, s') \<Rightarrow> (case Encrypter_Encrypt L kz plaintext encoder ent of (r, ent') \<Rightarrow> (r, s', ent')))"

definition Session_Decrypt :: "crypto \<Rightarrow> string \<Rightarrow> decoder \<Rightarrow> (session, exn, bytes) st" where
  "Session_Decrypt L ciphertext decoder =
     sbind Session_crypter (\<lambda>kz. slift (Crypter_Decrypt L kz ciphertext decoder))"

definition SessionEncrypter_Encrypt :: "crypto \<Rightarrow> bytes \<Rightarrow> encoder \<Rightarrow> (session_encrypter \<times> entropy, exn, string) st" where
  "SessionEncrypter_Encrypt L plaintext encoder = (\<lambda>(se, ent).
     case Session_Encrypt L plaintext encoder (se_session se, ent) of
       (r, s', ent') \<Rightarrow> (r, se\<lparr>se_session := s'\<rparr>, ent'))"

definition SessionDecrypter_init :: "(string \<Rightarrow> exn + bytes) \<Rightarrow> string \<Rightarrow> (exn + session) option" where
  "SessionDecrypter_init crypter_Decrypt session_material = (case crypter_Decrypt session_material of
     Inl e \<Rightarrow> Some (Inl e) | Inr d \<Rightarrow> LoadPackedKey d)"

definition SessionDecrypter_Decrypt :: "crypto \<Rightarrow> string \<Rightarrow> decoder \<Rightarrow> (session, exn, bytes) st" where
  "SessionDecrypter_Decrypt L ciphertext decoder = Session_Decrypt L ciphertext decoder"

definition SignedSessionEncrypter_init :: "(bytes \<Rightarrow> (entropy, exn, string) st) \<Rightarrow> (entropy, exn, session_encrypter) st" where
  "SignedSessionEncrypter_init encrypter_Encrypt =
     sbind Session_New (\<lambda>s. sbind (slift (Session_json s)) (\<lambda>j.
     sbind (encrypter_Encrypt j) (\<lambda>m. sret \<lparr>se_session = s, se_session_material = m\<rparr>)))"

definition SignedSessionEncrypter_Encrypt :: "crypto \<Rightarrow> (bytes \<Rightarrow> bytes option \<Rightarrow> (entropy, exn, string) st) \<Rightarrow> bytes
    \<Rightarrow> (session_encrypter \<times> entropy, exn, string) st" where
  "SignedSessionEncrypter_Encrypt L signer_AttachedSign plaintext = (\<lambda>(se, ent).
     case Session_Encrypt L plaintext None (se_session se, ent) of
       (Inl e, s', ent') \<Rightarrow> (Inl e, se\<lparr>se_session := s'\<rparr>, ent')
     | (Inr ciphertext, s', ent') \<Rightarrow>
         (case signer_AttachedSign ciphertext (session_nonce s') ent' of
            (r, ent'') \<Rightarrow> (r, se\<lparr>se_session := s'\<rparr>, ent'')))"

definition SignedSessionDecrypter_init :: "(string \<Rightarrow> exn + bytes) \<Rightarrow> string \<Rightarrow> exn + session" where
  "SignedSessionDecrypter_init crypter_Decrypt session_material =
     ebind (crypter_Decrypt session_material) LoadJsonSession"

definition SignedSessionDecrypter_Decrypt :: "crypto \<Rightarrow> (string \<Rightarrow> bytes option \<Rightarrow> exn + bytes option) \<Rightarrow> string
    \<Rightarrow> (session, exn, bytes option) st" where
  "SignedSessionDecrypter_Decrypt L verifier_AttachedVerify signed_ciphertext =
     sbind sget (\<lambda>s. sbind (slift (verifier_AttachedVerify signed_ciphertext (session_nonce s))) (\<lambda>ciphertext.
       if ciphertext = None \<or> ciphertext = Some [] then sret None
       else sbind (Session_Decrypt L (the ciphertext) None) (\<lambda>d. sret (Some d))))"

subsection \<open>Round trips\<close>

definition session_ok :: "session \<Rightarrow> bool" where
  "session_ok s \<longleftrightarrow> aes_ok (session_key s) \<and> key_ok (AesKey (session_key s))
     \<and> (\<forall>kz. session_crypter s = Some kz \<longrightarrow>
          Keyczar_init Crypter_acceptable (StaticKeyReader (AesKey (session_key s)) DECRYPT_AND_ENCRYPT) = Inr kz)"

lemma Session_crypter_ok:
  assumes "session_ok s"
  obtains kz s' h where "Session_crypter s = (Inr kz, s')" "session_ok s'"
    "session_key s' = session_key s" "session_nonce s' = session_nonce s"
    "primary_key kz = Inr (AesKey (session_key s))" "aes_Hash (session_key s) = Inr h"
    "map_of (kz_keys kz) (HashId h) = Some (AesKey (session_key s))"
proof -
  let ?k = "AesKey (session_key s)"
  have ok: "aes_ok (session_key s)" "key_ok ?k" using assms by (simp_all add: session_ok_def)
  obtain b where b: "aes_Hash (session_key s) = Inr (Base64WSEncode b)" using ok(1) by (rule aes_Header_ok)
  obtain kz where kz: "Keyczar_init Crypter_acceptable (StaticKeyReader ?k DECRYPT_AND_ENCRYPT) = Inr kz"
    "primary_key kz = Inr ?k" "map_of (kz_keys kz) (HashId (Base64WSEncode b)) = Some ?k"
    using static_keyset [OF ok(2), of "Base64WSEncode b" Crypter_acceptable DECRYPT_AND_ENCRYPT] b
    by (auto simp: Crypter_acceptable_def)
  have "\<exists>s'. Session_crypter s = (Inr kz, s') \<and> session_ok s' \<and> session_key s' = session_key s
      \<and> session_nonce s' = session_nonce s"
    using assms kz(1) by (cases "session_crypter s") (auto simp: Session_crypter_def session_ok_def)
  then show ?thesis using that kz(2,3) b by blast
qed

lemma Session_Decrypt_Encrypt:
  assumes s: "session_ok s" and t: "session_ok t" and key: "session_key t = session_key s"
    and L: "backend_ok L" and c: "codec_pair encoder decoder"
    and e: "Session_Encrypt L d encoder (s, ent) = (Inr ct, s', ent')"
  shows "fst (Session_Decrypt L ct decoder t) = Inr d"
    and "session_ok s'" and "session_key s' = session_key s" and "session_nonce s' = session_nonce s"
proof -
  obtain kz s1 h where 1: "Session_crypter s = (Inr kz, s1)" "session_ok s1" "session_key s1 = session_key s"
    "session_nonce s1 = session_nonce s"
    "primary_key kz = Inr (AesKey (session_key s))" "aes_Hash (session_key s) = Inr h"
    using s by (rule Session_crypter_ok)
  obtain kz' t1 h' where 2: "Session_crypter t = (Inr kz', t1)" "aes_Hash (session_key t) = Inr h'"
    "map_of (kz_keys kz') (HashId h') = Some (AesKey (session_key t))"
    using t by (rule Session_crypter_ok)
  have e1: "Encrypter_Encrypt L kz d encoder ent = (Inr ct, ent')" and s': "s' = s1"
    using e 1(1) by (auto simp: Session_Encrypt_def split: prod.splits)
  have pair: "encrypt_pair L (AesKey (session_key s)) (AesKey (session_key s))"
    using s L by (simp add: session_ok_def)
  have "Crypter_Decrypt L kz' ct decoder = Inr d"
    using 1(6) 2(2,3) key by (intro Decrypt_Encrypt [OF 1(5) _ _ pair c e1]) auto
  then show "fst (Session_Decrypt L ct decoder t) = Inr d"
    using 2(1) by (simp add: Session_Decrypt_def sbind_def slift_def)
  show "session_ok s'" "session_key s' = session_key s" "session_nonce s' = session_nonce s"
    using 1 s' by simp_all
qed

text \<open>A new session: a 128-bit key and a nonce, both fresh bytes.\<close>

definition fresh_aes :: "entropy \<Rightarrow> aes_key" where
  "fresh_aes r = \<lparr>aes_key_string = Base64WSEncode (map r [0..<16]),
     aes_hmac_key = HmacKey_init (Base64WSEncode (map (\<lambda>i. r (i + 16)) [0..<32])) 256, aes_size = 128\<rparr>"

lemma Session_New_eq:
  "Session_New r = (Inr (Session_Create (fresh_aes r) (Some (map (\<lambda>i. r (i + 48)) [0..<16]))), \<lambda>i. r (i + 64))"
  by (simp add: Session_New_def AesKey_Generate_def HmacKey_Generate_def st_defs AesKey_init_def SetSize_def
      SESSION_NONCE_SIZE_def fresh_aes_def default_size_def IsValidSize_def Let_def add.assoc)

lemma HmacKey_init_256: "HmacKey_init s 256 = \<lparr>hmac_key_string = s, hmac_size = 256\<rparr>"
  by (simp add: HmacKey_init_def SetSize_def IsValidSize_def)

lemma session_ok_new: "session_ok (Session_Create (fresh_aes r) nonce)"
  by (simp add: session_ok_def Session_Create_def fresh_aes_def aes_ok_def aes_key_bytes_def hmac_key_bytes_def
      key_bytes_def HmacKey_init_256 IsValidSize_def)

lemma LoadPackedKey_packed:
  assumes "Session_packed_key (Session_Create (fresh_aes r) nonce) = Inr p"
  shows "LoadPackedKey p = Some (Inr (Session_Create (fresh_aes r) None))"
proof -
  have "PackMultipleByteArrays (map Some [map r [0..<16], map (\<lambda>i. r (i + 16)) [0..<32]]) = Inr p"
    using assms by (simp add: Session_packed_key_def Session_Create_def fresh_aes_def aes_key_bytes_def
        hmac_key_bytes_def key_bytes_def HmacKey_init_256)
  from unpack_pack_multiple [OF this] show ?thesis
    by (simp add: LoadPackedKey_def Let_def AesKey_init_def SetSize_def IsValidSize_def fresh_aes_def)
qed

lemma Session_packed_ok: "\<exists>p. Session_packed_key (Session_Create (fresh_aes r) nonce) = Inr p"
proof -
  have "PackMultipleByteArrays (map Some [map r [0..<16], map (\<lambda>i. r (i + 16)) [0..<32]]) =
    Inr (IntToBytes (int (length [map r [0..<16], map (\<lambda>i. r (i + 16)) [0..<32]]))
      @ concat (map (\<lambda>a. IntToBytes (int (length a)) @ a) [map r [0..<16], map (\<lambda>i. r (i + 16)) [0..<32]]))"
    by (rule PackMultipleByteArrays_ok) simp_all
  then show ?thesis
    by (simp add: Session_packed_key_def Session_Create_def fresh_aes_def aes_key_bytes_def
        hmac_key_bytes_def key_bytes_def HmacKey_init_256)
qed

lemma LoadJsonSession_json:
  assumes ok: "key_ok (AesKey k)"
  shows "\<exists>j. Session_json (Session_Create k (Some nonce)) = Inr j
    \<and> LoadJsonSession j = Inr (Session_Create k (Some nonce))"
proof -
  have hp: "json_plain (hmac_json (aes_hmac_key k))" by (simp add: hmac_json_def)
  define kj where "kj = JObj [(''mode'', JStr (mode_name CBC)), (''size'', JInt (aes_size k)),
        (''aesKeyString'', JStr (aes_key_string k)), (''hmacKey'', hmac_json (aes_hmac_key k))]"
  have kp: "json_plain kj" using hp by (simp add: kj_def)
  have aj: "aes_str k = Inr (json_dumps kj)"
    by (simp add: aes_str_def aes_json_def hmac_str_def json_loads_dumps [OF hp] kj_def)
  have rd: "AesKey_Read (json_dumps kj) = Inr k" using aes_Read_str [of k] ok aj by simp
  let ?j = "JObj [(''key'', kj), (''nonce'', JStr (Base64WSEncode nonce))]"
  have jp: "json_plain ?j" using kp by simp
  have "Session_json (Session_Create k (Some nonce)) = Inr (json_dumps ?j)"
    by (simp add: Session_json_def Session_Create_def aj json_loads_dumps [OF kp] Let_def)
  moreover have "LoadJsonSession (json_dumps ?j) = Inr (Session_Create k (Some nonce))"
    unfolding LoadJsonSession_def json_loads_dumps [OF jp] by (simp add: rd get_str_def)
  ultimately show ?thesis by blast
qed

text \<open>What \<open>SessionEncrypter\<close> and \<open>SessionDecrypter\<close> do together, for a pair that decrypts what it encrypts.\<close>

definition transports :: "(bytes \<Rightarrow> (entropy, exn, string) st) \<Rightarrow> (string \<Rightarrow> exn + bytes) \<Rightarrow> bool" where
  "transports enc dec \<longleftrightarrow> (\<forall>d r c r'. enc d r = (Inr c, r') \<longrightarrow> dec c = Inr d)"

lemma SessionDecrypter_ok:
  assumes t: "transports enc dec" and i: "SessionEncrypter_init enc r = (Inr se, r')"
  shows "SessionDecrypter_init dec (se_session_material se) = Some (Inr (Session_Create (fresh_aes r) None))"
    and "se_session se = Session_Create (fresh_aes r) (Some (map (\<lambda>i. r (i + 48)) [0..<16]))"
proof -
  obtain p where p: "Session_packed_key (Session_Create (fresh_aes r) (Some (map (\<lambda>i. r (i + 48)) [0..<16]))) = Inr p"
    using Session_packed_ok by blast
  obtain m where m: "enc p (\<lambda>i. r (i + 64)) = (Inr m, r')" and se:
    "se = \<lparr>se_session = Session_Create (fresh_aes r) (Some (map (\<lambda>i. r (i + 48)) [0..<16])), se_session_material = m\<rparr>"
    using i p by (auto simp: SessionEncrypter_init_def sbind_def slift_def sret_def Session_New_eq
        split: prod.splits sum.splits)
  have "dec m = Inr p" using t m unfolding transports_def by blast
  then show "SessionDecrypter_init dec (se_session_material se) = Some (Inr (Session_Create (fresh_aes r) None))"
    by (simp add: SessionDecrypter_init_def se LoadPackedKey_packed [OF p])
  show "se_session se = Session_Create (fresh_aes r) (Some (map (\<lambda>i. r (i + 48)) [0..<16]))"
    by (simp add: se)
qed

lemma SignedSessionDecrypter_ok:
  assumes t: "transports enc dec" and i: "SignedSessionEncrypter_init enc r = (Inr se, r')"
  shows "SignedSessionDecrypter_init dec (se_session_material se) = Inr (se_session se)"
    and "se_session se = Session_Create (fresh_aes r) (Some (map (\<lambda>i. r (i + 48)) [0..<16]))"
proof -
  have ok: "key_ok (AesKey (fresh_aes r))" using session_ok_new [of r None] by (simp add: session_ok_def Session_Create_def)
  obtain j where j: "Session_json (Session_Create (fresh_aes r) (Some (map (\<lambda>i. r (i + 48)) [0..<16]))) = Inr j"
    "LoadJsonSession j = Inr (Session_Create (fresh_aes r) (Some (map (\<lambda>i. r (i + 48)) [0..<16])))"
    using LoadJsonSession_json [OF ok] by blast
  obtain m where m: "enc j (\<lambda>i. r (i + 64)) = (Inr m, r')" and se:
    "se = \<lparr>se_session = Session_Create (fresh_aes r) (Some (map (\<lambda>i. r (i + 48)) [0..<16])), se_session_material = m\<rparr>"
    using i j(1) by (auto simp: SignedSessionEncrypter_init_def sbind_def slift_def sret_def Session_New_eq
        split: prod.splits sum.splits)
  have "dec m = Inr j" using t m unfolding transports_def by blast
  with j(2) show "SignedSessionDecrypter_init dec (se_session_material se) = Inr (se_session se)"
    by (simp add: SignedSessionDecrypter_init_def se)
  show "se_session se = Session_Create (fresh_aes r) (Some (map (\<lambda>i. r (i + 48)) [0..<16]))" by (simp add: se)
qed

text \<open>End to end: the session travels in the session material, the data in the ciphertext.\<close>

lemma session_transport:
  assumes t: "transports enc dec" and L: "backend_ok L" and c: "codec_pair encoder decoder"
    and i: "SessionEncrypter_init enc r = (Inr se, r')"
    and e: "SessionEncrypter_Encrypt L d encoder (se, ent) = (Inr ct, se', ent')"
  shows "\<exists>s. SessionDecrypter_init dec (se_session_material se) = Some (Inr s)
    \<and> fst (SessionDecrypter_Decrypt L ct decoder s) = Inr d"
proof -
  let ?s = "Session_Create (fresh_aes r) (Some (map (\<lambda>i. r (i + 48)) [0..<16]))" and ?t = "Session_Create (fresh_aes r) None"
  have k: "session_key ?t = session_key ?s" by (simp add: Session_Create_def)
  obtain s' where "Session_Encrypt L d encoder (?s, ent) = (Inr ct, s', ent')"
    using e SessionDecrypter_ok(2) [OF t i] by (auto simp: SessionEncrypter_Encrypt_def split: prod.splits)
  from Session_Decrypt_Encrypt(1) [OF session_ok_new session_ok_new k L c this]
  show ?thesis using SessionDecrypter_ok(1) [OF t i] by (simp add: SessionDecrypter_Decrypt_def)
qed

definition attaches :: "(bytes \<Rightarrow> bytes option \<Rightarrow> (entropy, exn, string) st) \<Rightarrow> (string \<Rightarrow> bytes option \<Rightarrow> exn + bytes option) \<Rightarrow> bool" where
  "attaches sign verify \<longleftrightarrow> (\<forall>d nonce r c r'. sign d nonce r = (Inr c, r') \<longrightarrow> verify c nonce = Inr (Some d))"

lemma signed_session_transport:
  assumes t: "transports enc dec" and a: "attaches sign verify" and L: "backend_ok L"
    and i: "SignedSessionEncrypter_init enc r = (Inr se, r')"
    and e: "SignedSessionEncrypter_Encrypt L sign d (se, ent) = (Inr blob, se', ent')"
  shows "\<exists>s. SignedSessionDecrypter_init dec (se_session_material se) = Inr s
    \<and> fst (SignedSessionDecrypter_Decrypt L verify blob s) = Inr (Some d)"
proof -
  let ?s = "Session_Create (fresh_aes r) (Some (map (\<lambda>i. r (i + 48)) [0..<16]))"
  have se: "se_session se = ?s" by (rule SignedSessionDecrypter_ok(2) [OF t i])
  obtain ct s' ent1 where ct: "Session_Encrypt L d None (?s, ent) = (Inr ct, s', ent1)"
    "sign ct (session_nonce s') ent1 = (Inr blob, ent')"
    using e se by (auto simp: SignedSessionEncrypter_Encrypt_def split: prod.splits sum.splits)
  note dec = Session_Decrypt_Encrypt [OF session_ok_new session_ok_new refl L codec_pairs(1) ct(1)]
  have v: "verify blob (session_nonce ?s) = Inr (Some ct)"
    using a ct(2) dec(4) unfolding attaches_def by metis
  have "ct \<noteq> []"
    using dec(1) by (auto simp: Session_Decrypt_def sbind_def slift_def Crypter_Decrypt_def decode_with_def
        split: prod.splits sum.splits)
  then have "fst (SignedSessionDecrypter_Decrypt L verify blob ?s) = Inr (Some d)"
    using v dec(1) by (auto simp: SignedSessionDecrypter_Decrypt_def sbind_def sget_def slift_def sret_def
        split: prod.splits sum.splits)
  then show ?thesis using SignedSessionDecrypter_ok(1) [OF t i] se by simp
qed

end
