(* ===== verification/Keyczart.thy ===== *)
theory Keyczart
  imports Sessions
begin

text \<open>
  \<open>python/src/keyczar/keyczart.py\<close>: the command-line tool over files, entropy, the module's mock
  reader and what is printed. A command is a function of that state; its value is \<open>None\<close> when it
  does not return, which only the generation of a key can cause. A location that is missing is
  \<open>None\<close>, as in the code. \<open>Close\<close> of a reader or a writer does nothing.
\<close>

record world =
  w_fs :: fs
  w_ent :: entropy
  w_mock :: "mock_reader option"
  w_out :: "string list"

type_synonym 'a prog = "world \<Rightarrow> ((exn + 'a) \<times> world) option"

definition pret :: "'a \<Rightarrow> 'a prog" where
  "pret x = (\<lambda>w. Some (Inr x, w))"

definition praise :: "exn \<Rightarrow> 'a prog" where
  "praise e = (\<lambda>w. Some (Inl e, w))"

definition pbind :: "'a prog \<Rightarrow> ('a \<Rightarrow> 'b prog) \<Rightarrow> 'b prog" where
  "pbind m f = (\<lambda>w. case m w of None \<Rightarrow> None
     | Some (Inl e, w') \<Rightarrow> Some (Inl e, w') | Some (Inr x, w') \<Rightarrow> f x w')"

definition pget :: "world prog" where
  "pget = (\<lambda>w. Some (Inr w, w))"

definition plift :: "exn + 'a \<Rightarrow> 'a prog" where
  "plift r = (\<lambda>w. Some (r, w))"

definition on_fs :: "(fs, exn, 'a) st \<Rightarrow> 'a prog" where
  "on_fs m = (\<lambda>w. case m (w_fs w) of (r, f) \<Rightarrow> Some (r, w\<lparr>w_fs := f\<rparr>))"

definition on_ent :: "(entropy, exn, 'a) st \<Rightarrow> 'a prog" where
  "on_ent m = (\<lambda>w. case m (w_ent w) of (r, e) \<Rightarrow> Some (r, w\<lparr>w_ent := e\<rparr>))"

definition on_mock :: "(mock_reader, exn, 'a) st \<Rightarrow> mock_reader \<Rightarrow> 'a prog" where
  "on_mock m mk = (\<lambda>w. case m mk of (r, mk') \<Rightarrow> Some (r, w\<lparr>w_mock := Some mk'\<rparr>))"

definition print_line :: "string \<Rightarrow> unit prog" where
  "print_line s = (\<lambda>w. Some (Inr (), w\<lparr>w_out := w_out w @ [s]\<rparr>))"

lemmas prog_defs = pret_def praise_def pbind_def pget_def plift_def on_fs_def on_ent_def on_mock_def print_line_def

subsection \<open>Commands and flags\<close>

datatype command = CREATE | ADDKEY | PUBKEY | PROMOTE | DEMOTE | REVOKE | GENKEY

definition commands :: "(string \<times> command) list" where
  "commands = [(''create'', CREATE), (''addkey'', ADDKEY), (''pubkey'', PUBKEY), (''promote'', PROMOTE),
     (''demote'', DEMOTE), (''revoke'', REVOKE), (''genkey'', GENKEY)]"

definition GetCommand :: "string \<Rightarrow> exn + command" where
  "GetCommand cmd = (case map_of commands cmd of
     Some c \<Rightarrow> Inr c | None \<Rightarrow> Inl (KeyczarError ''Illegal command''))"

datatype flag = F_LOCATION | F_NAME | F_SIZE | F_STATUS | F_PURPOSE | F_DESTINATION | F_VERSION
  | F_ASYMMETRIC | F_CRYPTER

definition flags :: "(string \<times> flag) list" where
  "flags = [(''location'', F_LOCATION), (''name'', F_NAME), (''size'', F_SIZE), (''status'', F_STATUS),
     (''purpose'', F_PURPOSE), (''destination'', F_DESTINATION), (''version'', F_VERSION),
     (''asymmetric'', F_ASYMMETRIC), (''crypter'', F_CRYPTER)]"

definition GetFlag :: "string \<Rightarrow> exn + flag" where
  "GetFlag flag = (case map_of flags flag of
     Some f \<Rightarrow> Inr f | None \<Rightarrow> Inl (KeyczarError ''Unknown flag''))"

subsection \<open>Key sets at a location\<close>

definition crypter_dec :: "crypto \<Rightarrow> keyczar \<Rightarrow> bytes \<Rightarrow> exn + bytes" where
  "crypter_dec L c s = Crypter_Decrypt L c s (Some Base64WSDecode)"

definition crypter_enc :: "crypto \<Rightarrow> keyczar \<Rightarrow> encrypt_fun" where
  "crypter_enc L c s = Encrypter_Encrypt L c s (Some Base64WSEncode)"

definition with_crypter :: "crypto \<Rightarrow> keyczar option \<Rightarrow> reader \<Rightarrow> reader" where
  "with_crypter L crypter rd = (case crypter of None \<Rightarrow> rd | Some c \<Rightarrow> EncryptedReader rd (crypter_dec L c))"

definition CreateGenericKeyczar :: "crypto \<Rightarrow> string option \<Rightarrow> keyczar option \<Rightarrow> keyczar prog" where
  "CreateGenericKeyczar L loc crypter = pbind pget (\<lambda>w. case w_mock w of
     Some m \<Rightarrow> plift (Keyczar_init (\<lambda>p. True) (MockReader m))
   | None \<Rightarrow> (case loc of
       None \<Rightarrow> praise (KeyczarError ''Need location'')
     | Some l \<Rightarrow> plift (ebind (CreateReader (w_fs w) l) (\<lambda>rd.
         Keyczar_init (\<lambda>p. True) (with_crypter L crypter rd)))))"

fun mock_set_keys :: "keyczar \<Rightarrow> nat list \<Rightarrow> (mock_reader, exn, unit) st" where
  "mock_set_keys czar [] = sret ()"
| "mock_set_keys czar (v # vs) = sbind (slift (GetKey czar (VersionId v))) (\<lambda>k.
     sbind (smodify (mk_SetKey (version_number (kz_heap czar ! v)) k)) (\<lambda>u. mock_set_keys czar vs))"

text \<open>The mock's metadata becomes that of the key set, with its version objects.\<close>

definition UpdateGenericKeyczar :: "crypto \<Rightarrow> keyczar \<Rightarrow> string option \<Rightarrow> keyczar option \<Rightarrow> unit prog" where
  "UpdateGenericKeyczar L czar loc encrypter = pbind pget (\<lambda>w. case w_mock w of
     Some m \<Rightarrow> on_mock (mock_set_keys czar (kz_versions czar))
       (m\<lparr>mk_kmd := kz_metadata czar, mk_heap := kz_heap czar\<rparr>)
   | None \<Rightarrow> (case loc of
       None \<Rightarrow> praise PyTypeError
     | Some l \<Rightarrow> pbind (plift (CreateWriter (w_fs w) l)) (\<lambda>writer w.
         (case Keyczar_Write (WriterAt writer) (map_option (crypter_enc L) encrypter) (czar, w_fs w, w_ent w) of
            (r, czar', f, e) \<Rightarrow> Some (r, w\<lparr>w_fs := f, w_ent := e\<rparr>)))))"

subsection \<open>The commands\<close>

definition metadata_for :: "string \<Rightarrow> key_purpose option \<Rightarrow> string option \<Rightarrow> exn + key_metadata" where
  "metadata_for name p asymmetric =
     (if p = Some SIGN_AND_VERIFY then
        Inr (KeyMetadata_init name SIGN_AND_VERIFY (case asymmetric of None \<Rightarrow> HMAC_SHA1
          | Some a \<Rightarrow> if map to_lower a = ''rsa'' then RSA_PRIV else DSA_PRIV) False)
      else if p = Some DECRYPT_AND_ENCRYPT then
        Inr (KeyMetadata_init name DECRYPT_AND_ENCRYPT (case asymmetric of None \<Rightarrow> AES | Some a \<Rightarrow> RSA_PRIV) False)
      else Inl (KeyczarError ''Missing or unsupported purpose''))"

definition Create :: "string option \<Rightarrow> string \<Rightarrow> key_purpose option \<Rightarrow> string option \<Rightarrow> unit prog" where
  "Create loc name p asymmetric = pbind pget (\<lambda>w.
     if w_mock w = None \<and> loc = None then praise (KeyczarError ''Location missing'')
     else pbind (plift (metadata_for name p asymmetric)) (\<lambda>kmd. case w_mock w of
       Some m \<Rightarrow> on_mock (smodify (\<lambda>m. m\<lparr>mk_kmd := kmd\<rparr>)) m
     | None \<Rightarrow> pbind (plift (CreateWriter (w_fs w) (the loc))) (\<lambda>writer.
         on_fs (FileWriter_WriteMetadata writer (KeyMetadata_str [] kmd) False))))"

definition AddKey_cmd :: "crypto \<Rightarrow> string option \<Rightarrow> key_status \<Rightarrow> keyczar option \<Rightarrow> int \<Rightarrow> unit prog" where
  "AddKey_cmd L loc s crypter sz = pbind (CreateGenericKeyczar L loc crypter) (\<lambda>czar.
     pbind (\<lambda>w. case AddVersion L s (if sz = -1 then None else Some sz) (czar, w_ent w) of
         None \<Rightarrow> None
       | Some (Inl e, czar', ent) \<Rightarrow> Some (Inl e, w\<lparr>w_ent := ent\<rparr>)
       | Some (Inr u, czar', ent) \<Rightarrow> Some (Inr czar', w\<lparr>w_ent := ent\<rparr>)) (\<lambda>czar'.
     UpdateGenericKeyczar L czar' loc crypter))"

definition PubKey_cmd :: "crypto \<Rightarrow> string option \<Rightarrow> string option \<Rightarrow> unit prog" where
  "PubKey_cmd L loc dest = pbind pget (\<lambda>w.
     if w_mock w = None \<and> dest = None then praise (KeyczarError ''Must define destination'')
     else pbind (CreateGenericKeyczar L loc None) (\<lambda>czar. case w_mock w of
       Some m \<Rightarrow> on_mock (PublicKeyExport_mock czar) m
     | None \<Rightarrow> on_fs (PublicKeyExport czar (the dest))))"

text \<open>What \<open>Promote\<close>, \<open>Demote\<close> and \<open>Revoke\<close> share; none of them takes a crypter.\<close>

definition change_version :: "crypto \<Rightarrow> (int \<Rightarrow> (keyczar, exn, unit) st) \<Rightarrow> string option \<Rightarrow> int \<Rightarrow> unit prog" where
  "change_version L oper loc num = pbind (CreateGenericKeyczar L loc None) (\<lambda>czar.
     if num < 0 then praise (KeyczarError ''Missing version'')
     else (case oper num czar of
         (Inl e, czar') \<Rightarrow> praise e
       | (Inr u, czar') \<Rightarrow> UpdateGenericKeyczar L czar' loc None))"

definition Promote_cmd :: "crypto \<Rightarrow> string option \<Rightarrow> int \<Rightarrow> unit prog" where
  "Promote_cmd L loc num = change_version L Promote loc num"

definition Demote_cmd :: "crypto \<Rightarrow> string option \<Rightarrow> int \<Rightarrow> unit prog" where
  "Demote_cmd L loc num = change_version L Demote loc num"

definition Revoke_cmd :: "crypto \<Rightarrow> string option \<Rightarrow> int \<Rightarrow> unit prog" where
  "Revoke_cmd L loc num = pbind (change_version L Revoke loc num) (\<lambda>u. pbind pget (\<lambda>w. case w_mock w of
     Some m \<Rightarrow> on_mock (mk_RemoveKey num) m
   | None \<Rightarrow> (case loc of
       None \<Rightarrow> praise PyTypeError
     | Some l \<Rightarrow> pbind (plift (CreateWriter (w_fs w) l)) (\<lambda>writer. on_fs (FileWriter_Remove writer num)))))"

definition CreateCrypter :: "string \<Rightarrow> keyczar prog" where
  "CreateCrypter location = pbind pget (\<lambda>w. plift (Crypter_Read (w_fs w) location))"

subsection \<open>Generating key sets\<close>

text \<open>\<open>os.listdir\<close>: the names right under a directory.\<close>

definition name_under :: "string \<Rightarrow> string \<Rightarrow> string option" where
  "name_under dir path = (let pre = path_join dir []; rest = drop (length pre) path in
     if take (length pre) path = pre \<and> rest \<noteq> [] \<and> CHR ''/'' \<notin> set rest then Some rest else None)"

definition os_listdir :: "fs \<Rightarrow> string \<Rightarrow> exn + string list" where
  "os_listdir f dir = (if dir \<notin> set (fs_dirs f) then Inl PyOSError
     else Inr (List.map_filter (name_under dir) (map fst (fs_files f) @ fs_dirs f)))"

fun remove_files :: "string \<Rightarrow> string list \<Rightarrow> (fs, exn, unit) st" where
  "remove_files dir [] = sret ()"
| "remove_files dir (filename # names) = (\<lambda>f. let path = path_join dir filename in
     if path \<in> set (fs_dirs f) then remove_files dir names f
     else sbind (os_remove path) (\<lambda>u. remove_files dir names) f)"

definition Clean :: "string \<Rightarrow> (fs, exn, unit) st" where
  "Clean dir = sbind sget (\<lambda>f. sbind (slift (os_listdir f dir)) (\<lambda>names. remove_files dir names))"

definition UseKey :: "crypto \<Rightarrow> key_purpose \<Rightarrow> string \<Rightarrow> string \<Rightarrow> keyczar option \<Rightarrow> bytes \<Rightarrow> unit prog" where
  "UseKey L p loc dest crypter msg = pbind pget (\<lambda>w. pbind (plift (CreateReader (w_fs w) loc)) (\<lambda>rd0.
     let rd = with_crypter L crypter rd0 in
     pbind (if p = DECRYPT_AND_ENCRYPT then
              pbind (plift (Keyczar_init Crypter_acceptable rd)) (\<lambda>c. on_ent (Encrypter_Encrypt L c msg (Some Base64WSEncode)))
            else if p = SIGN_AND_VERIFY then
              pbind (plift (Keyczar_init Signer_acceptable rd)) (\<lambda>c. on_ent (Signer_Sign L c msg (Some Base64WSEncode)))
            else pret []) (\<lambda>answer. on_fs (WriteFile answer dest))))"

definition KEYSETS :: "(string \<times> key_purpose \<times> string option \<times> string option) list" where
  "KEYSETS = [(''aes'', DECRYPT_AND_ENCRYPT, None, None),
     (''aes-crypted'', DECRYPT_AND_ENCRYPT, None, Some ''aes''),
     (''hmac'', SIGN_AND_VERIFY, None, None),
     (''rsa'', DECRYPT_AND_ENCRYPT, Some ''rsa'', None),
     (''rsa-sign'', SIGN_AND_VERIFY, Some ''rsa'', None),
     (''dsa'', SIGN_AND_VERIFY, Some ''dsa'', None)]"

definition test_message :: bytes where
  "test_message = ''This is some test data''"

fun gen_sets :: "crypto \<Rightarrow> string \<Rightarrow> (string \<times> key_purpose \<times> string option \<times> string option) list \<Rightarrow> unit prog" where
  "gen_sets L loc [] = pret ()"
| "gen_sets L loc ((name, p, asymmetric, crypter_name) # rest) =
     pbind (print_line ''.'') (\<lambda>u. let dir_path = path_join loc name in
     pbind (case crypter_name of None \<Rightarrow> pret None
       | Some c \<Rightarrow> pbind (CreateCrypter (path_join loc c)) (\<lambda>c. pret (Some c))) (\<lambda>crypter.
     pbind (on_fs (Clean dir_path)) (\<lambda>u.
     pbind (Create (Some dir_path) ''Test'' (Some p) asymmetric) (\<lambda>u.
     pbind (AddKey_cmd L (Some dir_path) PRIMARY crypter (-1)) (\<lambda>u.
     pbind (UseKey L p dir_path (path_join dir_path ''1.out'') crypter test_message) (\<lambda>u.
     pbind (AddKey_cmd L (Some dir_path) PRIMARY crypter (-1)) (\<lambda>u.
     pbind (UseKey L p dir_path (path_join dir_path ''2.out'') crypter test_message) (\<lambda>u.
       gen_sets L loc rest))))))))"

fun export_sets :: "crypto \<Rightarrow> string \<Rightarrow> string list \<Rightarrow> unit prog" where
  "export_sets L loc [] = pret ()"
| "export_sets L loc (name # rest) = pbind (print_line ''.'') (\<lambda>u.
     pbind (PubKey_cmd L (Some (path_join loc name)) (Some (path_join loc (name @ ''.public'')))) (\<lambda>u.
       export_sets L loc rest))"

text \<open>Joining a path to \<open>None\<close> is an \<open>AttributeError\<close>.\<close>

definition GenKeySet :: "crypto \<Rightarrow> string option \<Rightarrow> unit prog" where
  "GenKeySet L loc = pbind (print_line ''Generating private key sets...'') (\<lambda>u. case loc of
     None \<Rightarrow> pbind (print_line ''.'') (\<lambda>u. praise PyAttributeError)
   | Some l \<Rightarrow> pbind (gen_sets L l KEYSETS) (\<lambda>u.
       pbind (print_line ''Exporting public key sets...'') (\<lambda>u.
       pbind (export_sets L l [''dsa'', ''rsa-sign'']) (\<lambda>u. print_line ''Done!''))))"

subsection \<open>Usage\<close>

definition usage_lines :: "string list" where
  "usage_lines = [''Usage: '' @ [CHR 0x22] @ ''keyczart command flags'' @ [CHR 0x22],
     ''  Commands: create addkey pubkey promote demote revoke'',
     ''Flags: location name size status purpose destination version asymmetric crypter'',
     ''Command Usage:'',
     ''create --location=/path/to/keys --purpose=(crypt|sign) [--name='' @ [CHR 0x22] @ ''A name'' @ [CHR 0x22]
       @ ''] [--asymmetric=(dsa|rsa)]'',
     ''  Creates a new, empty key set in the given location.'',
     ''  This key set must have a purpose of either '' @ [CHR 0x22] @ ''crypt'' @ [CHR 0x22] @ '' or ''
       @ [CHR 0x22] @ ''sign'' @ [CHR 0x22],
     ''  and may optionally be given a name. The optional asymmetric '',
     ''  flag will generate a public key set of the given algorithm.'',
     ''  The '' @ [CHR 0x22] @ ''dsa'' @ [CHR 0x22] @ '' asymmetric value is valid only for sets with ''
       @ [CHR 0x22] @ ''sign'' @ [CHR 0x22] @ '' purpose.'',
     ''  with the given purpose.'',
     ''addkey --location=/path/to/keys [--status=(active|primary)] [--size=size] [--crypter=crypterLocation]'',
     ''  Adds a new key to an existing key set. Optionally'',
     ''  specify a purpose, which is active by default. Optionally'',
     ''  specify a key size in bits. Also optionally specify the'',
     ''  location of a set of crypting keys, which will be used to'',
     ''  encrypt this key set.'',
     ''pubkey --location=/path/to/keys --destination=/destination'',
     ''  Extracts public keys from a given key set and writes them'',
     ''  to the destination. The '' @ [CHR 0x22] @ ''pubkey'' @ [CHR 0x22] @ '' command Only works for'',
     ''  key sets that were created with the '' @ [CHR 0x22] @ ''--asymmetric'' @ [CHR 0x22] @ '' flag.'',
     ''promote --location=/path/to/keys --version=versionNumber'',
     ''  Promotes the status of the given key version in the given '',
     ''  location. Active keys are promoted to primary (which demotes '',
     ''  any existing primary key to active). Keys scheduled for '',
     ''  revocation are promoted to be active.'',
     ''demote --location=/path/to/keys --version=versionNumber'',
     ''  Demotes the status of the given key version in the given'',
     ''  location. Primary keys are demoted to active. Active keys'',
     ''  are scheduled for revocation.'',
     ''revoke --location=/path/to/keys --version=versionNumber'',
     ''  Revokes the key of the given version number.'',
     ''  This key must have been scheduled for revocation by the'',
     ''  promote command. WARNING: The key will be destroyed.'',
     [],
     ''Optional flags are in [brackets]. The notation (a|b|c) means '' @ [CHR 0x22] @ ''a'' @ [CHR 0x22]
       @ '', '' @ [CHR 0x22] @ ''b'' @ [CHR 0x22] @ '', and '' @ [CHR 0x22] @ ''c'' @ [CHR 0x22],
     ''are the valid choices'']"

definition Usage :: "unit prog" where
  "Usage = print_line (join_with [CHR 0x0A] usage_lines)"

subsection \<open>The command line\<close>

text \<open>\<open>str.split\<close> with one character, and \<open>int\<close> of a string.\<close>

fun split_on :: "char \<Rightarrow> string \<Rightarrow> string list" where
  "split_on c [] = [[]]"
| "split_on c (x # xs) = (if x = c then [] # split_on c xs
     else (case split_on c xs of [] \<Rightarrow> [[x]] | w # ws \<Rightarrow> (x # w) # ws))"

definition py_space :: "char \<Rightarrow> bool" where
  "py_space c \<longleftrightarrow> c = CHR '' '' \<or> (9 \<le> byte_ord c \<and> byte_ord c \<le> 13)"

definition py_strip :: "string \<Rightarrow> string" where
  "py_strip s = rev (dropWhile py_space (rev (dropWhile py_space s)))"

definition py_nat :: "string \<Rightarrow> exn + int" where
  "py_nat s = (if s \<noteq> [] \<and> list_all is_digit s then Inr (int (nat_of_digits s)) else Inl PyValueError)"

definition py_int :: "string \<Rightarrow> exn + int" where
  "py_int s0 = (let s = py_strip s0 in case s of
     [] \<Rightarrow> Inl PyValueError
   | c # cs \<Rightarrow> if c = CHR ''-'' then ebind (py_nat cs) (\<lambda>n. Inr (- n))
       else if c = CHR ''+'' then py_nat cs else py_nat s)"

definition to_upper :: "char \<Rightarrow> char" where
  "to_upper c = (if 97 \<le> byte_ord c \<and> byte_ord c \<le> 122 then byte_chr (byte_ord c - 32) else c)"

fun parse_flags :: "string list \<Rightarrow> (flag \<times> string) list \<Rightarrow> (flag \<times> string) list prog" where
  "parse_flags [] fl = pret fl"
| "parse_flags (arg # args) fl = (if take 2 arg = ''--'' then
       (case split_on (CHR ''='') (drop 2 arg) of
          [flag, val] \<Rightarrow> pbind (plift (GetFlag flag)) (\<lambda>f. parse_flags args (AList.update f val fl))
        | _ \<Rightarrow> pbind (print_line ''Flags incorrectly formatted'') (\<lambda>u. pbind Usage (\<lambda>u. parse_flags args fl)))
     else parse_flags args fl)"

text \<open>
  The two assignments in the \<open>try\<close>: \<open>version\<close> is bound when the second one fails. A variable that
  is not bound is \<open>None\<close>.
\<close>

definition int_flag :: "(flag \<times> string) list \<Rightarrow> flag \<Rightarrow> exn + int" where
  "int_flag fl f = (case map_of fl f of None \<Rightarrow> Inr (-1) | Some s \<Rightarrow> py_int s)"

definition number_flags :: "(flag \<times> string) list \<Rightarrow> (int option \<times> int option) prog" where
  "number_flags fl = (let bad = (\<lambda>r. pbind (print_line ''Size and version flags require an integer'') (\<lambda>u.
       pbind Usage (\<lambda>u. pret r))) in
     case int_flag fl F_VERSION of
       Inl e \<Rightarrow> bad (None, None)
     | Inr v \<Rightarrow> (case int_flag fl F_SIZE of Inl e \<Rightarrow> bad (Some v, None) | Inr n \<Rightarrow> pret (Some v, Some n)))"

definition local :: "'a option \<Rightarrow> 'a prog" where
  "local x = (case x of None \<Rightarrow> praise PyUnboundLocalError | Some v \<Rightarrow> pret v)"

definition purpose_flag :: "string option \<Rightarrow> key_purpose option" where
  "purpose_flag s = (case s of None \<Rightarrow> None
     | Some p \<Rightarrow> map_of [(''crypt'', DECRYPT_AND_ENCRYPT), (''sign'', SIGN_AND_VERIFY)] p)"

definition run_command :: "crypto \<Rightarrow> command \<Rightarrow> (flag \<times> string) list \<Rightarrow> int option \<Rightarrow> int option \<Rightarrow> unit prog" where
  "run_command L cmd fl version sz = (let loc = map_of fl F_LOCATION in case cmd of
     CREATE \<Rightarrow> Create loc (case map_of fl F_NAME of None \<Rightarrow> ''Test'' | Some n \<Rightarrow> n)
       (purpose_flag (map_of fl F_PURPOSE)) (map_of fl F_ASYMMETRIC)
   | ADDKEY \<Rightarrow> pbind (plift (GetStatus (map to_upper (case map_of fl F_STATUS of None \<Rightarrow> ''ACTIVE'' | Some s \<Rightarrow> s)))) (\<lambda>s.
       pbind (case map_of fl F_CRYPTER of None \<Rightarrow> pret None
         | Some c \<Rightarrow> pbind (CreateCrypter c) (\<lambda>k. pret (Some k))) (\<lambda>crypter.
       pbind (local sz) (\<lambda>n. AddKey_cmd L loc s crypter n)))
   | PUBKEY \<Rightarrow> PubKey_cmd L loc (map_of fl F_DESTINATION)
   | PROMOTE \<Rightarrow> pbind (local version) (Promote_cmd L loc)
   | DEMOTE \<Rightarrow> pbind (local version) (Demote_cmd L loc)
   | REVOKE \<Rightarrow> pbind (local version) (Revoke_cmd L loc)
   | GENKEY \<Rightarrow> GenKeySet L loc)"

definition main :: "crypto \<Rightarrow> string list \<Rightarrow> unit prog" where
  "main L argv = (case argv of
     [] \<Rightarrow> Usage
   | a # _ \<Rightarrow> pbind (plift (GetCommand a)) (\<lambda>cmd.
       pbind (parse_flags argv []) (\<lambda>fl.
       pbind (number_flags fl) (\<lambda>(version, sz). run_command L cmd fl version sz))))"

end
