(* ===== verification/KeyczartSpec.thy ===== *)
theory KeyczartSpec
  imports Keyczart
begin

text \<open>
  What the commands of \<open>keyczart\<close> do to the files: promoting and demoting on disk implements the
  operation on the table of statuses, revoking deletes the key file, and the refusals.
\<close>

subsection \<open>Writing keeps the directories\<close>

lemma WriteFile_dirs: "fs_dirs (snd (WriteFile d loc f)) = fs_dirs f"
  by (simp add: WriteFile_def)

lemma WriteKey_dirs: "fs_dirs (fst (snd (FileWriter_WriteKey loc k n encrypter (f, ent)))) = fs_dirs f"
  using WriteFile_dirs
  by (auto simp: FileWriter_WriteKey_def split: sum.split prod.split) (metis snd_conv)+

lemma write_keys_dirs: "fs_dirs (fst (snd (write_keys kz loc encrypter vs (f, ent)))) = fs_dirs f"
proof (induction vs arbitrary: f ent)
  case (Cons v vs)
  show ?case
  proof (cases "GetKey kz (VersionId v)")
    case (Inr k)
    obtain r f1 ent1 where w: "FileWriter_WriteKey loc k (version_number (kz_heap kz ! v)) encrypter (f, ent) = (r, f1, ent1)"
      by (metis prod.collapse)
    then have "fs_dirs f1 = fs_dirs f" using WriteKey_dirs [of loc k _ encrypter f ent] by (metis fst_conv snd_conv)
    then show ?thesis using Cons [of f1 ent1] Inr w by (cases r) (simp_all add: sbind_def slift_def)
  qed (simp add: sbind_def slift_def)
qed (simp add: sret_def)

lemma Write_dirs:
  assumes "Keyczar_Write (WriterAt loc) encrypter (kz, f, ent) = (res, kz', f', ent')"
  shows "fs_dirs f' = fs_dirs f"
proof -
  let ?kz = "kz\<lparr>kz_metadata := (kz_metadata kz)\<lparr>encrypted := (encrypter \<noteq> None)\<rparr>\<rparr>"
  obtain r1 f1 where 1: "FileWriter_WriteMetadata loc (KeyMetadata_str (kz_heap ?kz) (kz_metadata ?kz)) True f = (r1, f1)"
    by (metis prod.collapse)
  then have d1: "fs_dirs f1 = fs_dirs f"
    using WriteFile_dirs
    by (auto simp: FileWriter_WriteMetadata_def sbind_def slift_def split: sum.splits prod.splits) (metis snd_conv)+
  obtain r2 f2 ent2 where 2: "write_keys ?kz loc encrypter (kz_versions ?kz) (f1, ent) = (r2, f2, ent2)"
    by (metis prod.collapse)
  have "fs_dirs f2 = fs_dirs f1" using write_keys_dirs [of ?kz loc encrypter "kz_versions ?kz" f1 ent] 2 by simp
  then show ?thesis using assms 1 2 d1 by (auto simp: Keyczar_Write_def Let_def split: sum.splits)
qed

subsection \<open>Promoting and demoting on disk\<close>

text \<open>Two key sets with the same metadata have the same statuses.\<close>

lemma view_statuses:
  assumes ok: "kmd_ok (kz_heap kz) (kz_metadata kz)" "kmd_ok (kz_heap kz') (kz_metadata kz')"
    and vs: "map ((!) (kz_heap kz')) (kmd_versions (kz_metadata kz')) = map ((!) (kz_heap kz)) (kmd_versions (kz_metadata kz))"
  shows "kz_statuses kz' = kz_statuses kz"
proof
  fix n
  show "kz_statuses kz' n = kz_statuses kz n"
  proof (cases "kmd_find n (kz_metadata kz)")
    case (Some r)
    with version_at [OF ok(1) Some vs ok(2)] show ?thesis by (auto simp: kz_statuses_def)
  next
    case None
    then have "kmd_find n (kz_metadata kz') = None"
      using version_at [OF ok(2) _ vs [symmetric] ok(1), of n] by (cases "kmd_find n (kz_metadata kz')") auto
    with None show ?thesis by (simp add: kz_statuses_def)
  qed
qed

lemma generic_read: "loc \<in> set (fs_dirs f) \<Longrightarrow>
    GenericKeyczar_Read f loc = Keyczar_init (\<lambda>p. True) (FileReader f loc)"
  by (simp add: GenericKeyczar_Read_def CreateReader_def reader_classes_def FileReader_CreateReader_def path_exists_def)

text \<open>The key set at a location, read through a crypter when there is one.\<close>

definition Generic_Read :: "crypto \<Rightarrow> keyczar option \<Rightarrow> fs \<Rightarrow> string \<Rightarrow> exn + keyczar" where
  "Generic_Read L crypter f loc =
     ebind (CreateReader f loc) (\<lambda>rd. Keyczar_init (\<lambda>p. True) (with_crypter L crypter rd))"

lemma Generic_Read_None [simp]: "Generic_Read L None f loc = GenericKeyczar_Read f loc"
  by (simp add: Generic_Read_def GenericKeyczar_Read_def with_crypter_def)

lemma generic_crypter_read: "loc \<in> set (fs_dirs f) \<Longrightarrow>
    Generic_Read L crypter f loc = Keyczar_init (\<lambda>p. True) (with_crypter L crypter (FileReader f loc))"
  by (simp add: Generic_Read_def CreateReader_def reader_classes_def FileReader_CreateReader_def path_exists_def)

lemma CreateGenericKeyczar_disk: "w_mock w = None \<Longrightarrow>
    CreateGenericKeyczar L (Some loc) crypter w = Some (Generic_Read L crypter (w_fs w) loc, w)"
  by (simp add: CreateGenericKeyczar_def prog_defs Generic_Read_def)

text \<open>A crypter for keys: its \<open>Encrypt\<close> succeeds and its \<open>Decrypt\<close> inverts it.\<close>

definition crypter_dec_of :: "crypto \<Rightarrow> keyczar option \<Rightarrow> bytes \<Rightarrow> exn + bytes" where
  "crypter_dec_of L crypter = (case crypter of None \<Rightarrow> Inr | Some c \<Rightarrow> crypter_dec L c)"

definition crypter_ok :: "crypto \<Rightarrow> keyczar option \<Rightarrow> bool" where
  "crypter_ok L crypter \<longleftrightarrow> enc_pair (map_option (crypter_enc L) crypter) (crypter_dec_of L crypter)"

lemma crypter_ok_None [simp]: "crypter_ok L None"
  by (simp add: crypter_ok_def enc_pair_def)

lemma loc_reader_crypter:
  "loc_reader (map_option (crypter_enc L) crypter) (crypter_dec_of L crypter) f loc = with_crypter L crypter (FileReader f loc)"
  by (cases crypter) (simp_all add: loc_reader_def with_crypter_def crypter_dec_of_def)

lemma update_on_disk_meta:
  assumes mock: "w_mock w = None" and dir: "loc \<in> set (fs_dirs (w_fs w))" and c: "kz_complete kz"
    and o: "loc_open (w_fs w) loc" and crypter: "crypter_ok L crypter"
  shows "\<exists>w' kz'. UpdateGenericKeyczar L kz (Some loc) crypter w = Some (Inr (), w')
    \<and> Generic_Read L crypter (w_fs w') loc = Inr kz' \<and> kz_statuses kz' = kz_statuses kz \<and> kz_inv kz'
    \<and> kmd_type (kz_metadata kz') = kmd_type (kz_metadata kz) \<and> purpose (kz_metadata kz') = purpose (kz_metadata kz)
    \<and> encrypted (kz_metadata kz') = (crypter \<noteq> None)"
proof -
  let ?enc = "map_option (crypter_enc L) crypter"
  obtain kz1 f' ent' kz' where w: "Keyczar_Write (WriterAt loc) ?enc (kz, w_fs w, w_ent w) = (Inr (), kz1, f', ent')"
    and i: "Keyczar_init (\<lambda>p. True) (with_crypter L crypter (FileReader f' loc)) = Inr kz'"
    and v: "kmd_view (kz_heap kz') (kz_metadata kz') = kmd_view (kz_heap kz) ((kz_metadata kz)\<lparr>encrypted := (?enc \<noteq> None)\<rparr>)"
    using Write_load [OF c o, of ?enc "crypter_dec_of L crypter" "\<lambda>p. True" "w_ent w"] crypter
    by (auto simp: crypter_ok_def loc_reader_crypter)
  have "fs_dirs f' = fs_dirs (w_fs w)" using w by (rule Write_dirs)
  then have r: "Generic_Read L crypter f' loc = Inr kz'" using dir i by (simp add: generic_crypter_read)
  have "kmd_ok (kz_heap kz) (kz_metadata kz)" "kmd_ok (kz_heap kz') (kz_metadata kz')"
    using c Keyczar_init_inv(1) [OF i] by (simp_all add: kz_complete_def kz_inv_def)
  then have "kz_statuses kz' = kz_statuses kz"
    using v by (intro view_statuses) (simp_all add: kmd_view_def kmd_versions_def)
  moreover have "UpdateGenericKeyczar L kz (Some loc) crypter w = Some (Inr (), w\<lparr>w_fs := f', w_ent := ent'\<rparr>)"
    using mock dir w by (simp add: UpdateGenericKeyczar_def prog_defs CreateWriter_def FileWriter_CreateWriter_def
        path_exists_def)
  moreover have "kz_inv kz'" by (rule Keyczar_init_inv(1) [OF i])
  moreover have "kmd_type (kz_metadata kz') = kmd_type (kz_metadata kz)" "purpose (kz_metadata kz') = purpose (kz_metadata kz)"
    "encrypted (kz_metadata kz') = (crypter \<noteq> None)"
    using v by (simp_all add: kmd_view_def)
  ultimately show ?thesis using r by fastforce
qed

lemma update_on_disk:
  assumes "w_mock w = None" and "loc \<in> set (fs_dirs (w_fs w))" and "kz_complete kz" and "loc_open (w_fs w) loc"
  shows "\<exists>w' kz'. UpdateGenericKeyczar L kz (Some loc) None w = Some (Inr (), w')
    \<and> GenericKeyczar_Read (w_fs w') loc = Inr kz' \<and> kz_statuses kz' = kz_statuses kz"
  using update_on_disk_meta [OF assms crypter_ok_None, of L] by auto

text \<open>An empty key set is read through any crypter.\<close>

lemma empty_read_crypter:
  assumes "GenericKeyczar_Read f loc = Inr kz" and "kz_keys kz = []" and "loc \<in> set (fs_dirs f)"
  shows "Generic_Read L crypter f loc = Inr kz"
proof -
  have i: "Keyczar_init (\<lambda>p. True) (FileReader f loc) = Inr kz" using assms(1,3) by (simp add: generic_read)
  then obtain tx kmd h where m: "rd_GetMetadata (FileReader f loc) = Inr tx" "KeyMetadata_Read tx [] = (Inr kmd, h)"
    "encrypted kmd \<longrightarrow> rd_encrypted (FileReader f loc)"
    and l: "load_keys (FileReader f loc) (kmd_versions kmd) \<lparr>kz_heap = h, kz_metadata = kmd, kz_keys = [], kz_primary = None,
       kz_default_size = default_size (kmd_type kmd)\<rparr> = Inr kz"
    by (rule Keyczar_init_cases)
  have "kmd_versions kmd = []"
    using load_keys_dict [OF l kmd_versions_distinct [OF KeyMetadata_Read_ok [OF m(2)]]] assms(2)
    by (simp add: kz_versions_def)
  then show ?thesis using m l assms(1,3)
    by (cases crypter)
       (simp, simp add: generic_crypter_read Keyczar_init_def with_crypter_def EncryptedReader_def FileReader_def)
qed

lemma run_op_complete:
  assumes "kz_complete kz"
  shows "kz_complete (snd (run_op p kz))"
proof -
  have "kz_inv kz" using assms by (simp add: kz_complete_def)
  then have "kz_inv (snd (run_op p kz))" by (rule run_op_inv)
  moreover have "kmd_type (kz_metadata (snd (run_op p kz))) = kmd_type (kz_metadata kz)"
    by (cases p) (auto simp: Promote_def Demote_def Revoke_def kmd_RemoveVersion_def kz_set_status_def Let_def
        split: sum.split key_status.split option.split)
  moreover have "kz_keys (snd (run_op p kz)) = kz_keys kz" by (rule run_op_keys)
  ultimately show ?thesis
    using assms by (simp add: kz_complete_def types_ok_def hash_ok_def)
qed

lemma change_on_disk:
  assumes mock: "w_mock w = None" and dir: "loc \<in> set (fs_dirs (w_fs w))" and o: "loc_open (w_fs w) loc"
    and rd: "GenericKeyczar_Read (w_fs w) loc = Inr kz" and c: "kz_complete kz"
    and m: "oper n = run_op p" and n: "0 \<le> n"
  shows "case spec_op p (kz_statuses kz) of
       None \<Rightarrow> \<exists>e. is_keyczar_error e \<and> change_version L oper (Some loc) n w = Some (Inl e, w)
     | Some M \<Rightarrow> \<exists>w' kz'. change_version L oper (Some loc) n w = Some (Inr (), w')
         \<and> GenericKeyczar_Read (w_fs w') loc = Inr kz' \<and> kz_statuses kz' = M"
proof -
  have inv: "kz_inv kz" using c by (simp add: kz_complete_def)
  obtain x kz1 where r: "run_op p kz = (x, kz1)" by (metis prod.collapse)
  have start: "change_version L oper (Some loc) n w =
      (case x of Inl e \<Rightarrow> Some (Inl e, w) | Inr u \<Rightarrow> UpdateGenericKeyczar L kz1 (Some loc) None w)"
    using mock rd n r m
    by (auto simp: change_version_def CreateGenericKeyczar_def prog_defs with_crypter_def GenericKeyczar_Read_def
        split: sum.split)
  have impl: "implements (x, kz1) kz (spec_op p (kz_statuses kz))" using run_op_refines [OF inv, of p] r by simp
  show ?thesis
  proof (cases x)
    case (Inl e)
    then show ?thesis using impl start by (simp add: implements_def)
  next
    case (Inr u)
    have "kz_complete kz1" using run_op_complete [OF c, of p] r by simp
    from update_on_disk [OF mock dir this o, of L] show ?thesis
      using Inr impl start by (simp add: implements_def)
  qed
qed

subsection \<open>Revoking on disk\<close>

text \<open>The file of every version is there after a write.\<close>

lemma WriteKey_files:
  assumes "FileWriter_WriteKey loc k n encrypter (f, ent) = (Inr (), f', ent')"
  shows "fst ` set (fs_files f') = insert (path_join loc (str_int n)) (fst ` set (fs_files f))"
proof -
  have "WriteFile d p f = (Inr (), f') \<Longrightarrow> fst ` set (fs_files f') = insert p (fst ` set (fs_files f))" for d p
    by (clarsimp simp: WriteFile_def dom_update split: if_splits)
  with assms show ?thesis
    by (auto simp: FileWriter_WriteKey_def split: sum.splits prod.splits option.splits)
qed

lemma write_keys_files:
  assumes "write_keys kz loc encrypter vs (f, ent) = (Inr (), f', ent')"
  shows "fst ` set (fs_files f) \<subseteq> fst ` set (fs_files f')"
    and "v \<in> set vs \<Longrightarrow> path_join loc (str_int (version_number (kz_heap kz ! v))) \<in> fst ` set (fs_files f')"
proof -
  have "fst ` set (fs_files f) \<subseteq> fst ` set (fs_files f') \<and>
      (\<forall>v \<in> set vs. path_join loc (str_int (version_number (kz_heap kz ! v))) \<in> fst ` set (fs_files f'))"
    using assms
  proof (induction vs arbitrary: f ent)
    case (Cons v vs)
    obtain k f1 ent1 where 1: "FileWriter_WriteKey loc k (version_number (kz_heap kz ! v)) encrypter (f, ent) = (Inr (), f1, ent1)"
      "write_keys kz loc encrypter vs (f1, ent1) = (Inr (), f', ent')"
      using Cons.prems by (auto simp: sbind_def slift_def split: sum.splits prod.splits)
    from Cons.IH [OF 1(2)] WriteKey_files [OF 1(1)] show ?case by auto
  qed (simp add: sret_def)
  then show "fst ` set (fs_files f) \<subseteq> fst ` set (fs_files f')"
    and "v \<in> set vs \<Longrightarrow> path_join loc (str_int (version_number (kz_heap kz ! v))) \<in> fst ` set (fs_files f')"
    by blast+
qed

lemma update_files:
  assumes u: "UpdateGenericKeyczar L kz (Some loc) None w = Some (Inr (), w')" and mock: "w_mock w = None"
    and v: "v \<in> set (kz_versions kz)"
  shows "path_join loc (str_int (version_number (kz_heap kz ! v))) \<in> fst ` set (fs_files (w_fs w'))"
    and "w_mock w' = None" and "fs_dirs (w_fs w') = fs_dirs (w_fs w)"
proof -
  let ?kz = "kz\<lparr>kz_metadata := (kz_metadata kz)\<lparr>encrypted := False\<rparr>\<rparr>"
  obtain kz1 f ent where k: "Keyczar_Write (WriterAt loc) None (kz, w_fs w, w_ent w) = (Inr (), kz1, f, ent)"
    "w' = w\<lparr>w_fs := f, w_ent := ent\<rparr>"
    using u mock by (auto simp: UpdateGenericKeyczar_def prog_defs CreateWriter_def FileWriter_CreateWriter_def
        split: sum.splits prod.splits if_splits)
  then obtain f1 where "write_keys ?kz loc None (kz_versions ?kz) (f1, w_ent w) = (Inr (), f, ent)"
    by (auto simp: Keyczar_Write_def Let_def split: sum.splits prod.splits)
  from write_keys_files(2) [OF this, of v] v k(2)
  show "path_join loc (str_int (version_number (kz_heap kz ! v))) \<in> fst ` set (fs_files (w_fs w'))"
    by (simp add: kz_versions_def)
  show "w_mock w' = None" "fs_dirs (w_fs w') = fs_dirs (w_fs w)"
    using k Write_dirs [OF k(1)] mock by simp_all
qed

text \<open>Loading reads the files of the versions in the metadata and no others.\<close>

lemma load_keys_cong:
  "\<forall>r \<in> set rs. rd_GetKey rd' (version_number (kz_heap kz ! r)) = rd_GetKey rd (version_number (kz_heap kz ! r))
     \<Longrightarrow> load_keys rd' rs kz = load_keys rd rs kz"
proof (induction rs arbitrary: kz)
  case (Cons r rs)
  have "load_keys rd' rs (kz\<lparr>kz_primary := p, kz_keys := ks\<rparr>) = load_keys rd rs (kz\<lparr>kz_primary := p, kz_keys := ks\<rparr>)"
    for p ks using Cons by simp
  moreover have "load_keys rd' rs (kz\<lparr>kz_keys := ks\<rparr>) = load_keys rd rs (kz\<lparr>kz_keys := ks\<rparr>)" for ks
    using Cons by simp
  ultimately show ?case using Cons.prems by (auto simp: ebind_def split: sum.split)
qed simp

lemma init_drop_key:
  assumes i: "Keyczar_init acc (FileReader f loc) = Inr kz" and d: "FileWriter_Remove loc n f = (Inr (), f')"
    and n: "kz_statuses kz n = None"
  shows "Keyczar_init acc (FileReader f' loc) = Inr kz"
proof -
  obtain tx kmd h where m: "rd_GetMetadata (FileReader f loc) = Inr tx" "KeyMetadata_Read tx [] = (Inr kmd, h)"
    "acc (purpose kmd)" "encrypted kmd \<longrightarrow> rd_encrypted (FileReader f loc)" and
    l: "load_keys (FileReader f loc) (kmd_versions kmd) \<lparr>kz_heap = h, kz_metadata = kmd, kz_keys = [], kz_primary = None,
       kz_default_size = default_size (kmd_type kmd)\<rparr> = Inr kz"
    using i by (rule Keyczar_init_cases)
  have fr: "kz_heap kz = h" "kz_metadata kz = kmd" using load_keys_frame [OF l] by simp_all
  have "kmd_ok h kmd" using KeyMetadata_Read_ok [OF m(2)] .
  then have "version_number (h ! r) \<noteq> n" if r: "r \<in> set (kmd_versions kmd)" for r
    using n fr r by (auto simp: kz_statuses_def kmd_find_map kmd_ok_def kmd_versions_def map_of_eq_None_iff image_iff)
       (metis (mono_tags, lifting) case_prod_conv fst_conv)
  then have "load_keys (FileReader f' loc) (kmd_versions kmd) kz0 = load_keys (FileReader f loc) (kmd_versions kmd) kz0"
    if "kz_heap kz0 = h" for kz0
    using that files.key_drop [OF d] by (intro load_keys_cong) simp
  then show ?thesis
    using m l files.meta_drop [OF d] by (simp add: Keyczar_init_def) (simp add: FileReader_def)
qed

lemma revoke_on_disk:
  assumes mock: "w_mock w = None" and dir: "loc \<in> set (fs_dirs (w_fs w))" and o: "loc_open (w_fs w) loc"
    and rd: "GenericKeyczar_Read (w_fs w) loc = Inr kz" and c: "kz_complete kz" and n: "0 \<le> n"
    and i: "kz_statuses kz n = Some INACTIVE"
  shows "\<exists>w' kz'. Revoke_cmd L (Some loc) n w = Some (Inr (), w')
    \<and> GenericKeyczar_Read (w_fs w') loc = Inr kz' \<and> kz_statuses kz' = (kz_statuses kz)(n := None)
    \<and> path_join loc (str_int n) \<notin> fst ` set (fs_files (w_fs w'))"
proof -
  have spec: "spec_op (OpRevoke n) (kz_statuses kz) = Some ((kz_statuses kz)(n := None))"
    using i by (simp add: spec_revoke_def)
  have inv: "kz_inv kz" using c by (simp add: kz_complete_def)
  obtain r where r: "kmd_GetVersion n (kz_metadata kz) = Inr r" "status (kz_heap kz ! r) = INACTIVE"
    using i by (auto simp: kz_statuses_def find_GetVersion split: sum.splits)
  from change_on_disk [OF mock dir o rd c _ n, of Revoke "OpRevoke n" L] obtain w1 kz1 where
    1: "change_version L Revoke (Some loc) n w = Some (Inr (), w1)" "GenericKeyczar_Read (w_fs w1) loc = Inr kz1"
      "kz_statuses kz1 = (kz_statuses kz)(n := None)"
    using spec by auto
  obtain kz2 where k2: "Revoke n kz = (Inr (), kz2)" "UpdateGenericKeyczar L kz2 (Some loc) None w = Some (Inr (), w1)"
    using 1(1) mock rd n
    by (auto simp: change_version_def CreateGenericKeyczar_def prog_defs with_crypter_def GenericKeyczar_Read_def
        split: sum.splits prod.splits if_splits)
  have fr: "kz_versions kz2 = kz_versions kz" "kz_heap kz2 = kz_heap kz"
    using k2(1) r by (auto simp: Revoke_def kz_versions_def split: prod.splits)
  have rv: "r \<in> set (kz_versions kz2)" "version_number (kz_heap kz2 ! r) = n"
    using metadata_ref [OF _ r(1), of "kz_heap kz"] inv fr by (auto simp: kz_inv_def dict_ok_def)
  note files' = update_files [OF k2(2) mock rv(1), unfolded rv(2)]
  obtain f' where rm: "FileWriter_Remove loc n (w_fs w1) = (Inr (), f')" and f': "fs_dirs f' = fs_dirs (w_fs w1)"
    and gone: "path_join loc (str_int n) \<notin> fst ` set (fs_files f')"
    using files'(1) by (simp add: FileWriter_Remove_def os_remove_def delete_notin_dom)
  have "GenericKeyczar_Read f' loc = Inr kz1"
    using 1(2) files'(3) dir f' init_drop_key [OF _ rm, of "\<lambda>p. True" kz1] 1(3) by (simp add: generic_read)
  moreover have "Revoke_cmd L (Some loc) n w = Some (Inr (), w1\<lparr>w_fs := f'\<rparr>)"
    using 1(1) files'(2,3) dir rm
    by (simp add: Revoke_cmd_def prog_defs CreateWriter_def FileWriter_CreateWriter_def path_exists_def)
  ultimately show ?thesis using 1(3) gone by fastforce
qed

subsection \<open>Refusals\<close>

lemma encrypted_refused:
  assumes mock: "w_mock w = None" and dir: "path_exists (w_fs w) loc"
    and m: "ReadFile (w_fs w) (path_join loc ''meta'') = Inr s" "KeyMetadata_Read s [] = (Inr kmd, h)" "encrypted kmd"
  shows "change_version L oper (Some loc) n w = Some (Inl (KeyczarError ''Need encrypted reader.''), w)"
  using assms
  by (simp add: change_version_def CreateGenericKeyczar_def prog_defs with_crypter_def CreateReader_def
      reader_classes_def FileReader_CreateReader_def Keyczar_init_def FileReader_def)

lemma Create_no_overwrite:
  assumes mock: "w_mock w = None" and dir: "path_exists (w_fs w) loc"
    and p: "p \<in> {Some SIGN_AND_VERIFY, Some DECRYPT_AND_ENCRYPT}"
    and m: "path_exists (w_fs w) (path_join loc ''meta'')"
  shows "Create (Some loc) name p asymmetric w =
    Some (Inl (KeyczarError (''File:'' @ path_join loc ''meta'' @ '' already exists'')), w)"
  using assms
  by (auto simp: Create_def metadata_for_def prog_defs CreateWriter_def FileWriter_CreateWriter_def
      WriteMetadata_no_overwrite)

text \<open>
  A version that is not a number: the message and the usage are printed and the program goes on, to
  read a variable that was never bound.
\<close>

lemma bad_version:
  assumes v: "map_of fl F_VERSION = Some s" "py_int s = Inl e" and c: "cmd \<in> {PROMOTE, DEMOTE, REVOKE}"
  shows "pbind (number_flags fl) (\<lambda>(version, sz). run_command L cmd fl version sz) w =
    Some (Inl PyUnboundLocalError, w\<lparr>w_out := w_out w @ [''Size and version flags require an integer'',
      join_with [CHR 0x0A] usage_lines]\<rparr>)"
  using assms
  by (auto simp: number_flags_def int_flag_def prog_defs Usage_def run_command_def local_def Let_def)

text \<open>The same for the whole command line.\<close>

lemma main_bad_version:
  assumes "parse_flags argv [] w = Some (Inr fl, w1)" and "hd argv \<in> {''promote'', ''demote'', ''revoke''}" and "argv \<noteq> []"
    and "map_of fl F_VERSION = Some s" and "py_int s = Inl e"
  shows "main L argv w = Some (Inl PyUnboundLocalError, w1\<lparr>w_out := w_out w1 @
    [''Size and version flags require an integer'', join_with [CHR 0x0A] usage_lines]\<rparr>)"
proof -
  obtain a as where a: "argv = a # as" using assms(3) by (cases argv) auto
  obtain cmd where c: "GetCommand a = Inr cmd" "cmd \<in> {PROMOTE, DEMOTE, REVOKE}"
    using assms(2) a by (auto simp: GetCommand_def commands_def)
  show ?thesis using bad_version [OF assms(4,5) c(2), of L w1] assms(1) c(1) a by (simp add: main_def pbind_def plift_def)
qed

end
