(* ===== verification/PublicSpec.thy ===== *)
theory PublicSpec
  imports KeyczartSpec
begin

text \<open>
  What \<open>PublicKeyExport\<close> and \<open>keyczart pubkey\<close> promise: the destination holds a key set of the public
  keys under the numbers and statuses of the private ones, and verifies what the private set signs.
\<close>

subsection \<open>The public key of a key\<close>

lemma key_public_exists: "key_type_of k \<in> {DSA_PRIV, RSA_PRIV} \<Longrightarrow> \<exists>p. key_public k = Inr p"
  by (cases k) simp_all

lemma key_public_facts:
  assumes "key_public k = Inr p" and "key_ok k"
  shows "key_ok p" and "key_hash_id p = key_hash_id k"
    and "key_type_of p = (if key_type_of k = DSA_PRIV then DSA_PUB else RSA_PUB)"
  using assms
  by (cases k; auto simp: rsa_priv_ok_def dsa_priv_ok_def rsa_priv_Hash_def dsa_priv_Hash_def)+

lemma public_metadata_facts:
  assumes "public_metadata m = Some pm"
  shows "kmd_type m \<in> {DSA_PRIV, RSA_PRIV}" and "kmd_type pm = (if kmd_type m = DSA_PRIV then DSA_PUB else RSA_PUB)"
    and "version_dict pm = []" and "\<not> encrypted pm" and "kmd_name pm = kmd_name m"
    and "purpose pm = (if purpose m = SIGN_AND_VERIFY then VERIFY else ENCRYPT)"
  using assms by (auto simp: public_metadata_def KeyMetadata_init_def split: if_splits)

subsection \<open>The loop over the versions\<close>

definition add_versions :: "store \<Rightarrow> nat list \<Rightarrow> key_metadata \<Rightarrow> key_metadata" where
  "add_versions h rs = fold (\<lambda>r m. snd (kmd_AddVersion h r m)) rs"

lemma add_versions_dict:
  assumes "distinct (map (\<lambda>r. version_number (h ! r)) rs)"
    and "(\<lambda>r. version_number (h ! r)) ` set rs \<inter> fst ` set (version_dict m) = {}"
  shows "add_versions h rs m = m\<lparr>version_dict := version_dict m @ map (\<lambda>r. (version_number (h ! r), r)) rs\<rparr>"
  using assms
proof (induction rs arbitrary: m)
  case (Cons r rs)
  let ?m = "m\<lparr>version_dict := version_dict m @ [(version_number (h ! r), r)]\<rparr>"
  have "snd (kmd_AddVersion h r m) = ?m" using Cons.prems(2) by (simp add: kmd_AddVersion_def Let_def)
  moreover have "add_versions h rs ?m = ?m\<lparr>version_dict := version_dict ?m @ map (\<lambda>r. (version_number (h ! r), r)) rs\<rparr>"
    using Cons.prems by (intro Cons.IH) auto
  ultimately show ?case by (simp add: add_versions_def)
qed (simp add: add_versions_def)

definition emit_file :: "string \<Rightarrow> int \<Rightarrow> key \<Rightarrow> (fs, exn, unit) st" where
  "emit_file dest n pubkey = sbind (slift (key_str pubkey)) (\<lambda>s. WriteFile s (path_join dest (str_int n)))"

lemma export_versions_ok:
  assumes "loc_open f dest" and "distinct (map (\<lambda>r. version_number (kz_heap kz ! r)) rs)"
    and "\<forall>r \<in> set rs. ebind (GetKey kz (VersionId r)) key_public = Inr (p r) \<and> key_str (p r) = Inr (s r)"
  shows "\<exists>f'. export_versions (emit_file dest) kz rs m f = (Inr (add_versions (kz_heap kz) rs m), f')
    \<and> loc_open f' dest \<and> fs_dirs f' = fs_dirs f
    \<and> (\<forall>r \<in> set rs. rd_GetKey (FileReader f' dest) (version_number (kz_heap kz ! r)) = Inr (s r))
    \<and> (\<forall>n. n \<notin> (\<lambda>r. version_number (kz_heap kz ! r)) ` set rs \<longrightarrow>
         rd_GetKey (FileReader f' dest) n = rd_GetKey (FileReader f dest) n)"
  using assms
proof (induction rs arbitrary: f m)
  case (Cons r rs)
  let ?n = "version_number (kz_heap kz ! r)" and ?m = "snd (kmd_AddVersion (kz_heap kz) r m)"
  obtain f1 where f1: "WriteFile (s r) (path_join dest (str_int ?n)) f = (Inr (), f1)"
      "fs_opens f1 = fs_opens f" "fs_dirs f1 = fs_dirs f"
    using Cons.prems(1) WriteFile_ok [of f "path_join dest (str_int ?n)" "s r"] by (auto simp: loc_open_def)
  have open1: "loc_open f1 dest" using Cons.prems(1) f1 by (simp add: loc_open_def)
  have read1: "rd_GetKey (FileReader f1 dest) n = (if n = ?n then Inr (s r) else rd_GetKey (FileReader f dest) n)" for n
    by (rule files.key_put [OF f1(1)])
  have step: "export_versions (emit_file dest) kz (r # rs) m f = export_versions (emit_file dest) kz rs ?m f1"
    using Cons.prems(3) f1(1) by (simp add: sbind_def slift_def emit_file_def)
  obtain f' where i: "export_versions (emit_file dest) kz rs ?m f1 = (Inr (add_versions (kz_heap kz) rs ?m), f')"
    "loc_open f' dest" "fs_dirs f' = fs_dirs f1"
    "\<forall>q \<in> set rs. rd_GetKey (FileReader f' dest) (version_number (kz_heap kz ! q)) = Inr (s q)"
    "\<forall>n. n \<notin> (\<lambda>r. version_number (kz_heap kz ! r)) ` set rs \<longrightarrow>
       rd_GetKey (FileReader f' dest) n = rd_GetKey (FileReader f1 dest) n"
    using Cons.IH [OF open1, of ?m] Cons.prems(2,3) by auto
  have "?n \<notin> (\<lambda>r. version_number (kz_heap kz ! r)) ` set rs" using Cons.prems(2) by simp
  then have "rd_GetKey (FileReader f' dest) ?n = Inr (s r)" using i(5) read1 by simp
  then show ?case unfolding step using i f1(3) read1 by (intro exI [of _ f']) (simp add: add_versions_def)
qed (simp add: sret_def add_versions_def)

subsection \<open>The exported key set\<close>

lemma kmd_find_same:
  assumes "kmd_ok h m" and "kmd_ok h m'" and "set (kmd_versions m') = set (kmd_versions m)"
  shows "kmd_find n m' = kmd_find n m"
proof -
  have *: "kmd_find n b = Some r" if "kmd_find n a = Some r" "kmd_ok h a" "kmd_ok h b"
    "set (kmd_versions a) = set (kmd_versions b)" for a b r
  proof -
    have "r \<in> set (kmd_versions a)" "version_number (h ! r) = n"
      using that(1) metadata_ref [OF that(2)] by (auto simp: find_GetVersion split: sum.splits)
    then show ?thesis using kmd_find_ref [OF that(3)] that(4) by metis
  qed
  show ?thesis
  proof (cases "kmd_find n m")
    case (Some r)
    then show ?thesis using * assms by metis
  next
    case None
    then show ?thesis using * [of m' _ m] assms by (metis not_None_eq)
  qed
qed

lemma GetKey_in_versions: "GetKey kz (VersionId r) = Inr k \<Longrightarrow> r \<in> set (kz_versions kz)"
  by (force simp: GetKey_def set_kz_versions dest: map_of_SomeD split: option.splits)

lemma hash_okD: "hash_ok kz \<Longrightarrow> GetKey kz (VersionId r) = Inr k \<Longrightarrow> key_hash_id k = Inr h \<Longrightarrow>
    map_of (kz_keys kz) (HashId h) = Some k"
  by (force simp: hash_ok_def GetKey_def split: option.splits)

text \<open>
  The key set \<open>pub\<close> is the public part of \<open>kz\<close>: the same numbers and statuses, the public key of
  each key under its number, and under each hash identifier of a private key its public key.
\<close>

definition public_part :: "keyczar \<Rightarrow> keyczar \<Rightarrow> bool" where
  "public_part kz pub \<longleftrightarrow> kz_statuses pub = kz_statuses kz
     \<and> (\<forall>n r. kmd_find n (kz_metadata kz) = Some r \<longrightarrow> (\<exists>q. kmd_find n (kz_metadata pub) = Some q
          \<and> GetKey pub (VersionId q) = ebind (GetKey kz (VersionId r)) key_public))
     \<and> (\<forall>r k h. GetKey kz (VersionId r) = Inr k \<longrightarrow> key_hash_id k = Inr h \<longrightarrow>
          (\<exists>p. key_public k = Inr p \<and> map_of (kz_keys pub) (HashId h) = Some p))"

lemma PublicKeyExport_load:
  assumes c: "kz_complete kz" and all: "set (kz_versions kz) = set (kmd_versions (kz_metadata kz))"
    and pm: "public_metadata (kz_metadata kz) = Some pm" and o: "loc_open f dest"
  obtains f' pub where "PublicKeyExport kz dest f = (Inr (), f')" "fs_dirs f' = fs_dirs f"
    "\<forall>acc. acc (purpose pm) \<longrightarrow> Keyczar_init acc (FileReader f' dest) = Inr pub"
    "public_part kz pub" "kmd_type (kz_metadata pub) = kmd_type pm" "purpose (kz_metadata pub) = purpose pm"
proof -
  let ?h = "kz_heap kz" and ?rs = "kz_versions kz" and ?num = "\<lambda>r. version_number (kz_heap kz ! r)"
  have inv: "kmd_ok ?h (kz_metadata kz)" "dict_ok kz" "primary_ok kz" "types_ok kz" "hash_ok kz"
    and oks: "\<forall>(i, k) \<in> set (kz_keys kz). key_ok k"
    using c by (simp_all add: kz_complete_def kz_inv_def)
  have dist: "distinct (map ?num ?rs)" using inv(2) by (simp only: dict_ok_def)
  define m where "m = add_versions ?h ?rs pm"
  note pmf = public_metadata_facts [OF pm]
  have m: "m = pm\<lparr>version_dict := map (\<lambda>r. (?num r, r)) ?rs\<rparr>"
    unfolding m_def by (subst add_versions_dict) (use dist pmf(3) in simp_all)
  have mv: "kmd_versions m = ?rs" by (simp add: m kmd_versions_def comp_def)
  have mok: "kmd_ok ?h m"
    using dist all metadata_refs_valid [OF inv(1)] by (auto simp: kmd_ok_def m comp_def)
  have find: "kmd_find n m = kmd_find n (kz_metadata kz)" for n
    by (rule kmd_find_same [OF inv(1) mok]) (simp add: mv all)
  have "\<exists>k p s h. GetKey kz (VersionId r) = Inr k \<and> key_public k = Inr p \<and> key_str p = Inr s
      \<and> ReadKey (kmd_type m) s = Inr p \<and> key_hash_id p = Inr h \<and> key_hash_id k = Inr h" if r: "r \<in> set ?rs" for r
  proof -
    obtain k s h where k: "GetKey kz (VersionId r) = Inr k" "key_hash_id k = Inr h"
      using GetKey_complete [OF c r] by metis
    then have "(VersionId r, k) \<in> set (kz_keys kz)" by (auto simp: GetKey_def map_of_SomeD split: option.splits)
    then have kk: "key_ok k" "key_type_of k = kmd_type (kz_metadata kz)" using oks inv(4) by (auto simp: types_ok_def)
    then obtain p where p: "key_public k = Inr p" using key_public_exists pmf(1) by metis
    note pf = key_public_facts [OF p kk(1)]
    have "key_type_of p = kmd_type m" using pf(3) pmf(2) kk(2) by (simp add: m)
    then show ?thesis using ReadKey_str [OF pf(1)] k p pf(2) by (auto simp: ebind_Inr_conv)
  qed
  then obtain k p s hh where ks: "\<And>r. r \<in> set ?rs \<Longrightarrow> GetKey kz (VersionId r) = Inr (k r) \<and> key_public (k r) = Inr (p r)
      \<and> key_str (p r) = Inr (s r) \<and> ReadKey (kmd_type m) (s r) = Inr (p r) \<and> key_hash_id (p r) = Inr (hh r)
      \<and> key_hash_id (k r) = Inr (hh r)" by metis
  obtain f1 where f1: "export_versions (emit_file dest) kz ?rs pm f = (Inr m, f1)" "loc_open f1 dest"
    "fs_dirs f1 = fs_dirs f" "\<forall>r \<in> set ?rs. rd_GetKey (FileReader f1 dest) (?num r) = Inr (s r)"
    using export_versions_ok [OF o dist, of p s pm] ks unfolding m_def by auto
  obtain ms where ms: "KeyMetadata_str ?h m = Inr ms" using KeyMetadata_Read_str [OF mok, of "[]"] by blast
  obtain f' where f': "WriteFile ms (path_join dest ''meta'') f1 = (Inr (), f')" "fs_dirs f' = fs_dirs f1"
    using f1(2) WriteFile_ok [of f1 "path_join dest ''meta''" ms] by (auto simp: loc_open_def)
  have wm: "FileWriter_WriteMetadata dest (Inr ms) True f1 = (Inr (), f')"
    using f'(1) by (simp add: FileWriter_WriteMetadata_def st_defs Let_def)
  have meta: "rd_GetMetadata (FileReader f' dest) = KeyMetadata_str ?h m"
    using files.meta_put [OF wm] ms by simp
  have keys: "\<forall>r \<in> set (kmd_versions m). rd_GetKey (FileReader f' dest) (?num r) = Inr (s r)
      \<and> ReadKey (kmd_type m) (s r) = Inr (p r) \<and> key_hash_id (p r) = Inr (hh r)"
    using f1(4) files.key_put_meta [OF wm] ks mv by auto
  have one: "\<forall>r \<in> set (kmd_versions m). \<forall>q \<in> set (kmd_versions m). status (?h ! r) = PRIMARY \<longrightarrow>
      status (?h ! q) = PRIMARY \<longrightarrow> r = q"
    using primary_okD(1) [OF inv(3)] unfolding mv all by (metis option.inject)
  obtain pub where pub: "\<And>acc. acc (purpose m) \<Longrightarrow> Keyczar_init acc (FileReader f' dest) = Inr pub"
    "kmd_view (kz_heap pub) (kz_metadata pub) = kmd_view ?h m"
    "\<And>n r. kmd_find n m = Some r \<Longrightarrow> \<exists>q. kmd_find n (kz_metadata pub) = Some q
        \<and> kz_heap pub ! q = ?h ! r \<and> GetKey pub (VersionId q) = Inr (p r)"
    "\<And>r. r \<in> set (kmd_versions m) \<Longrightarrow>
        \<exists>q \<in> set (kmd_versions m). hh q = hh r \<and> map_of (kz_keys pub) (HashId (hh r)) = Some (p q)"
    using load_reader [OF mok meta keys one] pmf(4) m by auto
  have i: "Keyczar_init (\<lambda>p. True) (FileReader f' dest) = Inr pub" by (rule pub(1)) simp
  show ?thesis
  proof (rule that [of f' pub])
    show "PublicKeyExport kz dest f = (Inr (), f')"
      using f1(1) f'(1) ms by (simp add: PublicKeyExport_def pm emit_file_def [abs_def] sbind_def slift_def)
    show "fs_dirs f' = fs_dirs f" using f1(3) f'(2) by simp
    show "\<forall>acc. acc (purpose pm) \<longrightarrow> Keyczar_init acc (FileReader f' dest) = Inr pub"
      using pub(1) by (simp add: m)
    have "kz_statuses pub = kz_statuses (kz\<lparr>kz_metadata := m\<rparr>)"
      using pub(2) mok Keyczar_init_inv(1) [OF i] by (intro view_statuses) (simp_all add: kmd_view_def kz_inv_def)
    then have "kz_statuses pub = kz_statuses kz" by (simp add: kz_statuses_def find fun_eq_iff)
    have keys: "\<exists>q. kmd_find n (kz_metadata pub) = Some q \<and> GetKey pub (VersionId q) = ebind (GetKey kz (VersionId r)) key_public"
      if f: "kmd_find n (kz_metadata kz) = Some r" for n r
    proof -
      have "r \<in> set ?rs" using f metadata_ref [OF inv(1)] all by (auto simp: find_GetVersion split: sum.splits)
      then show ?thesis using pub(3) [of n r] f ks find by fastforce
    qed
    have "\<exists>p. key_public k' = Inr p \<and> map_of (kz_keys pub) (HashId h) = Some p"
      if g: "GetKey kz (VersionId r) = Inr k'" "key_hash_id k' = Inr h" for r k' h
    proof -
      have r: "r \<in> set ?rs" by (rule GetKey_in_versions [OF g(1)])
      obtain q where q: "q \<in> set ?rs" "hh q = hh r" "map_of (kz_keys pub) (HashId (hh r)) = Some (p q)"
        using pub(4) [of r] r unfolding mv by blast
      have eq: "k' = k r" "h = hh r" using r g ks by auto
      have held: "map_of (kz_keys kz) (HashId (hh a)) = Some (k a)" if "a \<in> set ?rs" for a
        using hash_okD [OF inv(5)] ks [OF that] by blast
      have "k q = k r" using held [OF q(1)] held [OF r] q(2) by simp
      then show ?thesis using q ks r eq by fastforce
    qed
    with keys \<open>kz_statuses pub = kz_statuses kz\<close> show "public_part kz pub" by (simp add: public_part_def)
    show "kmd_type (kz_metadata pub) = kmd_type pm" "purpose (kz_metadata pub) = purpose pm"
      using pub(2) by (simp_all add: kmd_view_def m)
  qed
qed

subsection \<open>Exporting on disk\<close>

lemma loaded_versions:
  assumes "Keyczar_init acc rd = Inr kz"
  shows "kz_versions kz = kmd_versions (kz_metadata kz)"
proof -
  obtain tx kmd h where m: "KeyMetadata_Read tx [] = (Inr kmd, h)"
    and l: "load_keys rd (kmd_versions kmd) \<lparr>kz_heap = h, kz_metadata = kmd, kz_keys = [], kz_primary = None,
       kz_default_size = default_size (kmd_type kmd)\<rparr> = Inr kz"
    using assms by (rule Keyczar_init_cases)
  show ?thesis
    using load_keys_dict [OF l kmd_versions_distinct [OF KeyMetadata_Read_ok [OF m]]] load_keys_frame [OF l]
    by (simp add: kz_versions_def)
qed

lemma verifier_read: "loc \<in> set (fs_dirs f) \<Longrightarrow>
    Verifier_Read f loc = Keyczar_init Verifier_acceptable (FileReader f loc)"
  by (simp add: Verifier_Read_def CreateReader_def reader_classes_def FileReader_CreateReader_def path_exists_def)

lemma pubkey_on_disk:
  assumes mock: "w_mock w = None" and rd: "GenericKeyczar_Read (w_fs w) loc = Inr kz" and c: "kz_complete kz"
    and pm: "public_metadata (kz_metadata kz) = Some pm"
    and o: "loc_open (w_fs w) dest" and dir: "dest \<in> set (fs_dirs (w_fs w))"
  obtains w' pub where "PubKey_cmd L (Some loc) (Some dest) w = Some (Inr (), w')"
    "GenericKeyczar_Read (w_fs w') dest = Inr pub"
    "purpose pm = VERIFY \<Longrightarrow> Verifier_Read (w_fs w') dest = Inr pub"
    "public_part kz pub" "kmd_type (kz_metadata pub) = kmd_type pm" "purpose (kz_metadata pub) = purpose pm"
proof -
  have all: "set (kz_versions kz) = set (kmd_versions (kz_metadata kz))"
    using rd loaded_versions by (auto simp: GenericKeyczar_Read_def ebind_Inr_conv)
  obtain f' pub where e: "PublicKeyExport kz dest (w_fs w) = (Inr (), f')" "fs_dirs f' = fs_dirs (w_fs w)"
    "\<forall>acc. acc (purpose pm) \<longrightarrow> Keyczar_init acc (FileReader f' dest) = Inr pub"
    "public_part kz pub" "kmd_type (kz_metadata pub) = kmd_type pm" "purpose (kz_metadata pub) = purpose pm"
    by (rule PublicKeyExport_load [OF c all pm o])
  show ?thesis
  proof (rule that [of "w\<lparr>w_fs := f'\<rparr>" pub])
    show "PubKey_cmd L (Some loc) (Some dest) w = Some (Inr (), w\<lparr>w_fs := f'\<rparr>)"
      using mock rd e(1) by (simp add: PubKey_cmd_def CreateGenericKeyczar_def prog_defs with_crypter_def GenericKeyczar_Read_def)
    show "GenericKeyczar_Read (w_fs (w\<lparr>w_fs := f'\<rparr>)) dest = Inr pub" using dir e(2,3) by (simp add: generic_read)
    show "Verifier_Read (w_fs (w\<lparr>w_fs := f'\<rparr>)) dest = Inr pub" if "purpose pm = VERIFY"
      using dir e(2,3) that by (simp add: verifier_read Verifier_acceptable_def)
  qed (use e(4-6) in auto)
qed

lemma load_keys_NoneId: "load_keys rd rs kz = Inr kz' \<Longrightarrow> map_of (kz_keys kz') NoneId = map_of (kz_keys kz) NoneId"
proof (induction rs arbitrary: kz)
  case (Cons r rs)
  from Cons.prems show ?case by (rule load_keys_Cons) (use Cons.IH in \<open>fastforce simp: update_conv'\<close>)
qed simp

lemma loaded_primary:
  assumes rd: "GenericKeyczar_Read f loc = Inr kz" and p: "primary_key kz = Inr k"
  obtains v where "GetKey kz (VersionId v) = Inr k"
proof -
  obtain acc rd where i: "Keyczar_init acc rd = Inr kz"
    using rd by (auto simp: GenericKeyczar_Read_def ebind_Inr_conv)
  obtain kmd h where "load_keys rd (kmd_versions kmd) \<lparr>kz_heap = h, kz_metadata = kmd, kz_keys = [], kz_primary = None,
       kz_default_size = default_size (kmd_type kmd)\<rparr> = Inr kz"
    using i by (rule Keyczar_init_cases)
  from load_keys_NoneId [OF this] have "map_of (kz_keys kz) NoneId = None" by simp
  then obtain v where "kz_primary kz = Some v"
    using p by (auto simp: primary_key_def primary_id_def GetKey_def split: option.splits)
  with p that show ?thesis by (simp add: primary_key_def primary_id_def)
qed

text \<open>What the private key set signs, the exported one verifies.\<close>

lemma exported_verifies:
  assumes mock: "w_mock w = None" and rd: "GenericKeyczar_Read (w_fs w) loc = Inr kz" and c: "kz_complete kz"
    and pm: "public_metadata (kz_metadata kz) = Some pm" and p: "purpose (kz_metadata kz) = SIGN_AND_VERIFY"
    and o: "loc_open (w_fs w) dest" and dir: "dest \<in> set (fs_dirs (w_fs w))"
    and key: "primary_key kz = Inr prv" "key_public prv = Inr pub" and pair: "sign_pair L prv pub"
    and codec: "codec_pair encoder decoder" and sig: "Signer_Sign L kz data encoder r = (Inr sig, r')"
  shows "\<exists>w' kz'. PubKey_cmd L (Some loc) (Some dest) w = Some (Inr (), w') \<and> Verifier_Read (w_fs w') dest = Inr kz'
    \<and> Verifier_Verify L kz' data sig decoder = Inr True"
proof -
  obtain w' kz' where e: "PubKey_cmd L (Some loc) (Some dest) w = Some (Inr (), w')"
    "purpose pm = VERIFY \<Longrightarrow> Verifier_Read (w_fs w') dest = Inr kz'"
    and part: "public_part kz kz'"
    using pubkey_on_disk [OF mock rd c pm o dir, of L] by metis
  obtain v where v: "GetKey kz (VersionId v) = Inr prv"
    using rd key(1) by (rule loaded_primary)
  then obtain h where h: "key_hash_id prv = Inr h"
    using GetKey_complete [OF c GetKey_in_versions [OF v]] by (metis sum.inject(2))
  have "map_of (kz_keys kz') (HashId h) = Some pub" using part v h key(2) unfolding public_part_def by (metis sum.inject(2))
  from Verify_Sign [OF key(1) h this pair codec sig] show ?thesis
    using e public_metadata_facts(6) [OF pm] p by auto
qed

end
