(* ===== verification/Asn1.thy ===== *)
theory Asn1
  imports AsymmetricKeys
begin

text \<open>
  \<open>python/src/keyczar/util.py\<close>: the PKCS 8 and X.509 forms of RSA and DSA keys. The functions
  build and take apart values of pyasn1 (\<open>asn1\<close>, in \<open>CryptoLib\<close>), whose encoder and decoder are
  fields of \<open>crypto\<close>. A component of another kind than the code expects is outside the model. A
  dictionary of parameters is an association list.
\<close>

type_synonym params = "(string \<times> int) list"

definition RSA_OID :: "nat list" where "RSA_OID = [1, 2, 840, 113549, 1, 1, 1]"
definition RSA_PARAMS :: "string list" where
  "RSA_PARAMS = [''n'', ''e'', ''d'', ''p'', ''q'', ''dp'', ''dq'', ''invq'']"
definition DSA_OID :: "nat list" where "DSA_OID = [1, 2, 840, 10040, 4, 1]"
definition DSA_PARAMS :: "string list" where "DSA_PARAMS = [''p'', ''q'', ''g'']"

definition ASN1Sequence :: "asn1 list \<Rightarrow> asn1" where
  "ASN1Sequence vals = ASeq vals"

definition ParseASN1Sequence :: "asn1 \<Rightarrow> exn + asn1 list" where
  "ParseASN1Sequence sq = asn1_components sq"

fun asn1_octets :: "asn1 \<Rightarrow> exn + bytes" where
  "asn1_octets (AOctets s) = Inr s"
| "asn1_octets _ = Inl OutsideModel"

fun asn1_bits :: "asn1 \<Rightarrow> exn + string" where
  "asn1_bits (ABits b) = Inr b"
| "asn1_bits _ = Inl OutsideModel"

text \<open>Indexing and unpacking of lists, and look-up in the dictionary.\<close>

definition item :: "'a list \<Rightarrow> nat \<Rightarrow> exn + 'a" where
  "item xs i = (if i < length xs then Inr (xs ! i) else Inl PyIndexError)"

definition unpack_pair :: "'a list \<Rightarrow> exn + 'a \<times> 'a" where
  "unpack_pair xs = (case xs of [a, b] \<Rightarrow> Inr (a, b) | _ \<Rightarrow> Inl PyValueError)"

definition param :: "params \<Rightarrow> string \<Rightarrow> exn + int" where
  "param ps name = (case map_of ps name of Some n \<Rightarrow> Inr n | None \<Rightarrow> Inl PyKeyError)"

text \<open>The loop that reads the parameters with the given names from consecutive components.\<close>

fun read_params :: "string list \<Rightarrow> nat \<Rightarrow> asn1 list \<Rightarrow> exn + params" where
  "read_params [] i vs = Inr []"
| "read_params (name # names) i vs = ebind (ebind (item vs i) asn1_long) (\<lambda>n.
     ebind (read_params names (Suc i) vs) (\<lambda>ps. Inr ((name, n) # ps)))"

definition param_ints :: "params \<Rightarrow> string list \<Rightarrow> exn + asn1 list" where
  "param_ints ps names = emap (\<lambda>name. ebind (param ps name) (\<lambda>n. Inr (AInt n))) names"

definition ParsePkcs8 :: "crypto \<Rightarrow> string \<Rightarrow> exn + params" where
  "ParsePkcs8 L pkcs8 =
     ebind (ebind (ebind (Base64WSDecode pkcs8) (der_decode L)) ParseASN1Sequence) (\<lambda>sq.
     if length sq \<noteq> 3 then Inl (KeyczarError ''Illegal PKCS8 String.'')
     else ebind (asn1_long (sq ! 0)) (\<lambda>version.
     if version \<noteq> 0 then Inl (KeyczarError ''Unrecognized PKCS8 Version'')
     else ebind (ebind (ParseASN1Sequence (sq ! 1)) unpack_pair) (\<lambda>(oid, alg_params).
     ebind (ebind (asn1_octets (sq ! 2)) (der_decode L)) (\<lambda>key.
     if oid = AOid RSA_OID then
       ebind (ParseASN1Sequence key) (\<lambda>key'.
       ebind (ebind (item key' 0) asn1_long) (\<lambda>version'.
       if version' \<noteq> 0 then Inl (KeyczarError ''Unrecognized RSA Private Key Version'')
       else read_params RSA_PARAMS 1 key'))
     else if oid = AOid DSA_OID then
       ebind (ParseASN1Sequence alg_params) (\<lambda>alg.
       ebind (read_params DSA_PARAMS 0 alg) (\<lambda>ps.
       ebind (asn1_long key) (\<lambda>x. Inr (ps @ [(''x'', x)]))))
     else Inl (KeyczarError ''Unrecognized AlgorithmIdentifier: not RSA/DSA'')))))"

definition ExportRsaPkcs8 :: "crypto \<Rightarrow> params \<Rightarrow> exn + string" where
  "ExportRsaPkcs8 L ps =
     (let oid = ASN1Sequence [AOid RSA_OID, ANull] in
      ebind (param_ints ps RSA_PARAMS) (\<lambda>vs.
      ebind (der_encode L (ASeq (AInt 0 # vs))) (\<lambda>octkey.
      ebind (der_encode L (ASN1Sequence [AInt 0, oid, AOctets octkey])) (\<lambda>s. Inr (Base64WSEncode s)))))"

definition ExportDsaPkcs8 :: "crypto \<Rightarrow> params \<Rightarrow> exn + string" where
  "ExportDsaPkcs8 L ps =
     ebind (param_ints ps DSA_PARAMS) (\<lambda>vs.
     let oid = ASN1Sequence [AOid DSA_OID, ASeq vs] in
     ebind (ebind (param ps ''x'') (\<lambda>x. der_encode L (AInt x))) (\<lambda>octkey.
     ebind (der_encode L (ASN1Sequence [AInt 0, oid, AOctets octkey])) (\<lambda>s. Inr (Base64WSEncode s))))"

text \<open>\<open>pretty\<close> is pyasn1's \<open>prettyPrint\<close> of a bit string, from which the code cuts the bits.\<close>

definition pretty_law :: "(string \<Rightarrow> string) \<Rightarrow> bool" where
  "pretty_law pretty \<longleftrightarrow> (\<forall>b. \<exists>x1 x2 y1 y2 y3. pretty b = [x1, x2] @ b @ [y1, y2, y3])"

definition ParseX509 :: "crypto \<Rightarrow> (string \<Rightarrow> string) \<Rightarrow> string \<Rightarrow> exn + params" where
  "ParseX509 L pretty x509 =
     ebind (ebind (ebind (Base64WSDecode x509) (der_decode L)) ParseASN1Sequence) (\<lambda>sq.
     if length sq \<noteq> 2 then Inl (KeyczarError ''Illegal X.509 String.'')
     else ebind (ebind (ParseASN1Sequence (sq ! 0)) unpack_pair) (\<lambda>(oid, alg_params).
     ebind (ebind (ebind (asn1_bits (sq ! 1)) (\<lambda>b. BinToBytes (slice (pretty b) 2 (-3)))) (der_decode L)) (\<lambda>pubkey.
     if oid = AOid RSA_OID then
       ebind (ebind (ParseASN1Sequence pubkey) (emap asn1_long)) (\<lambda>ns.
       ebind (unpack_pair ns) (\<lambda>(n, e). Inr [(''n'', n), (''e'', e)]))
     else if oid = AOid DSA_OID then
       ebind (ebind (ParseASN1Sequence alg_params) (emap asn1_long)) (\<lambda>vals.
       ebind (read_params DSA_PARAMS 0 (map AInt vals)) (\<lambda>ps.
       ebind (asn1_long pubkey) (\<lambda>y. Inr (ps @ [(''y'', y)]))))
     else Inl (KeyczarError ''Unrecognized AlgorithmIdentifier: not RSA/DSA''))))"

definition ExportRsaX509 :: "crypto \<Rightarrow> params \<Rightarrow> exn + string" where
  "ExportRsaX509 L ps =
     (let oid = ASN1Sequence [AOid RSA_OID, ANull] in
      ebind (param_ints ps [''n'', ''e'']) (\<lambda>vs.
      ebind (der_encode L (ASN1Sequence vs)) (\<lambda>k.
      let pubkey = ABits (BytesToBin k) in
      ebind (der_encode L (ASN1Sequence [oid, pubkey])) (\<lambda>s. Inr (Base64WSEncode s)))))"

definition ExportDsaX509 :: "crypto \<Rightarrow> params \<Rightarrow> exn + string" where
  "ExportDsaX509 L ps =
     ebind (param_ints ps [''p'', ''q'', ''g'']) (\<lambda>vs.
     let alg_params = ASN1Sequence vs; oid = ASN1Sequence [AOid DSA_OID, alg_params] in
     ebind (ebind (param ps ''y'') (\<lambda>y. der_encode L (AInt y))) (\<lambda>k.
     let pubkey = ABits (BytesToBin k) in
     ebind (der_encode L (ASN1Sequence [oid, pubkey])) (\<lambda>s. Inr (Base64WSEncode s))))"

subsection \<open>Parsing inverts exporting\<close>

lemma oids_differ [simp]: "RSA_OID \<noteq> DSA_OID" "DSA_OID \<noteq> RSA_OID"
  by (simp_all add: RSA_OID_def DSA_OID_def)

lemma param_ints_Inr:
  "param_ints ps names = Inr vs \<longleftrightarrow> (\<exists>ns. vs = map AInt ns \<and> map (param ps) names = map Inr ns)"
proof (induction names arbitrary: vs)
  case Nil
  then show ?case by (auto simp: param_ints_def)
next
  case (Cons name names)
  then show ?case
    by (auto simp: param_ints_def ebind_Inr_conv Cons_eq_map_conv map_eq_Cons_conv)
qed

lemma read_params_zip:
  "length ns = length names \<Longrightarrow> i + length names \<le> length pre + length ns \<Longrightarrow> length pre = i \<Longrightarrow>
     read_params names i (pre @ map AInt ns) = Inr (zip names ns)"
proof (induction names arbitrary: i pre ns)
  case (Cons name names)
  then obtain m ms where ns: "ns = m # ms" by (cases ns) auto
  have "read_params names (Suc i) ((pre @ [AInt m]) @ map AInt ms) = Inr (zip names ms)"
    using Cons.prems ns by (intro Cons.IH) auto
  then show ?case using Cons.prems ns by (simp add: item_def nth_append)
qed simp

lemma der_decodeD: "der_laws L \<Longrightarrow> der_encode L v = Inr s \<Longrightarrow> der_decode L s = Inr v"
  by (simp add: der_laws_def)

text \<open>What comes back: the parameters of the format, with their values.\<close>

definition same_params :: "string list \<Rightarrow> params \<Rightarrow> params \<Rightarrow> bool" where
  "same_params names ps qs \<longleftrightarrow> map fst qs = names \<and> (\<forall>(name, n) \<in> set qs. map_of ps name = Some n)"

lemma param_map_of: "map (param ps) names = map Inr ns \<Longrightarrow>
    length ns = length names \<and> (\<forall>(name, n) \<in> set (zip names ns). map_of ps name = Some n)"
proof (induction names arbitrary: ns)
  case (Cons name names)
  then show ?case by (cases ns) (auto simp: param_def split: option.splits)
qed simp

lemma ParsePkcs8_ExportRsa:
  assumes "der_laws L" and "ExportRsaPkcs8 L ps = Inr s"
  shows "\<exists>qs. ParsePkcs8 L s = Inr qs \<and> same_params RSA_PARAMS ps qs"
proof -
  obtain vs octkey t where e: "param_ints ps RSA_PARAMS = Inr vs"
    "der_encode L (ASeq (AInt 0 # vs)) = Inr octkey"
    "der_encode L (ASeq [AInt 0, ASeq [AOid RSA_OID, ANull], AOctets octkey]) = Inr t" "s = Base64WSEncode t"
    using assms(2) by (auto simp: ExportRsaPkcs8_def ASN1Sequence_def ebind_Inr_conv Let_def)
  obtain ns where ns: "vs = map AInt ns" "map (param ps) RSA_PARAMS = map Inr ns"
    using e(1) by (auto simp: param_ints_Inr)
  note p = param_map_of [OF ns(2)]
  have "read_params RSA_PARAMS 1 ([AInt 0] @ map AInt ns) = Inr (zip RSA_PARAMS ns)"
    using p by (intro read_params_zip) auto
  then have "ParsePkcs8 L s = Inr (zip RSA_PARAMS ns)"
    using der_decodeD [OF assms(1) e(2)] der_decodeD [OF assms(1) e(3)]
    by (simp add: ParsePkcs8_def e(4) ParseASN1Sequence_def unpack_pair_def ns(1) item_def)
  then show ?thesis using p by (auto simp: same_params_def)
qed

lemma ParsePkcs8_ExportDsa:
  assumes "der_laws L" and "ExportDsaPkcs8 L ps = Inr s"
  shows "\<exists>qs. ParsePkcs8 L s = Inr qs \<and> same_params (DSA_PARAMS @ [''x'']) ps qs"
proof -
  obtain vs x octkey t where e: "param_ints ps DSA_PARAMS = Inr vs" "param ps ''x'' = Inr x"
    "der_encode L (AInt x) = Inr octkey"
    "der_encode L (ASeq [AInt 0, ASeq [AOid DSA_OID, ASeq vs], AOctets octkey]) = Inr t" "s = Base64WSEncode t"
    using assms(2) by (auto simp: ExportDsaPkcs8_def ASN1Sequence_def ebind_Inr_conv Let_def)
  obtain ns where ns: "vs = map AInt ns" "map (param ps) DSA_PARAMS = map Inr ns"
    using e(1) by (auto simp: param_ints_Inr)
  note p = param_map_of [OF ns(2)]
  have "read_params DSA_PARAMS 0 ([] @ map AInt ns) = Inr (zip DSA_PARAMS ns)"
    using p by (intro read_params_zip) auto
  then have "ParsePkcs8 L s = Inr (zip DSA_PARAMS ns @ [(''x'', x)])"
    using der_decodeD [OF assms(1) e(3)] der_decodeD [OF assms(1) e(4)]
    by (simp add: ParsePkcs8_def e(5) ParseASN1Sequence_def unpack_pair_def ns(1))
  then show ?thesis using p e(2) by (auto simp: same_params_def param_def split: option.splits)
qed

lemma pretty_bits: "pretty_law pretty \<Longrightarrow> slice (pretty b) 2 (-3) = b"
  by (auto simp: pretty_law_def slice_def Let_def dest!: spec [of _ b])

lemma ParseX509_ExportRsa:
  assumes "der_laws L" and "pretty_law pretty" and "ExportRsaX509 L ps = Inr s"
  shows "\<exists>qs. ParseX509 L pretty s = Inr qs \<and> same_params [''n'', ''e''] ps qs"
proof -
  obtain vs k t where e: "param_ints ps [''n'', ''e''] = Inr vs" "der_encode L (ASeq vs) = Inr k"
    "der_encode L (ASeq [ASeq [AOid RSA_OID, ANull], ABits (BytesToBin k)]) = Inr t" "s = Base64WSEncode t"
    using assms(3) by (auto simp: ExportRsaX509_def ASN1Sequence_def ebind_Inr_conv Let_def)
  obtain n m where ns: "vs = [AInt n, AInt m]" "param ps ''n'' = Inr n" "param ps ''e'' = Inr m"
    using e(1) by (auto simp: param_ints_Inr map_eq_Cons_conv)
  have "ParseX509 L pretty s = Inr [(''n'', n), (''e'', m)]"
    using der_decodeD [OF assms(1) e(2)] der_decodeD [OF assms(1) e(3)] pretty_bits [OF assms(2)]
    by (simp add: ParseX509_def e(4) ParseASN1Sequence_def unpack_pair_def ns(1) BinToBytes_BytesToBin)
  then show ?thesis using ns by (auto simp: same_params_def param_def split: option.splits)
qed

lemma ParseX509_ExportDsa:
  assumes "der_laws L" and "pretty_law pretty" and "ExportDsaX509 L ps = Inr s"
  shows "\<exists>qs. ParseX509 L pretty s = Inr qs \<and> same_params (DSA_PARAMS @ [''y'']) ps qs"
proof -
  obtain vs y k t where e: "param_ints ps [''p'', ''q'', ''g''] = Inr vs" "param ps ''y'' = Inr y"
    "der_encode L (AInt y) = Inr k"
    "der_encode L (ASeq [ASeq [AOid DSA_OID, ASeq vs], ABits (BytesToBin k)]) = Inr t" "s = Base64WSEncode t"
    using assms(3) by (auto simp: ExportDsaX509_def ASN1Sequence_def ebind_Inr_conv Let_def)
  obtain a b c where ns: "vs = [AInt a, AInt b, AInt c]" "param ps ''p'' = Inr a" "param ps ''q'' = Inr b"
    "param ps ''g'' = Inr c"
    using e(1) by (auto simp: param_ints_Inr map_eq_Cons_conv)
  have "ParseX509 L pretty s = Inr [(''p'', a), (''q'', b), (''g'', c), (''y'', y)]"
    using der_decodeD [OF assms(1) e(3)] der_decodeD [OF assms(1) e(4)] pretty_bits [OF assms(2)]
    by (simp add: ParseX509_def e(5) ParseASN1Sequence_def unpack_pair_def ns(1) BinToBytes_BytesToBin
        DSA_PARAMS_def item_def)
  then show ?thesis using ns e(2) by (auto simp: same_params_def param_def DSA_PARAMS_def split: option.splits)
qed

subsection \<open>An instance of the encoding laws\<close>

text \<open>Every value has a code and the codes decode: JSON text serves to show that it can be so.\<close>

fun asn1_json :: "asn1 \<Rightarrow> json" where
  "asn1_json (AInt n) = JInt n"
| "asn1_json ANull = JNull"
| "asn1_json (AOid ns) = JObj [(''oid'', JList (map (\<lambda>n. JInt (int n)) ns))]"
| "asn1_json (AOctets s) = JStr s"
| "asn1_json (ABits s) = JObj [(''bits'', JStr s)]"
| "asn1_json (ASeq vs) = JList (map asn1_json vs)"

fun collect :: "('e + 'a) list \<Rightarrow> 'e + 'a list" where
  "collect [] = Inr []"
| "collect (x # xs) = ebind x (\<lambda>y. ebind (collect xs) (\<lambda>ys. Inr (y # ys)))"

fun json_asn1 :: "json \<Rightarrow> exn + asn1" where
  "json_asn1 (JInt n) = Inr (AInt n)"
| "json_asn1 JNull = Inr ANull"
| "json_asn1 (JStr s) = Inr (AOctets s)"
| "json_asn1 (JObj [(k, JStr s)]) = Inr (ABits s)"
| "json_asn1 (JObj [(k, JList vs)]) = ebind (emap as_int vs) (\<lambda>ns. Inr (AOid (map nat ns)))"
| "json_asn1 (JList vs) = ebind (collect (map json_asn1 vs)) (\<lambda>xs. Inr (ASeq xs))"
| "json_asn1 _ = Inl OutsideModel"

definition demo_der :: crypto where
  "demo_der = demo_crypto\<lparr>der_encode := (\<lambda>v. Inr (json_dumps (asn1_json v))),
     der_decode := (\<lambda>s. ebind (json_loads s) json_asn1)\<rparr>"

lemma collect_Inr: "(\<And>x. x \<in> set xs \<Longrightarrow> f x = Inr x) \<Longrightarrow> collect (map f xs) = Inr xs"
  by (induction xs) auto

lemma json_asn1_json: "json_asn1 (asn1_json v) = Inr v"
proof (induction v)
  case (AOid ns)
  have "emap as_int (map (\<lambda>n. JInt (int n)) ns) = Inr (map int ns)" by (induction ns) simp_all
  then show ?case by (simp add: comp_def)
next
  case (ASeq vs)
  then have "collect (map (\<lambda>x. json_asn1 (asn1_json x)) vs) = Inr vs" by (intro collect_Inr)
  then show ?case by (simp add: comp_def)
qed simp_all

lemma asn1_json_plain: "json_plain (asn1_json v)"
  by (induction v) (auto simp: list_all_iff)

lemma demo_der_laws': "der_laws demo_der"
  by (auto simp: der_laws_def demo_der_def json_loads_dumps asn1_json_plain json_asn1_json)

end
