(* ===== verification/Convert.thy ===== *)
theory Convert
  imports Files
begin

text \<open>
  \<open>cpp/src/keyczar/keyczar_tool/convert_keyset.py\<close>: the script that makes key sets written by old
  versions of the C++ library readable everywhere, by putting a zero byte in front of every
  number. Files are those of \<open>Files\<close>; here an \<open>IOError\<close> is not translated. What goes to standard
  error is the string that is returned.
\<close>

definition FIELDS :: "string list" where
  "FIELDS = [''crtCoefficient'', ''primeExponentP'', ''primeExponentQ'', ''primeP'', ''primeQ'',
     ''privateExponent'', ''modulus'', ''publicExponent'', ''g'', ''p'', ''q'', ''y'', ''x'']"

definition read_file :: "fs \<Rightarrow> string \<Rightarrow> exn + bytes" where
  "read_file f path = (case map_of (fs_files f) path of Some d \<Rightarrow> Inr d | None \<Rightarrow> Inl PyIOError)"

definition write_file :: "string \<Rightarrow> bytes \<Rightarrow> (fs, exn, unit) st" where
  "write_file path data = (\<lambda>f. if fs_opens f path \<and> path \<notin> set (fs_dirs f)
     then (Inr (), f\<lparr>fs_files := AList.update path data (fs_files f)\<rparr>) else (Inl PyIOError, f))"

definition b64_decode :: "string \<Rightarrow> exn + bytes" where
  "b64_decode s0 = (let s = filter (\<lambda>c. c \<noteq> CHR '' '') s0; d = length s mod 4 in
     if d = 1 then Inl PyValueError
     else urlsafe_b64decode (if d = 2 then s @ ''=='' else if d = 3 then s @ ''='' else s))"

definition b64_encode :: "bytes \<Rightarrow> string" where
  "b64_encode s = filter (\<lambda>c. c \<noteq> CHR ''='') (urlsafe_b64encode s)"

text \<open>The members a dictionary has: of several with one name the last.\<close>

fun live :: "('k \<times> 'v) list \<Rightarrow> ('k \<times> 'v) list" where
  "live [] = []"
| "live (m # ms) = (if fst m \<in> fst ` set ms then live ms else m # live ms)"

lemma set_live: "set (live ms) \<subseteq> set ms"
  by (induction ms) auto

lemma live_size [termination_simp]: "(k, v) \<in> set (live ms) \<Longrightarrow> size v < Suc (size_list (\<lambda>m. size (snd m)) ms)"
proof -
  assume "(k, v) \<in> set (live ms)"
  then have "(k, v) \<in> set ms" using set_live by blast
  then have "size v \<le> size_list (\<lambda>m. size (snd m)) ms"
    by (induction ms) auto
  then show ?thesis by simp
qed

text \<open>Only strings can be decoded; nothing else has a method \<open>replace\<close>.\<close>

fun pad_value :: "json \<Rightarrow> exn + json" where
  "pad_value (JStr s) = ebind (b64_decode s) (\<lambda>b. Inr (JStr (b64_encode (CHR 0x00 # b))))"
| "pad_value _ = Inl PyAttributeError"

fun collect_members :: "(string \<times> (exn + json)) list \<Rightarrow> exn + (string \<times> json) list" where
  "collect_members [] = Inr []"
| "collect_members ((k, r) # ms) = ebind r (\<lambda>v. ebind (collect_members ms) (\<lambda>vs. Inr ((k, v) # vs)))"

fun is_obj :: "json \<Rightarrow> bool" where
  "is_obj (JObj ms) = True"
| "is_obj _ = False"

function (sequential) rewrite_rec :: "json \<Rightarrow> exn + json" where
  "rewrite_rec (JObj ms) = ebind (collect_members (map (\<lambda>(field, v).
       (field, ebind (if is_obj v then rewrite_rec v else Inr v) (\<lambda>v'.
          if field \<notin> set FIELDS then Inr v' else pad_value v'))) (live ms))) (\<lambda>ms'. Inr (JObj ms'))"
| "rewrite_rec _ = Inl OutsideModel"
  by pat_completeness auto
termination
proof (relation "measure size", simp)
  fix ms and x :: "string \<times> json" and field v
  assume "x \<in> set (live ms)" "(field, v) = x"
  then have "(field, v) \<in> set ms" using set_live by blast
  then have "size v < size (JObj ms)" by (induction ms) auto
  then show "(v, JObj ms) \<in> measure size" by simp
qed

definition rewrite_text :: "string \<Rightarrow> exn + string" where
  "rewrite_text orig_json = ebind (json_loads orig_json) (\<lambda>key. ebind (rewrite_rec key) (\<lambda>k. Inr (json_dumps k)))"

definition rewrite_key :: "string \<Rightarrow> string \<Rightarrow> int \<Rightarrow> (fs, exn, unit) st" where
  "rewrite_key src_path dst_path version = (\<lambda>f.
     sbind (slift (ebind (read_file f (path_join src_path (str_int version))) rewrite_text)) (\<lambda>new_json.
       write_file (path_join dst_path (str_int version)) new_json) f)"

fun rewrite_keys :: "string \<Rightarrow> string \<Rightarrow> json list \<Rightarrow> (fs, exn, unit) st" where
  "rewrite_keys src_path dst_path [] = sret ()"
| "rewrite_keys src_path dst_path (version # vs) = sbind (slift (get_int ''versionNumber'' version)) (\<lambda>n.
     sbind (rewrite_key src_path dst_path n) (\<lambda>u. rewrite_keys src_path dst_path vs))"

definition iterate_meta :: "string \<Rightarrow> string \<Rightarrow> (fs, exn, unit) st" where
  "iterate_meta src_path dst_path = (\<lambda>f.
     sbind (slift (read_file f (path_join src_path ''meta''))) (\<lambda>json_string.
     sbind (slift (ebind (ebind (json_loads json_string) (json_get ''versions'')) as_list)) (\<lambda>versions.
     sbind (rewrite_keys src_path dst_path versions) (\<lambda>u.
       write_file (path_join dst_path ''meta'') json_string))) f)"

definition doit :: "string \<Rightarrow> string \<Rightarrow> (fs, exn, string) st" where
  "doit src_path dst_path = (\<lambda>f.
     if src_path \<notin> set (fs_dirs f) then (Inr (''Invalid directory: '' @ src_path @ [CHR 0x0A]), f)
     else if dst_path \<notin> set (fs_dirs f) then (Inr (''Invalid directory: '' @ dst_path @ [CHR 0x0A]), f)
     else sbind (iterate_meta src_path dst_path) (\<lambda>u. sret []) f)"

subsection \<open>What the conversion keeps\<close>

lemma b64_encode_eq: "b64_encode = Base64WSEncode"
  by (simp add: b64_encode_def Base64WSEncode_def fun_eq_iff)

lemma b64_decode_encode: "b64_decode (Base64WSEncode s) = Inr s"
proof -
  have f: "filter (\<lambda>c. c \<noteq> CHR '' '') (concat (splitlines [] (Base64WSEncode s))) = Base64WSEncode s"
    using strip_ws_encode [of s] by (simp only: strip_ws_eq)
  have "filter (\<lambda>c. c \<noteq> CHR '' '') (Base64WSEncode s) = Base64WSEncode s"
    using encode_digits [of s] encode_not_special by (auto simp: filter_id_conv)
  with f decode_encode [of s] show ?thesis
    by (auto simp: b64_decode_def Base64WSDecode_def Let_def split: if_splits sum.splits)
qed

lemma pad_value_encode: "pad_value (JStr (Base64WSEncode s)) = Inr (JStr (Base64WSEncode (CHR 0x00 # s)))"
  by (simp add: b64_decode_encode b64_encode_eq)

lemma BytesToLong_zero_front: "BytesToLong (CHR 0x00 # s) = BytesToLong s"
  using BytesToLong_zeros [of 1 s] by simp

lemma TrimBytes_zero_front: "TrimBytes (CHR 0x00 # s) = TrimBytes s"
  by (simp add: TrimBytes_def lstrip_char_def)

definition padded_rsa :: "rsa_public \<Rightarrow> rsa_public" where
  "padded_rsa k = k\<lparr>rp_modulus := CHR 0x00 # rp_modulus k, rp_publicExponent := CHR 0x00 # rp_publicExponent k\<rparr>"

definition padded_dsa :: "dsa_public \<Rightarrow> dsa_public" where
  "padded_dsa k = k\<lparr>dp_p := CHR 0x00 # dp_p k, dp_q := CHR 0x00 # dp_q k, dp_g := CHR 0x00 # dp_g k,
     dp_y := CHR 0x00 # dp_y k\<rparr>"

lemma rewrite_rsa_json: "rewrite_rec (rsa_pub_json k) = Inr (rsa_pub_json (padded_rsa k))"
  by (simp add: rsa_pub_json_def padded_rsa_def FIELDS_def pad_value_encode del: pad_value.simps)

lemma rewrite_dsa_json: "rewrite_rec (dsa_pub_json k) = Inr (dsa_pub_json (padded_dsa k))"
  by (simp add: dsa_pub_json_def padded_dsa_def FIELDS_def pad_value_encode del: pad_value.simps)

text \<open>The numbers, the sizes and the hash identifiers of the keys are those they had.\<close>

lemma rewrite_rsa_text:
  assumes "rsa_pub_ok k"
  shows "ebind (rewrite_text (rsa_pub_str k)) RsaPublicKey_Read = Inr (padded_rsa k)"
proof -
  have p: "json_plain (rsa_pub_json k)" by (simp add: rsa_pub_json_def)
  have "rsa_pub_ok (padded_rsa k)"
    using assms by (simp add: rsa_pub_ok_def padded_rsa_def BytesToLong_zero_front)
  then have "RsaPublicKey_Read (rsa_pub_str (padded_rsa k)) = Inr (padded_rsa k)" by (rule rsa_pub_Read_str)
  then show ?thesis
    by (simp add: rewrite_text_def rsa_pub_str_def json_loads_dumps [OF p] rewrite_rsa_json)
qed

lemma rewrite_dsa_text:
  assumes "dsa_pub_ok k"
  shows "ebind (rewrite_text (dsa_pub_str k)) DsaPublicKey_Read = Inr (padded_dsa k)"
proof -
  have p: "json_plain (dsa_pub_json k)" by (simp add: dsa_pub_json_def)
  have "dsa_pub_ok (padded_dsa k)"
    using assms by (simp add: dsa_pub_ok_def padded_dsa_def BytesToLong_zero_front)
  then have "DsaPublicKey_Read (dsa_pub_str (padded_dsa k)) = Inr (padded_dsa k)" by (rule dsa_pub_Read_str)
  then show ?thesis
    by (simp add: rewrite_text_def dsa_pub_str_def json_loads_dumps [OF p] rewrite_dsa_json)
qed

lemma padded_same:
  "rp_key (padded_rsa k) = rp_key k" "rp_size (padded_rsa k) = rp_size k" "rsa_pub_Hash (padded_rsa k) = rsa_pub_Hash k"
  "dp_key (padded_dsa d) = dp_key d" "dp_size (padded_dsa d) = dp_size d" "dsa_pub_Hash (padded_dsa d) = dsa_pub_Hash d"
  by (simp_all add: padded_rsa_def padded_dsa_def rsa_pub_Hash_def dsa_pub_Hash_def TrimBytes_zero_front)

lemma doit_bad_dir:
  "src_path \<notin> set (fs_dirs f) \<or> dst_path \<notin> set (fs_dirs f) \<Longrightarrow> \<exists>msg. doit src_path dst_path f = (Inr msg, f) \<and> msg \<noteq> []"
  by (auto simp: doit_def)

end
