(* ===== verification/Interop.thy ===== *)
theory Interop
  imports Keyczart Convert "HOL-Library.Char_ord" "HOL-Library.List_Lexorder"
begin

text \<open>
  \<open>interop/interop.py\<close>: the driver that makes every implementation of Keyczar read what the others
  wrote. It reads its configuration from JSON files, creates key sets by calling the
  implementations as programs, and runs one test per combination of implementations, operation,
  key set and options that is not excluded. A generator is the function that applies the body of
  the loop that consumes it to each value it yields, so that the effects of the body and of the
  generator happen in the order of the code. A dictionary is listed in the order of its text,
  where Python has an order of its own.
\<close>

subsection \<open>The program's surroundings\<close>

text \<open>
  A program that is called may change files; it ends with output, or with output and an error
  code, or cannot be started. \<open>strerror\<close> is the text of an \<open>os.error\<close> at a location.
\<close>

datatype proc_error = CalledProcessError string | CannotStart

record host =
  check_output :: "string list \<Rightarrow> (fs, proc_error, string) st"
  strerror :: "string \<Rightarrow> string"

record logger =
  lg_collection :: "(string \<times> string list) list"
  lg_verbose :: bool

type_synonym options = "(string \<times> json) list"

text \<open>The arguments of \<open>_Test\<close> that a generated test holds.\<close>

record test_case =
  tc_output_json :: string
  tc_test_implementation :: string
  tc_generate_implementation :: string
  tc_operation :: string
  tc_algorithm :: string
  tc_generate_options :: options
  tc_test_options :: options

text \<open>
  The state: files, the logger, what was printed, the attributes of the class \<open>InteropTest\<close> and the
  results of the tests that were run.
\<close>

record iworld =
  iw_fs :: fs
  iw_logger :: logger
  iw_out :: "string list"
  iw_tests :: "(string \<times> test_case) list"
  iw_results :: "(string \<times> (exn + unit)) list"

type_synonym ('z, 'a) io = "('z iworld_scheme, exn, 'a) st"

type_synonym ('s, 'a) gen = "('a \<Rightarrow> ('s, exn, unit) st) \<Rightarrow> ('s, exn, unit) st"

fun for_in :: "'a list \<Rightarrow> ('s, 'a) gen" where
  "for_in [] body = sret ()"
| "for_in (x # xs) body = sbind (body x) (\<lambda>u. for_in xs body)"

definition io_fs :: "(fs, exn, 'a) st \<Rightarrow> ('z, 'a) io" where
  "io_fs m = (\<lambda>w. case m (iw_fs w) of (r, f) \<Rightarrow> (r, w\<lparr>iw_fs := f\<rparr>))"

text \<open>The members of a dictionary, its keys, \<open>in\<close> on a list, and the dictionary of a list of pairs.\<close>

fun members :: "json \<Rightarrow> exn + (string \<times> json) list" where
  "members (JObj ms) = Inr (live ms)"
| "members _ = Inl OutsideModel"

definition names_of :: "json \<Rightarrow> exn + string list" where
  "names_of v = ebind (members v) (\<lambda>ms. Inr (map fst ms))"

definition json_in :: "json \<Rightarrow> json \<Rightarrow> exn + bool" where
  "json_in x v = ebind (as_list v) (\<lambda>vs. Inr (x \<in> set vs))"

definition dict_of :: "('k \<times> 'v) list \<Rightarrow> ('k \<times> 'v) list" where
  "dict_of xs = foldl (\<lambda>d (k, v). AList.update k v d) [] xs"

text \<open>\<open>sep.join(options.values())\<close>.\<close>

fun str_item :: "json \<Rightarrow> exn + string" where
  "str_item (JStr s) = Inr s"
| "str_item _ = Inl PyTypeError"

definition join_values :: "string \<Rightarrow> options \<Rightarrow> exn + string" where
  "join_values sep opts = ebind (emap (\<lambda>(k, v). str_item v) opts) (\<lambda>vs. Inr (join_with sep vs))"

subsection \<open>\<open>InteropLogger\<close>\<close>

definition InteropLogger_init :: "bool \<Rightarrow> logger" where
  "InteropLogger_init verbose = \<lparr>lg_collection = [], lg_verbose = verbose\<rparr>"

definition Output :: "string \<Rightarrow> ('z, unit) io" where
  "Output s = smodify (\<lambda>w. w\<lparr>iw_out := iw_out w @ [s]\<rparr>)"

definition Debug :: "string \<Rightarrow> ('z, unit) io" where
  "Debug s = (\<lambda>w. if lg_verbose (iw_logger w) then Output s w else (Inr (), w))"

definition collect :: "string \<Rightarrow> string \<Rightarrow> (string \<times> string list) list \<Rightarrow> (string \<times> string list) list" where
  "collect message details c =
     (let c1 = (if message \<notin> fst ` set c then AList.update message [] c else c)
      in AList.update message (the (map_of c1 message) @ [details]) c1)"

definition Collect_event :: "string \<Rightarrow> string \<Rightarrow> ('z, unit) io" where
  "Collect_event message details = smodify (\<lambda>w. w\<lparr>iw_logger :=
     (iw_logger w)\<lparr>lg_collection := collect message details (lg_collection (iw_logger w))\<rparr>\<rparr>)"

definition OutputCollection :: "('z, unit) io" where
  "OutputCollection = (\<lambda>w.
     sbind (for_in (lg_collection (iw_logger w)) (\<lambda>(message, details).
       sbind (Output (str_nat (length details) @ '' Events: '' @ message)) (\<lambda>u.
         if lg_verbose (iw_logger w) then for_in details (\<lambda>d. Output (''    '' @ d)) else sret ())))
     (\<lambda>u. smodify (\<lambda>w. w\<lparr>iw_logger := (iw_logger w)\<lparr>lg_collection := []\<rparr>\<rparr>)) w)"

subsection \<open>\<open>Keyset\<close>\<close>

record test_keyset =
  ks_key_set_options :: json
  ks_algorithm :: string
  ks_size :: int
  ks_purpose :: string

definition ks_repr :: "test_keyset \<Rightarrow> string" where
  "ks_repr ks = ''Keyset('' @ ks_algorithm ks @ '','' @ str_int (ks_size ks) @ '','' @ ks_purpose ks @ '')''"

definition ks_name :: "test_keyset \<Rightarrow> string" where
  "ks_name ks = ks_algorithm ks @ str_int (ks_size ks)"

definition ks_Options :: "test_keyset \<Rightarrow> string \<Rightarrow> exn + json" where
  "ks_Options ks option_string = ebind (json_get (ks_purpose ks) (ks_key_set_options ks)) (json_get option_string)"

definition ks_test_options :: "test_keyset \<Rightarrow> exn + json" where
  "ks_test_options ks = ks_Options ks ''testOptions''"

definition ks_generate_options :: "test_keyset \<Rightarrow> exn + json" where
  "ks_generate_options ks = ks_Options ks ''generateOptions''"

definition ks_SwitchPurpose :: "test_keyset \<Rightarrow> string \<Rightarrow> test_keyset" where
  "ks_SwitchPurpose keyset keytype = \<lparr>ks_key_set_options = ks_key_set_options keyset,
     ks_algorithm = ks_algorithm keyset, ks_size = ks_size keyset, ks_purpose = keytype\<rparr>"

definition GetGenerateKeysets :: "json \<Rightarrow> json \<Rightarrow> string \<Rightarrow> ('s, test_keyset) gen" where
  "GetGenerateKeysets algorithms key_set_options keytype body =
     sbind (slift (names_of algorithms)) (\<lambda>names. for_in names (\<lambda>algorithm.
     sbind (slift (json_get algorithm algorithms)) (\<lambda>a.
     sbind (slift (json_get ''purpose'' a)) (\<lambda>p.
     if p \<noteq> JStr keytype then sret () else
     sbind (slift (ebind (json_get ''keySizes'' a) as_list)) (\<lambda>sizes. for_in sizes (\<lambda>s0.
     sbind (slift (as_int s0)) (\<lambda>sz.
     sbind (if keytype = ''crypt'' then slift (ebind (json_get ''asymmetric'' a) as_bool) else sret False) (\<lambda>public.
     sbind (if public then body \<lparr>ks_key_set_options = key_set_options, ks_algorithm = algorithm,
              ks_size = sz, ks_purpose = ''encrypt''\<rparr> else sret ()) (\<lambda>u.
     body \<lparr>ks_key_set_options = key_set_options, ks_algorithm = algorithm, ks_size = sz,
       ks_purpose = keytype\<rparr>)))))))))"

definition GetTestKeysets :: "json \<Rightarrow> test_keyset \<Rightarrow> exn + test_keyset list" where
  "GetTestKeysets algorithms generate_keyset =
     (if ks_purpose generate_keyset = ''crypt'' then Inr [generate_keyset]
      else if ks_purpose generate_keyset = ''encrypt'' then Inr [ks_SwitchPurpose generate_keyset ''crypt'']
      else if ks_purpose generate_keyset = ''sign'' then
        ebind (ebind (ebind (json_get (ks_algorithm generate_keyset) algorithms) (json_get ''asymmetric'')) as_bool)
          (\<lambda>asymmetric. Inr (if asymmetric
             then [generate_keyset, ks_SwitchPurpose generate_keyset ''verify''] else [generate_keyset]))
      else Inl PyValueError)"

subsection \<open>The configuration\<close>

record runner =
  rn_algorithms :: json
  rn_ignored_tests :: json
  rn_operations :: json
  rn_implementations :: json
  rn_key_set_options :: json
  rn_macros :: "(string \<times> json list) list"

definition ALGORITHM_JSON :: string where "ALGORITHM_JSON = ''config/interopAlgorithms.json''"
definition CRYPTED_KEY_SET_ALGORITHM :: string where "CRYPTED_KEY_SET_ALGORITHM = ''aes128''"
definition INTEROP_DATA :: string where "INTEROP_DATA = ''keys''"
definition IGNORED_TESTS :: string where "IGNORED_TESTS = ''config/ignoredTests.json''"
definition KEY_SET_OPTIONS :: string where "KEY_SET_OPTIONS = ''config/keySetOptions.json''"
definition OPERATIONS :: string where "OPERATIONS = ''config/operations.json''"
definition IMPLEMENTATIONS :: string where "IMPLEMENTATIONS = ''config/implementations.json''"
definition TESTDATA :: string where "TESTDATA = ''This is some test data.''"

definition interop_ReadFile :: "fs \<Rightarrow> string \<Rightarrow> exn + string" where
  "interop_ReadFile f loc = (case map_of (fs_files f) loc of
     Some d \<Rightarrow> Inr d | None \<Rightarrow> Inl (PyException (''Unable to read file '' @ loc @ ''.'')))"

text \<open>The names of the key sets a generator yields, as the list that the comprehension makes.\<close>

definition gen_list :: "('a list, 'a) gen \<Rightarrow> exn + 'a list" where
  "gen_list g = (case g (\<lambda>x. smodify (\<lambda>xs. xs @ [x])) [] of (Inl e, xs) \<Rightarrow> Inl e | (Inr u, xs) \<Rightarrow> Inr xs)"

definition InteropTestRunner_init :: "fs \<Rightarrow> exn + runner" where
  "InteropTestRunner_init f =
     ebind (ebind (interop_ReadFile f ALGORITHM_JSON) json_loads) (\<lambda>algorithms.
     ebind (ebind (interop_ReadFile f IGNORED_TESTS) json_loads) (\<lambda>ignored_tests.
     ebind (ebind (interop_ReadFile f OPERATIONS) json_loads) (\<lambda>operations.
     ebind (ebind (interop_ReadFile f IMPLEMENTATIONS) json_loads) (\<lambda>implementations.
     ebind (ebind (interop_ReadFile f KEY_SET_OPTIONS) json_loads) (\<lambda>key_set_options.
     ebind (gen_list (GetGenerateKeysets algorithms key_set_options ''sign'')) (\<lambda>kss.
     Inr \<lparr>rn_algorithms = algorithms, rn_ignored_tests = ignored_tests, rn_operations = operations,
       rn_implementations = implementations, rn_key_set_options = key_set_options,
       rn_macros = [(''ALL_SIGNING_KEYS'', map (\<lambda>ks. JStr (ks_name ks)) kss)]\<rparr>))))))"

subsection \<open>Options and excluded tests\<close>

definition contains :: "json \<Rightarrow> string \<Rightarrow> string \<Rightarrow> exn + bool" where
  "contains ignored_test v name = ebind (json_get name ignored_test) (\<lambda>l.
     ebind (json_in (JStr v) l) (\<lambda>b. if b then Inr True else json_in (JStr ''*'') l))"

fun options_ignored :: "options \<Rightarrow> (string \<times> json) list \<Rightarrow> exn + bool" where
  "options_ignored options [] = Inr True"
| "options_ignored options ((option_name, l) # ops) =
     (if option_name = ''*'' then options_ignored options ops
      else ebind (case map_of options option_name of None \<Rightarrow> Inr False | Some v \<Rightarrow> json_in v l) (\<lambda>b.
        ebind (options_ignored options ops) (\<lambda>ignored. Inr (b \<and> ignored))))"

definition ignored_by :: "string \<Rightarrow> string \<Rightarrow> string \<Rightarrow> options \<Rightarrow> json \<Rightarrow> exn + bool" where
  "ignored_by implementation operation algorithm options ignored_test =
     ebind (contains ignored_test implementation ''implementation'') (\<lambda>a. if \<not> a then Inr False else
     ebind (contains ignored_test algorithm ''algorithm'') (\<lambda>b. if \<not> b then Inr False else
     ebind (contains ignored_test operation ''operation'') (\<lambda>c. if \<not> c then Inr False else
     ebind (ebind (json_get ''options'' ignored_test) members) (options_ignored options))))"

fun check_ignored :: "string \<Rightarrow> string \<Rightarrow> string \<Rightarrow> options \<Rightarrow> json list \<Rightarrow> ('z, bool) io" where
  "check_ignored implementation operation algorithm options [] = sret False"
| "check_ignored implementation operation algorithm options (ignored_test # ts) =
     sbind (slift (ignored_by implementation operation algorithm options ignored_test)) (\<lambda>ignored.
     if ignored then
       sbind (slift (get_str ''reason'' ignored_test)) (\<lambda>reason.
       sbind (slift (join_values '', '' options)) (\<lambda>values.
       sbind (Collect_event (''Ignoring tests because '' @ reason) (operation @ '' with '' @ algorithm
         @ '' for '' @ implementation @ '' with options '' @ values)) (\<lambda>u. sret True)))
     else check_ignored implementation operation algorithm options ts)"

definition IsException :: "runner \<Rightarrow> string \<Rightarrow> string \<Rightarrow> string \<Rightarrow> options \<Rightarrow> ('z, bool) io" where
  "IsException r implementation operation algorithm options =
     sbind (slift (as_list (rn_ignored_tests r))) (check_ignored implementation operation algorithm options)"

definition option_list :: "runner \<Rightarrow> json \<Rightarrow> exn + json list" where
  "option_list r l = (case l of
       JStr macro \<Rightarrow> (case map_of (rn_macros r) macro of None \<Rightarrow> Inl PyKeyError | Some vs \<Rightarrow> Inr vs)
     | JList vs \<Rightarrow> Inr vs
     | _ \<Rightarrow> Inl OutsideModel)"

definition Options :: "runner \<Rightarrow> string \<Rightarrow> test_keyset \<Rightarrow> string \<Rightarrow> exn + options list" where
  "Options r operation keyset option_string =
     ebind (ebind (ebind (json_get operation (rn_operations r)) (json_get option_string)) members) (\<lambda>operation_options.
     ebind (ebind (ks_Options keyset option_string) members) (\<lambda>key_set_options.
     let option_dict = dict_of (key_set_options @ operation_options) in
     if option_dict = [] then Inr [[]]
     else ebind (emap (\<lambda>(name, l). option_list r l) option_dict) (\<lambda>all_options.
       Inr (map (zip (map fst option_dict)) (product_lists all_options)))))"

definition GenerateAll :: "runner \<Rightarrow> ('z iworld_scheme, string \<times> string \<times> test_keyset \<times> options) gen" where
  "GenerateAll r body =
     sbind (slift (names_of (rn_implementations r))) (\<lambda>implementations. for_in implementations (\<lambda>implementation.
     sbind (slift (names_of (rn_operations r))) (\<lambda>operations. for_in operations (\<lambda>operation.
     sbind (slift (ebind (json_get operation (rn_operations r)) (get_str ''keytype''))) (\<lambda>keytype.
     GetGenerateKeysets (rn_algorithms r) (rn_key_set_options r) keytype (\<lambda>keyset.
     sbind (slift (Options r operation keyset ''generateOptions'')) (\<lambda>all_options. for_in all_options (\<lambda>options.
     sbind (IsException r implementation operation (ks_name keyset) options) (\<lambda>ignored.
     if ignored then sret () else body (implementation, operation, keyset, options))))))))))"

definition TestAll :: "runner \<Rightarrow> string \<Rightarrow> test_keyset \<Rightarrow> options \<Rightarrow> ('z iworld_scheme, string \<times> options) gen" where
  "TestAll r operation keyset generate_options body =
     sbind (slift (names_of (rn_implementations r))) (\<lambda>implementations. for_in implementations (\<lambda>implementation.
     sbind (slift (GetTestKeysets (rn_algorithms r) keyset)) (\<lambda>test_keysets. for_in test_keysets (\<lambda>test_keyset.
     sbind (slift (Options r operation test_keyset ''testOptions'')) (\<lambda>all_options. for_in all_options (\<lambda>options.
     sbind (IsException r implementation operation (ks_name keyset) (dict_of (options @ generate_options))) (\<lambda>ignored.
     if ignored then sret () else body (implementation, options))))))))"

subsection \<open>Directories\<close>

definition path_split :: "string \<Rightarrow> string \<times> string" where
  "path_split p = (let tail = rev (takeWhile (\<lambda>c. c \<noteq> CHR ''/'') (rev p));
       head = take (length p - length tail) p
     in (if list_all (\<lambda>c. c = CHR ''/'') head then head
         else rev (dropWhile (\<lambda>c. c = CHR ''/'') (rev head)), tail))"

definition os_mkdir :: "string \<Rightarrow> (fs, exn, unit) st" where
  "os_mkdir name = (\<lambda>f. if path_exists f name \<or> \<not> fs_opens f name then (Inl PyOSError, f)
     else (Inr (), f\<lparr>fs_dirs := fs_dirs f @ [name]\<rparr>))"

definition makedirs_split :: "string \<Rightarrow> string \<times> string" where
  "makedirs_split name = (let (head, tail) = path_split name in if tail = [] then path_split head else (head, tail))"

lemma length_path_split: "length (fst (path_split p)) + length (snd (path_split p)) \<le> length p"
proof -
  define tail where "tail = rev (takeWhile (\<lambda>c. c \<noteq> CHR ''/'') (rev p))"
  define head where "head = take (length p - length tail) p"
  have t: "length tail \<le> length p" using length_takeWhile_le [of _ "rev p"] by (simp add: tail_def)
  have "length (rev (dropWhile (\<lambda>c. c = CHR ''/'') (rev head))) \<le> length head"
    using length_dropWhile_le [of _ "rev head"] by simp
  moreover have "length head + length tail = length p" using t by (simp add: head_def)
  ultimately show ?thesis
    unfolding path_split_def Let_def tail_def [symmetric] head_def [symmetric] by auto
qed

lemma makedirs_shorter:
  assumes "makedirs_split name = (head, tail)" and "tail \<noteq> []"
  shows "length head < length name"
proof -
  have "length head + length tail \<le> length name"
    using assms(1) length_path_split [of name] length_path_split [of "fst (path_split name)"]
    by (auto simp: makedirs_split_def split: prod.splits if_splits)
  then show ?thesis using assms(2) by (cases tail) auto
qed

function os_makedirs :: "string \<Rightarrow> (fs, exn, unit) st" where
  "os_makedirs name = (\<lambda>f. case makedirs_split name of (head, tail) \<Rightarrow>
     if head \<noteq> [] \<and> tail \<noteq> [] \<and> \<not> path_exists f head
     then sbind (os_makedirs head) (\<lambda>u. if tail = ''.'' then sret () else os_mkdir name) f
     else os_mkdir name f)"
  by pat_completeness auto
termination by (relation "measure length") (auto dest: makedirs_shorter [OF sym])

declare os_makedirs.simps [simp del]

definition os_path_isfile :: "fs \<Rightarrow> string \<Rightarrow> bool" where
  "os_path_isfile f loc \<longleftrightarrow> loc \<in> fst ` set (fs_files f)"

definition clear_files :: "string \<Rightarrow> (fs, exn, unit) st" where
  "clear_files loc = (\<lambda>f. sbind (slift (os_listdir f loc)) (\<lambda>names. for_in names (\<lambda>filename f'.
     let file_path = path_join loc filename in
     if os_path_isfile f' file_path then os_remove file_path f' else (Inr (), f'))) f)"

definition MakeDirs :: "host \<Rightarrow> string \<Rightarrow> ('z, unit) io" where
  "MakeDirs H loc = (\<lambda>w. case io_fs (os_makedirs loc) w of
       (Inr u, w1) \<Rightarrow> (Inr (), w1)
     | (Inl e, w1) \<Rightarrow> (case io_fs (clear_files loc) w1 of
         (Inr u, w2) \<Rightarrow> Debug (''overwrote '' @ loc) w2
       | (Inl e, w2) \<Rightarrow> sbind (Output (''Error accessing location: '' @ loc @ '', error: '' @ strerror H loc))
           (\<lambda>u. sraise (PyExit 1)) w2))"

subsection \<open>Calling the implementations\<close>

definition GetKeyPath :: "string \<Rightarrow> string" where
  "GetKeyPath implementation = path_join INTEROP_DATA implementation"

definition GetKeyDir :: "string \<Rightarrow> string \<Rightarrow> string" where
  "GetKeyDir implementation name = path_join (GetKeyPath implementation) name"

text \<open>
  \<open>subprocess.list2cmdline\<close>: the pending backslashes are doubled before a quote and kept
  otherwise; at the end of a quoted argument they are doubled too.
\<close>

fun quote_arg :: "bool \<Rightarrow> nat \<Rightarrow> string \<Rightarrow> string" where
  "quote_arg needquote bs [] = (let b = replicate bs CHR 0x5C in if needquote then b @ b @ [CHR 0x22] else b)"
| "quote_arg needquote bs (c # cs) =
     (if c = CHR 0x5C then quote_arg needquote (Suc bs) cs
      else if c = CHR 0x22 then replicate (2 * bs) CHR 0x5C @ [CHR 0x5C, CHR 0x22] @ quote_arg needquote 0 cs
      else replicate bs CHR 0x5C @ [c] @ quote_arg needquote 0 cs)"

definition list2cmdline :: "string list \<Rightarrow> string" where
  "list2cmdline args = join_with '' '' (map (\<lambda>arg.
     let needquote = CHR '' '' \<in> set arg \<or> CHR 0x09 \<in> set arg \<or> arg = []
     in (if needquote then [CHR 0x22] else []) @ quote_arg needquote 0 arg) args)"

definition CallImplementation :: "host \<Rightarrow> runner \<Rightarrow> string \<Rightarrow> string list \<Rightarrow> ('z, string) io" where
  "CallImplementation H r implementation params =
     sbind (slift (ebind (ebind (json_get implementation (rn_implementations r)) as_list) (emap as_str))) (\<lambda>cmd.
     let args = cmd @ params in (\<lambda>w. case check_output H args (iw_fs w) of
         (Inr out, f) \<Rightarrow> (Inr out, w\<lparr>iw_fs := f\<rparr>)
       | (Inl (CalledProcessError out), f) \<Rightarrow>
           (Inl (PyException (list2cmdline args @ '' failed:'' @ [CHR 0x0A] @ '' '' @ out)), w\<lparr>iw_fs := f\<rparr>)
       | (Inl CannotStart, f) \<Rightarrow> (Inl PyOSError, w\<lparr>iw_fs := f\<rparr>)))"

text \<open>The flags of the configuration are text.\<close>

definition get_flags :: "runner \<Rightarrow> string \<Rightarrow> string \<Rightarrow> exn + string list" where
  "get_flags r algorithm name = ebind (ebind (json_get algorithm (rn_algorithms r)) (json_get name))
     (\<lambda>l. ebind (as_list l) (emap as_str))"

definition GetCreateFlags :: "runner \<Rightarrow> string \<Rightarrow> int \<Rightarrow> string \<Rightarrow> exn + string list" where
  "GetCreateFlags r algorithm sz loc = (let name = algorithm @ str_int sz;
       create_flags = [''create'', ''--name='' @ name, ''--location='' @ loc]
     in ebind (get_flags r algorithm ''createFlags'') (\<lambda>fl. Inr (create_flags @ fl)))"

definition GetAddKeyFlags :: "runner \<Rightarrow> string \<Rightarrow> int \<Rightarrow> string \<Rightarrow> string list \<Rightarrow> exn + string list" where
  "GetAddKeyFlags r algorithm sz loc fl0 =
     (let add_key_flags = [''addkey'', ''--status=primary'', ''--size='' @ str_int sz, ''--location='' @ loc] @ fl0
      in ebind (get_flags r algorithm ''addKeyFlags'') (\<lambda>fl. Inr (add_key_flags @ fl)))"

definition GetPubKeyFlags :: "string \<Rightarrow> string list \<Rightarrow> string list" where
  "GetPubKeyFlags loc fl = [''pubkey'', ''--destination='' @ loc @ ''public'', ''--location='' @ loc] @ fl"

definition create_params :: "string list list \<Rightarrow> string" where
  "create_params cmds = json_dumps (JObj [(''command'', JStr ''create''),
     (''keyczartCommands'', JList (map (\<lambda>c. JList (map JStr c)) cmds))])"

definition Create_keys :: "host \<Rightarrow> runner \<Rightarrow> string \<Rightarrow> string \<Rightarrow> int \<Rightarrow> json \<Rightarrow> ('z, unit) io" where
  "Create_keys H r implementation algorithm sz asymmetric =
     (let loc = GetKeyDir implementation (algorithm @ str_int sz) in
      sbind (MakeDirs H loc) (\<lambda>u.
      sbind (slift (GetCreateFlags r algorithm sz loc)) (\<lambda>create_flags.
      sbind (slift (GetAddKeyFlags r algorithm sz loc [])) (\<lambda>add_key_flags.
      let cmds = [create_flags] @ [add_key_flags, add_key_flags] in
      sbind (slift (as_bool asymmetric)) (\<lambda>public.
      sbind (if public then sbind (MakeDirs H (loc @ ''public'')) (\<lambda>u. sret (cmds @ [GetPubKeyFlags loc []]))
             else sret cmds) (\<lambda>cmds'.
      sbind (CallImplementation H r implementation [create_params cmds']) Debug))))))"

definition CreateEncrypted :: "host \<Rightarrow> runner \<Rightarrow> string \<Rightarrow> string \<Rightarrow> int \<Rightarrow> string \<Rightarrow> ('z, unit) io" where
  "CreateEncrypted H r implementation algorithm sz crypter =
     (let loc = GetKeyDir implementation (algorithm @ str_int sz @ crypter);
          crypter_location = GetKeyDir implementation crypter in
      sbind (MakeDirs H loc) (\<lambda>u.
      sbind (slift (GetCreateFlags r algorithm sz loc)) (\<lambda>create_flags.
      sbind (slift (GetAddKeyFlags r algorithm sz loc [''--crypter='' @ crypter_location])) (\<lambda>add_key_flags.
      sbind (CallImplementation H r implementation [create_params [create_flags, add_key_flags]]) Debug))))"

text \<open>Both loops of \<open>CreateKeys\<close>; the body gets the value of \<open>asymmetric\<close>.\<close>

definition for_keys :: "runner \<Rightarrow> ('s, string \<times> string \<times> int \<times> json) gen" where
  "for_keys r body =
     sbind (slift (names_of (rn_implementations r))) (\<lambda>implementations. for_in implementations (\<lambda>implementation.
     sbind (slift (names_of (rn_algorithms r))) (\<lambda>algorithms. for_in algorithms (\<lambda>algorithm.
     sbind (slift (json_get algorithm (rn_algorithms r))) (\<lambda>a.
     sbind (slift (ebind (json_get ''keySizes'' a) as_list)) (\<lambda>sizes. for_in sizes (\<lambda>s0.
     sbind (slift (as_int s0)) (\<lambda>sz.
     sbind (slift (json_get ''asymmetric'' a)) (\<lambda>asymmetric. body (implementation, algorithm, sz, asymmetric))))))))))"

definition CreateKeys :: "host \<Rightarrow> runner \<Rightarrow> ('z, unit) io" where
  "CreateKeys H r =
     sbind (for_keys r (\<lambda>(implementation, algorithm, sz, asymmetric). Create_keys H r implementation algorithm sz asymmetric)) (\<lambda>u.
     for_keys r (\<lambda>(implementation, algorithm, sz, asymmetric).
       CreateEncrypted H r implementation algorithm sz CRYPTED_KEY_SET_ALGORITHM))"

subsection \<open>Generating and running the tests\<close>

definition Generate_output :: "host \<Rightarrow> runner \<Rightarrow> string \<Rightarrow> string \<Rightarrow> string \<Rightarrow> options \<Rightarrow> ('z, string) io" where
  "Generate_output H r implementation operation algorithm options =
     CallImplementation H r implementation [json_dumps (JObj [(''command'', JStr ''generate''),
       (''operation'', JStr operation), (''keyPath'', JStr (GetKeyPath implementation)),
       (''algorithm'', JStr algorithm), (''generateOptions'', JObj options), (''testData'', JStr TESTDATA)])]"

definition run_test_case :: "host \<Rightarrow> runner \<Rightarrow> test_case \<Rightarrow> ('z, string) io" where
  "run_test_case H r tc =
     sbind (slift (json_loads (tc_output_json tc))) (\<lambda>out.
     CallImplementation H r (tc_test_implementation tc) [json_dumps (JObj [(''command'', JStr ''test''),
       (''operation'', JStr (tc_operation tc)), (''keyPath'', JStr (GetKeyPath (tc_generate_implementation tc))),
       (''algorithm'', JStr (tc_algorithm tc)), (''generateOptions'', JObj (tc_generate_options tc)),
       (''testOptions'', JObj (tc_test_options tc)), (''output'', out), (''testData'', JStr TESTDATA)])])"

definition InteropTestGenerator :: "host \<Rightarrow> runner \<Rightarrow> test_case \<Rightarrow> ('z, unit) io" where
  "InteropTestGenerator H r tc = sbind (run_test_case H r tc) (\<lambda>out. sret ())"

definition test_name_for :: "string \<Rightarrow> string \<Rightarrow> string \<Rightarrow> string \<Rightarrow> string \<Rightarrow> string \<Rightarrow> string" where
  "test_name_for test_implementation generate_implementation operation name g t =
     ''test_'' @ test_implementation @ ''_generated_by_'' @ generate_implementation @ ''_'' @ operation
       @ ''_'' @ name @ ''_'' @ g @ ''_'' @ t"

definition SetupInteropTests :: "host \<Rightarrow> runner \<Rightarrow> ('z, unit) io" where
  "SetupInteropTests H r =
     sbind (GenerateAll r (\<lambda>(generate_implementation, operation, keyset, generate_options).
       sbind (Generate_output H r generate_implementation operation (ks_name keyset) generate_options) (\<lambda>out.
       TestAll r operation keyset generate_options (\<lambda>(test_implementation, test_options).
         sbind (slift (join_values ''_'' generate_options)) (\<lambda>g.
         sbind (slift (join_values ''_'' test_options)) (\<lambda>t.
         let test_name = test_name_for test_implementation generate_implementation operation (ks_name keyset) g t;
             test = \<lparr>tc_output_json = out, tc_test_implementation = test_implementation,
               tc_generate_implementation = generate_implementation, tc_operation = operation,
               tc_algorithm = ks_name keyset, tc_generate_options = generate_options, tc_test_options = test_options\<rparr>
         in smodify (\<lambda>w. w\<lparr>iw_tests := AList.update test_name test (iw_tests w)\<rparr>))))))) (\<lambda>u.
     OutputCollection)"

text \<open>
  \<open>unittest\<close> runs the methods whose names begin with \<open>test\<close> in the order of the names; an exception
  is a failed test and does not stop it.
\<close>

definition RunTests :: "host \<Rightarrow> runner \<Rightarrow> ('z, unit) io" where
  "RunTests H r = (\<lambda>w. for_in (sort (filter (\<lambda>n. take 4 n = ''test'') (map fst (iw_tests w)))) (\<lambda>name w.
     case InteropTestGenerator H r (the (map_of (iw_tests w) name)) w of
       (res, w') \<Rightarrow> (Inr (), w'\<lparr>iw_results := iw_results w' @ [(name, res)]\<rparr>)) w)"

subsection \<open>Displaying\<close>

definition join_pairs :: "options \<Rightarrow> exn + string" where
  "join_pairs opts = ebind (emap (\<lambda>(k, v). ebind (as_str v) (\<lambda>s. Inr (k @ ''='' @ s))) opts) (\<lambda>ss.
     Inr (join_with ''_'' ss))"

record display_world = iworld +
  dw_tests :: "string list"

definition DisplayTests :: "runner \<Rightarrow> (iworld, exn, unit) st" where
  "DisplayTests r = (\<lambda>w.
     case GenerateAll r (\<lambda>(generate_implementation, operation, keyset, generate_options).
       TestAll r operation keyset generate_options (\<lambda>(test_implementation, test_options).
         sbind (slift (join_pairs generate_options)) (\<lambda>g.
         sbind (slift (join_pairs test_options)) (\<lambda>t.
         smodify (\<lambda>w. w\<lparr>dw_tests := dw_tests w @ [test_name_for test_implementation
           generate_implementation operation (ks_name keyset) g t]\<rparr>)))))
       (iworld.extend w (display_world.fields [])) of
       (Inl e, w') \<Rightarrow> (Inl e, iworld.truncate w')
     | (Inr u, w') \<Rightarrow> for_in (sort (dw_tests w')) Output (iworld.truncate w'))"

text \<open>\<open>str\<close> of a list of strings that were read from JSON, and so are of the type \<open>unicode\<close>.\<close>

definition repr_char :: "char \<Rightarrow> char \<Rightarrow> string" where
  "repr_char quote c =
     (if c = quote \<or> c = CHR 0x5C then [CHR 0x5C, c]
      else if c = CHR 0x09 then [CHR 0x5C] @ ''t'' else if c = CHR 0x0A then [CHR 0x5C] @ ''n''
      else if c = CHR 0x0D then [CHR 0x5C] @ ''r''
      else let n = nat (byte_ord c) in
        if n < 32 \<or> 127 \<le> n then [CHR 0x5C] @ ''x'' @ [hex_digit (n div 16), hex_digit (n mod 16)] else [c])"

definition repr_unicode :: "string \<Rightarrow> string" where
  "repr_unicode s = (let quote = (if CHR 0x27 \<in> set s \<and> CHR 0x22 \<notin> set s then CHR 0x22 else CHR 0x27)
     in ''u'' @ [quote] @ concat (map (repr_char quote) s) @ [quote])"

definition str_list :: "string list \<Rightarrow> string" where
  "str_list vs = ''['' @ join_with '', '' (map repr_unicode vs) @ '']''"

type_synonym option_sets = "(string \<times> (string \<times> string list) list) list"

definition ensure_key :: "'k \<Rightarrow> 'v \<Rightarrow> ('k \<times> 'v) list \<Rightarrow> ('k \<times> 'v) list" where
  "ensure_key k v d = (if k \<in> fst ` set d then d else AList.update k v d)"

definition add_option :: "string \<Rightarrow> string \<Rightarrow> string \<Rightarrow> option_sets \<Rightarrow> option_sets" where
  "add_option operation option value d =
     (let opts = ensure_key option [] (the (map_of d operation))
      in AList.update operation (AList.update option (List.insert value (the (map_of opts option))) opts) d)"

definition add_options :: "string \<Rightarrow> options list \<Rightarrow> option_sets \<Rightarrow> exn + option_sets" where
  "add_options operation options_list d0 = ebind (emap (emap (\<lambda>(n, v). ebind (as_str v) (\<lambda>s. Inr (n, s)))) options_list) (\<lambda>oss.
     Inr (foldl (\<lambda>d (n, s). add_option operation n s d) (ensure_key operation [] d0) (concat oss)))"

definition collect_options :: "runner \<Rightarrow> (option_sets \<times> option_sets, exn, unit) st" where
  "collect_options r =
     sbind (slift (names_of (rn_operations r))) (\<lambda>operations. for_in operations (\<lambda>operation.
     sbind (slift (ebind (json_get operation (rn_operations r)) (get_str ''keytype''))) (\<lambda>keytype.
     GetGenerateKeysets (rn_algorithms r) (rn_key_set_options r) keytype (\<lambda>keyset.
     sbind (slift (Options r operation keyset ''generateOptions'')) (\<lambda>options_list.
     sbind (\<lambda>(g, t). case add_options operation options_list g of Inl e \<Rightarrow> (Inl e, g, t) | Inr g' \<Rightarrow> (Inr (), g', t)) (\<lambda>u.
     sbind (slift (GetTestKeysets (rn_algorithms r) keyset)) (\<lambda>test_keysets. for_in test_keysets (\<lambda>test_keyset.
     sbind (slift (Options r operation test_keyset ''testOptions'')) (\<lambda>options_list (g, t).
     case add_options operation options_list t of Inl e \<Rightarrow> (Inl e, g, t) | Inr t' \<Rightarrow> (Inr (), g, t'))))))))))"

definition output_options :: "option_sets \<Rightarrow> ('z, unit) io" where
  "output_options d = for_in d (\<lambda>(operation, opts).
     sbind (Output (''  '' @ operation @ '':'')) (\<lambda>u. for_in opts (\<lambda>(option_name, options).
       Output (''    '' @ option_name @ '': '' @ str_list options))))"

definition DisplayOptions :: "runner \<Rightarrow> ('z, unit) io" where
  "DisplayOptions r = (case collect_options r ([], []) of
       (Inl e, d) \<Rightarrow> sraise e
     | (Inr u, generate_dict, test_dict) \<Rightarrow>
         sbind (Output ''Generate Options:'') (\<lambda>u. sbind (output_options generate_dict) (\<lambda>u.
         sbind (Output ([CHR 0x0A] @ ''Test Options:'')) (\<lambda>u. output_options test_dict))))"

subsection \<open>The command line\<close>

definition interop_usage_lines :: "string list" where
  "interop_usage_lines = [''Interoperability testing for Keyczar'',
     ''         ./interop.py [--create=(y|n)] [--verbose=(y|n)]'',
     ''         ./interop.py display'',
     ''         ./interop.py options'',
     ''Run from the interop directory. Optional flags include:'',
     ''      --create         (y/n) whether to create keys (default:y)'',
     ''      --verbose        (y/n) verbose logging (default:n)'',
     ''display will print all tests to be ran.'',
     ''options shows you the possible options for each of the operations'',
     []]"

definition interop_Usage :: "('z, int option) io" where
  "interop_Usage = sbind (Output (join_with [CHR 0x0A] interop_usage_lines)) (\<lambda>u. sret (Some 1))"

definition set_logger :: "bool \<Rightarrow> ('z, unit) io" where
  "set_logger verbose = smodify (\<lambda>w. w\<lparr>iw_logger := InteropLogger_init verbose\<rparr>)"

definition new_runner :: "('z, runner) io" where
  "new_runner = (\<lambda>w. (InteropTestRunner_init (iw_fs w), w))"

text \<open>The loop over the arguments: \<open>Inl\<close> when \<open>main\<close> returns in it, \<open>Inr\<close> the flags at its end.\<close>

fun interop_args :: "string list \<Rightarrow> string \<times> string \<Rightarrow> (iworld, exn, int option + (string \<times> string)) st" where
  "interop_args [] fl = sret (Inr fl)"
| "interop_args (arg # args) (create, verbose) =
     (let usage = sbind interop_Usage (\<lambda>c. sret (Inl c));
          incorrect = sbind (Output ''Flags incorrectly formatted'') (\<lambda>u. usage) in
      if arg = ''display'' then sbind (set_logger False) (\<lambda>u. sbind new_runner (\<lambda>r. sbind (DisplayTests r) (\<lambda>u. sret (Inl None))))
      else if arg = ''options'' then sbind (set_logger False) (\<lambda>u. sbind new_runner (\<lambda>r. sbind (DisplayOptions r) (\<lambda>u. sret (Inl None))))
      else if take 2 arg \<noteq> ''--'' then usage
      else let arg' = drop 2 arg in
        if arg' \<in> {''help'', ''h''} then usage
        else case split_on (CHR ''='') arg' of
            [flag, val] \<Rightarrow>
              (if flag = ''create'' then interop_args args (val, verbose)
               else if flag = ''verbose'' then interop_args args (create, val)
               else incorrect)
          | _ \<Rightarrow> incorrect)"

definition interop_main :: "host \<Rightarrow> string list \<Rightarrow> (iworld, exn, int option) st" where
  "interop_main H argv = sbind (interop_args argv (''y'', ''n'')) (\<lambda>res. case res of
       Inl c \<Rightarrow> sret c
     | Inr (create, verbose) \<Rightarrow>
         if create \<notin> {''y'', ''n''} \<or> verbose \<notin> {''y'', ''n''} then interop_Usage
         else sbind (set_logger (verbose = ''y'')) (\<lambda>u. sbind new_runner (\<lambda>r.
           sbind (if create = ''y'' then sbind (Output ''Creating Keys'') (\<lambda>u. CreateKeys H r) else sret ()) (\<lambda>u.
           sbind (Output ''Generating Data'') (\<lambda>u. sbind (SetupInteropTests H r) (\<lambda>u.
           sbind (Output ''Running Tests'') (\<lambda>u. sbind (RunTests H r) (\<lambda>u. sret None))))))))"

end
