(* ===== verification/AddKeySpec.thy ===== *)
theory AddKeySpec
  imports KeyczartSpec
begin

text \<open>
  \<open>keyczart create\<close> and \<open>keyczart addkey\<close> on files: a created key set is empty, an added version is
  on disk with the status asked for, and what the generators make can always be read back.
\<close>

lemma set_AList_update: "set (AList.update k v d) \<subseteq> insert (k, v) (set d)"
  by (induction d) auto

lemma sbind_Inr_conv: "sbind m f s = (Inr y, s') \<longleftrightarrow> (\<exists>x s1. m s = (Inr x, s1) \<and> f x s1 = (Inr y, s'))"
  by (auto simp: sbind_def split: prod.splits sum.splits)

lemma stmap_Inr_conv: "stmap f m s = (Inr y, s') \<longleftrightarrow> (\<exists>x. m s = (Inr x, s') \<and> y = f x)"
  by (auto simp: stmap_def sbind_Inr_conv sret_def)

subsection \<open>Generated keys read back\<close>

text \<open>
  What the generators of PyCrypto return: key objects with a private part, of numbers that are not
  negative.
\<close>

definition generator_laws :: "crypto \<Rightarrow> bool" where
  "generator_laws L \<longleftrightarrow>
     (\<forall>n r key r'. rsa_generate L n r = (Inr key, r') \<longrightarrow> (\<exists>d p q u. rsa_priv key = Some (d, p, q, u)
        \<and> 0 \<le> d \<and> 0 \<le> p \<and> 0 \<le> q \<and> 0 \<le> u) \<and> 0 \<le> rsa_n key \<and> 0 \<le> rsa_e key) \<and>
     (\<forall>n r key r'. dsa_generate L n r = (Inr key, r') \<longrightarrow> (\<exists>x. dsa_x key = Some x \<and> 0 \<le> x)
        \<and> 0 \<le> dsa_y key \<and> 0 \<le> dsa_g key \<and> 0 \<le> dsa_p key \<and> 0 \<le> dsa_q key)"

lemma demo_generator_laws: "generator_laws demo_crypto"
  by (simp add: generator_laws_def demo_crypto_def sret_def)

lemma HmacKey_Generate_ok:
  assumes "HmacKey_Generate sz r = (Inr k, r')" and "IsValidSize HMAC_SHA1 sz"
  shows "IsValidSize HMAC_SHA1 (hmac_size k)"
  using assms by (auto simp: HmacKey_Generate_def sbind_def sret_def Let_def HmacKey_init_def SetSize_valid
      split: sum.splits prod.splits)

lemma Generate_ok:
  assumes g: "Generate L t sz r = (Inr k, r')" and v: "IsValidSize t sz"
    and L: "t \<in> {RSA_PRIV, DSA_PRIV} \<Longrightarrow> generator_laws L"
  shows "key_ok k"
proof (cases t)
  case AES
  with v obtain a r1 where a: "AesKey_Generate sz r = (Inr a, r1)" "aes_size a = sz"
    using AesKey_Generate_ok by blast
  have "IsValidSize HMAC_SHA1 (hmac_size (aes_hmac_key a))"
    using a(1) HmacKey_Generate_ok
    by (auto simp: AesKey_Generate_def sbind_def slift_def Let_def AesKey_init_def IsValidSize_def default_size_def
        split: sum.splits prod.splits if_splits)
  with AES g v a show ?thesis by (auto simp: stmap_Inr_conv)
next
  case HMAC_SHA1
  with g v HmacKey_Generate_ok show ?thesis by (auto simp: stmap_Inr_conv)
next
  case RSA_PRIV
  with g obtain key r1 k1 where k: "rsa_generate L sz r = (Inr key, r1)" "RsaPrivateKey_of key sz = Inr k1" "k = RsaPrivateKey k1"
    by (auto simp: stmap_Inr_conv RsaPrivateKey_Generate_def sbind_Inr_conv slift_def)
  with L RSA_PRIV obtain d p q u where "rsa_priv key = Some (d, p, q, u)" "0 \<le> d" "0 \<le> p" "0 \<le> q" "0 \<le> u"
    "0 \<le> rsa_n key" "0 \<le> rsa_e key" unfolding generator_laws_def by blast
  with k v RSA_PRIV RsaPrivateKey_of_ok(1) show ?thesis by simp
next
  case DSA_PRIV
  with g obtain key r1 k1 where k: "dsa_generate L sz r = (Inr key, r1)" "DsaPrivateKey_of key sz = Inr k1" "k = DsaPrivateKey k1"
    by (auto simp: stmap_Inr_conv DsaPrivateKey_Generate_def sbind_Inr_conv slift_def)
  with L DSA_PRIV obtain x where "dsa_x key = Some x" "0 \<le> x" "0 \<le> dsa_y key" "0 \<le> dsa_g key" "0 \<le> dsa_p key" "0 \<le> dsa_q key"
    unfolding generator_laws_def by blast
  with k v DSA_PRIV DsaPrivateKey_of_ok(1) show ?thesis by simp
qed (use g in \<open>simp_all add: sraise_def\<close>)

lemma GenKey_ok:
  assumes "GenKey L t size0 r = (Inr k, r')" and "t \<in> {RSA_PRIV, DSA_PRIV} \<Longrightarrow> generator_laws L"
  shows "key_ok k"
  using assms by (auto simp: GenKey_def Let_def split: if_splits prod.splits sum.splits intro: Generate_ok)

subsection \<open>Adding to a complete key set\<close>

text \<open>The key that the loop ends with is one that the generator made.\<close>

lemma fresh_key_generated:
  assumes "fresh_key L t sz keys ent = Some (Inr k, ent')"
  shows "\<exists>r r'. GenKey L t (Some sz) r = (Inr k, r')"
proof -
  have first: "\<exists>r r'. GenKey L t (Some sz) r = (Inr k, r')"
    if "\<not> collides keys (gen_run L t sz ent 0)" "fresh_key L t sz keys ent = Some (Inr k, ent')" for ent
  proof -
    have "fst (GenKey L t (Some sz) ent) = Inr k"
      using that fresh_key_step [of L t sz keys ent] by (auto simp: ebind_Inr_conv dest!: sym [of _ "ebind _ _"])
    then show ?thesis by (metis prod.collapse)
  qed
  obtain i where "\<not> collides keys (gen_run L t sz ent i)"
    using fresh_key_stuck [of keys L t sz ent] assms by auto
  then show ?thesis using assms
  proof (induction i arbitrary: ent)
    case (Suc i)
    show ?case
    proof (cases "collides keys (gen_run L t sz ent 0)")
      case True
      then show ?thesis using Suc fresh_key_step [of L t sz keys ent] by simp
    next
      case False
      then show ?thesis using Suc.prems(2) by (rule first)
    qed
  qed (rule first)
qed

lemma AddVersion_complete:
  assumes c: "kz_complete kz" and add: "AddVersion L s size0 (kz, ent) = Some (Inr (), kz', ent')"
    and L: "kmd_type (kz_metadata kz) \<in> {RSA_PRIV, DSA_PRIV} \<Longrightarrow> generator_laws L"
  shows "kz_complete kz'" and "purpose (kz_metadata kz') = purpose (kz_metadata kz)"
    and "kmd_type (kz_metadata kz') = kmd_type (kz_metadata kz)"
proof -
  let ?t = "kmd_type (kz_metadata kz)"
  let ?sz = "case size0 of None \<Rightarrow> kz_default_size kz | Some n \<Rightarrow> n"
  have inv: "kz_inv kz" "hash_ok kz" "types_ok kz" and ok: "\<forall>(i, k) \<in> set (kz_keys kz). key_ok k"
    using c by (simp_all add: kz_complete_def)
  have v: "IsValidSize ?t ?sz" using add AddVersion_invalid [of kz size0 L s ent] by fastforce
  obtain k e where f: "fresh_key L ?t ?sz (kz_keys kz) ent = Some (Inr k, e)"
    and a: "AddKey (length (kz_heap kz)) k (new_version s kz) = (Inr (), kz')"
    using add by (auto simp: AddVersion_valid [OF v] split: option.splits sum.splits prod.splits)
  obtain h where k: "key_type_of k = ?t" "key_hash_id k = Inr h" using fresh_key_spec [OF f] by blast
  have kok: "key_ok k" using fresh_key_generated [OF f] GenKey_ok L by blast
  have keys: "kz_keys kz' = AList.update (HashId h) k (AList.update (VersionId (length (kz_heap kz))) k (kz_keys kz))"
    and md: "kz_metadata kz' = snd (kmd_AddVersion (kz_heap (new_version s kz)) (length (kz_heap kz)) (kz_metadata (new_version s kz)))"
    using AddKey_ok [OF k(2), of "length (kz_heap kz)" "new_version s kz"] a by auto
  have sub: "set (kz_keys kz') \<subseteq> {(HashId h, k), (VersionId (length (kz_heap kz)), k)} \<union> set (kz_keys kz)"
    unfolding keys using set_AList_update [of "HashId h" k] set_AList_update [of "VersionId (length (kz_heap kz))" k "kz_keys kz"] by blast
  have t: "kmd_type (kz_metadata kz') = ?t" and "purpose (kz_metadata kz') = purpose (kz_metadata kz)"
    by (simp_all add: md kmd_AddVersion_def Let_def)
  then show "purpose (kz_metadata kz') = purpose (kz_metadata kz)"
    and "kmd_type (kz_metadata kz') = kmd_type (kz_metadata kz)" by simp_all
  have "types_ok kz'" using sub inv(3) k(1) t by (fastforce simp: types_ok_def)
  moreover have "\<forall>(i, k) \<in> set (kz_keys kz'). key_ok k" using sub ok kok by fastforce
  ultimately show "kz_complete kz'"
    using AddVersion_inv [OF inv(1) add] AddVersion_hash_ok [OF inv(1,2) add] by (simp add: kz_complete_def)
qed

subsection \<open>\<open>addkey\<close> on disk\<close>

lemma addkey_on_disk:
  assumes mock: "w_mock w = None" and dir: "loc \<in> set (fs_dirs (w_fs w))" and o: "loc_open (w_fs w) loc"
    and rd: "Generic_Read L crypter (w_fs w) loc = Inr kz" and c: "kz_complete kz"
    and crypter: "crypter_ok L crypter"
    and L: "kmd_type (kz_metadata kz) \<in> {RSA_PRIV, DSA_PRIV} \<Longrightarrow> generator_laws L"
  shows "case AddVersion L s (if n = -1 then None else Some n) (kz, w_ent w) of
       None \<Rightarrow> AddKey_cmd L (Some loc) s crypter n w = None
     | Some (Inl e, kz1, ent) \<Rightarrow> AddKey_cmd L (Some loc) s crypter n w = Some (Inl e, w\<lparr>w_ent := ent\<rparr>)
     | Some (Inr u, kz1, ent) \<Rightarrow> \<exists>w' kz'. AddKey_cmd L (Some loc) s crypter n w = Some (Inr (), w')
         \<and> Generic_Read L crypter (w_fs w') loc = Inr kz'
         \<and> kz_statuses kz' = spec_add (max_version_number kz + 1) s (kz_statuses kz) \<and> kz_inv kz'
         \<and> kmd_type (kz_metadata kz') = kmd_type (kz_metadata kz) \<and> purpose (kz_metadata kz') = purpose (kz_metadata kz)
         \<and> encrypted (kz_metadata kz') = (crypter \<noteq> None)"
proof -
  let ?add = "AddVersion L s (if n = -1 then None else Some n) (kz, w_ent w)"
  have start: "AddKey_cmd L (Some loc) s crypter n w = (case ?add of
         None \<Rightarrow> None
       | Some (Inl e, kz1, ent) \<Rightarrow> Some (Inl e, w\<lparr>w_ent := ent\<rparr>)
       | Some (Inr u, kz1, ent) \<Rightarrow> UpdateGenericKeyczar L kz1 (Some loc) crypter (w\<lparr>w_ent := ent\<rparr>))"
    using CreateGenericKeyczar_disk [OF mock, of L loc crypter] rd
    by (auto simp: AddKey_cmd_def pbind_def split: option.split prod.split sum.split)
  show ?thesis
  proof (cases ?add)
    case (Some res)
    obtain x kz1 ent where res: "res = (x, kz1, ent)" by (cases res)
    show ?thesis
    proof (cases x)
      case (Inr u)
      have add: "?add = Some (Inr (), kz1, ent)" using Some res Inr by simp
      have "kz_inv kz" using c by (simp add: kz_complete_def)
      then have "kz_statuses kz1 = spec_add (max_version_number kz + 1) s (kz_statuses kz)"
        using AddVersion_success [OF _ add] by blast
      moreover have "kmd_type (kz_metadata kz1) = kmd_type (kz_metadata kz)"
        using AddVersion_complete(3) [OF c add L] .
      moreover have "purpose (kz_metadata kz1) = purpose (kz_metadata kz)"
        using AddVersion_complete(2) [OF c add L] .
      moreover have "\<exists>w' kz'. UpdateGenericKeyczar L kz1 (Some loc) crypter (w\<lparr>w_ent := ent\<rparr>) = Some (Inr (), w')
          \<and> Generic_Read L crypter (w_fs w') loc = Inr kz' \<and> kz_statuses kz' = kz_statuses kz1 \<and> kz_inv kz'
          \<and> kmd_type (kz_metadata kz') = kmd_type (kz_metadata kz1) \<and> purpose (kz_metadata kz') = purpose (kz_metadata kz1)
          \<and> encrypted (kz_metadata kz') = (crypter \<noteq> None)"
        by (rule update_on_disk_meta [OF _ _ AddVersion_complete(1) [OF c add L] _ crypter]) (use mock dir o in simp_all)
      ultimately show ?thesis using start add by simp
    qed (use start Some res in simp)
  qed (use start in simp)
qed

subsection \<open>\<open>create\<close> on disk\<close>

lemma create_on_disk:
  assumes mock: "w_mock w = None" and dir: "loc \<in> set (fs_dirs (w_fs w))" and o: "loc_open (w_fs w) loc"
    and new: "\<not> path_exists (w_fs w) (path_join loc ''meta'')" and m: "metadata_for name p asymmetric = Inr kmd"
  shows "\<exists>w' kz. Create (Some loc) name p asymmetric w = Some (Inr (), w') \<and> w_mock w' = None \<and> w_ent w' = w_ent w
    \<and> fs_dirs (w_fs w') = fs_dirs (w_fs w) \<and> fs_opens (w_fs w') = fs_opens (w_fs w)
    \<and> GenericKeyczar_Read (w_fs w') loc = Inr kz \<and> kz_complete kz \<and> kz_keys kz = [] \<and> kz_statuses kz = Map.empty
    \<and> kmd_type (kz_metadata kz) = kmd_type kmd \<and> purpose (kz_metadata kz) = purpose kmd
    \<and> kz_default_size kz = default_size (kmd_type kmd) \<and> max_version_number kz = 0"
proof -
  have "version_dict kmd = []" and enc: "encrypted kmd = False"
    using m by (auto simp: metadata_for_def KeyMetadata_init_def split: if_splits)
  then have "kmd_ok [] kmd" by (simp add: kmd_ok_def kmd_versions_def)
  from KeyMetadata_Read_str [OF this, of "[]"] obtain mtext kmd' h where
    mt: "KeyMetadata_str [] kmd = Inr mtext" "KeyMetadata_Read mtext [] = (Inr kmd', h)" "kmd_ok h kmd'"
    and view: "kmd_view h kmd' = kmd_view [] kmd" by blast
  have kmd': "kmd_type kmd' = kmd_type kmd" "purpose kmd' = purpose kmd" "encrypted kmd' = False" "kmd_versions kmd' = []"
    using view enc \<open>version_dict kmd = []\<close> by (auto simp: kmd_view_def kmd_versions_def)
  let ?f = "path_join loc ''meta''"
  have "fs_opens (w_fs w) ?f" "?f \<notin> set (fs_dirs (w_fs w))" using o by (simp_all add: loc_open_def)
  then obtain f where wr: "WriteFile mtext ?f (w_fs w) = (Inr (), f)" "fs_opens f = fs_opens (w_fs w)" "fs_dirs f = fs_dirs (w_fs w)"
    using WriteFile_ok by blast
  define kz where "kz = \<lparr>kz_heap = h, kz_metadata = kmd', kz_keys = [], kz_primary = None,
      kz_default_size = default_size (kmd_type kmd')\<rparr>"
  have "Create (Some loc) name p asymmetric w = Some (Inr (), w\<lparr>w_fs := f\<rparr>)"
    using mock dir new m mt(1) wr(1)
    by (simp add: Create_def prog_defs CreateWriter_def FileWriter_CreateWriter_def path_exists_def
        FileWriter_WriteMetadata_def st_defs Let_def)
  moreover have "GenericKeyczar_Read f loc = Inr kz"
    using dir wr(3) ReadFile_WriteFile [OF wr(1), of ?f] mt(2) kmd'
    by (simp add: generic_read Keyczar_init_def FileReader_def kz_def)
  moreover have "kz_complete kz"
    using mt(3) kmd'(4)
    by (auto simp: kz_complete_def kz_inv_def dict_ok_def primary_ok_def types_ok_def hash_ok_def kz_def kz_versions_def)
  moreover have "kz_statuses kz = Map.empty"
    using kmd'(4) mt(3)
    by (auto simp: kz_statuses_def kz_def fun_eq_iff find_GetVersion kmd_versions_def kmd_GetVersion_def)
  moreover have "max_version_number kz = 0"
    by (simp add: max_version_number_def kz_def kz_versions_def)
  moreover have "kz_keys kz = []" "kmd_type (kz_metadata kz) = kmd_type kmd" "purpose (kz_metadata kz) = purpose kmd"
    "kz_default_size kz = default_size (kmd_type kmd)" using kmd' by (simp_all add: kz_def)
  ultimately show ?thesis using mock wr by (intro exI [of _ "w\<lparr>w_fs := f\<rparr>"] exI [of _ kz]) simp
qed

subsection \<open>The first key\<close>

lemma GenKey_symmetric:
  assumes t: "t \<in> {AES, HMAC_SHA1}" and v: "IsValidSize t sz"
  shows "\<exists>k r' h. GenKey L t (Some sz) r = (Inr k, r') \<and> key_hash_id k = Inr h"
proof (cases "t = AES")
  case True
  with v obtain k r' where k: "AesKey_Generate sz r = (Inr k, r')" "aes_ok k"
    using AesKey_Generate_ok by blast
  obtain kb hb where "aes_key_bytes k = Inr kb" "hmac_key_bytes (aes_hmac_key k) = Inr hb" by (rule aes_okE [OF k(2)])
  then have "\<exists>h. key_hash_id (AesKey k) = Inr h" by (simp add: aes_Hash_def Let_def)
  moreover have "GenKey L t (Some sz) r = (Inr (AesKey k), r')"
    using True v k(1) by (simp add: GenKey_def stmap_def sbind_def sret_def)
  ultimately show ?thesis by blast
next
  case False
  let ?kb = "map r [0..<nat (sz div 8)]"
  let ?k = "HmacKey_init (Base64WSEncode ?kb) sz"
  have h: "t = HMAC_SHA1" "0 \<le> sz div 8" using False t v by (auto simp: IsValidSize_def)
  then have "GenKey L t (Some sz) r = (Inr (HmacKey ?k), \<lambda>i. r (i + nat (sz div 8)))"
    using v by (simp add: GenKey_def stmap_def HmacKey_Generate_def sbind_def sret_def Let_def)
  moreover have "\<exists>h. hmac_Hash ?k = Inr h"
    by (simp add: hmac_Hash_def hmac_key_bytes_def HmacKey_init_def key_bytes_def)
  ultimately show ?thesis by (metis key_hash_id.simps(2))
qed

lemma first_key:
  assumes "kz_keys kz = []" and t: "kmd_type (kz_metadata kz) \<in> {AES, HMAC_SHA1}"
    and v: "IsValidSize (kmd_type (kz_metadata kz)) sz"
  shows "\<exists>kz' ent'. AddVersion L s (Some sz) (kz, ent) = Some (Inr (), kz', ent')"
proof -
  let ?t = "kmd_type (kz_metadata kz)"
  obtain k r' h where k: "GenKey L ?t (Some sz) ent = (Inr k, r')" "key_hash_id k = Inr h"
    using GenKey_symmetric [OF t v] by blast
  have "fresh_key L ?t sz (kz_keys kz) ent = Some (Inr k, r')"
    by (subst fresh_key_step) (simp add: assms(1) collides_def k)
  moreover obtain kz' where "AddKey (length (kz_heap kz)) k (new_version s kz) = (Inr (), kz')"
    using AddKey_ok [OF k(2)] by blast
  ultimately show ?thesis using v by (simp add: AddVersion_valid)
qed

subsection \<open>The flags\<close>

lemma split_on_none: "c \<notin> set s \<Longrightarrow> split_on c s = [s]"
  by (induction s) auto

lemma flag_names:
  "GetFlag ''location'' = Inr F_LOCATION" "GetFlag ''name'' = Inr F_NAME" "GetFlag ''size'' = Inr F_SIZE"
  "GetFlag ''status'' = Inr F_STATUS" "GetFlag ''purpose'' = Inr F_PURPOSE" "GetFlag ''destination'' = Inr F_DESTINATION"
  by (simp_all add: GetFlag_def flags_def)

lemma str_int_chars: "c \<in> set (str_int n) \<Longrightarrow> is_digit c \<or> c = CHR ''-''"
  using str_nat_digits by (auto simp: str_int_def list_all_iff split: if_splits)

lemma not_digits: "\<not> is_digit CHR ''=''" "\<not> is_digit CHR ''-''" "\<not> is_digit CHR ''+''"
  by (simp_all add: is_digit_def of_char_def)

lemma str_int_no_equals: "CHR ''='' \<notin> set (str_int n)"
  using str_int_chars [of "CHR ''=''" n] not_digits by auto

lemma digit_not_space: "is_digit c \<Longrightarrow> \<not> py_space c"
  by (auto simp: is_digit_def py_space_def of_char_def)

lemma py_int_str_int: "py_int (str_int n) = Inr n"
proof -
  have sp: "\<forall>c \<in> set (str_int n). \<not> py_space c"
    using str_int_chars digit_not_space by (fastforce simp: py_space_def of_char_def)
  have strip: "dropWhile py_space s = s" if "\<forall>c \<in> set s. \<not> py_space c" for s
    using that by (cases s) auto
  have s: "py_strip (str_int n) = str_int n"
    using sp by (simp add: py_strip_def strip)
  have nat: "py_nat (str_nat k) = Inr (int k)" for k by (simp add: py_nat_def str_nat_digits)
  show ?thesis
  proof (cases "n < 0")
    case True
    then show ?thesis using nat [of "nat (- n)"] s by (simp add: py_int_def str_int_def Let_def)
  next
    case False
    then have e: "str_int n = str_nat (nat n)" by (simp add: str_int_def)
    obtain c cs where c: "str_nat (nat n) = c # cs" using str_nat_nonempty by (meson neq_Nil_conv)
    have "is_digit c" using str_nat_digits [of "nat n"] c by simp
    then have "c \<noteq> CHR ''-''" "c \<noteq> CHR ''+''" using not_digits by auto
    then show ?thesis using nat [of "nat n"] s e c False by (simp add: py_int_def Let_def)
  qed
qed

lemma upper_primary: "map to_upper ''primary'' = ''PRIMARY''"
  by code_simp

lemma GetStatus_PRIMARY: "GetStatus ''PRIMARY'' = Inr PRIMARY"
  by (simp add: GetStatus_iff)

text \<open>What the tool makes of the command lines for a new key set and for a primary key.\<close>

lemma main_create:
  assumes "CHR ''='' \<notin> set name" and "CHR ''='' \<notin> set loc"
    and "(p, pp) \<in> {(''crypt'', DECRYPT_AND_ENCRYPT), (''sign'', SIGN_AND_VERIFY)}"
  shows "main L [''create'', ''--name='' @ name, ''--location='' @ loc, ''--purpose='' @ p] =
    Create (Some loc) name (Some pp) None"
proof -
  have p: "CHR ''='' \<notin> set p" using assms(3) by auto
  have "parse_flags [''create'', ''--name='' @ name, ''--location='' @ loc, ''--purpose='' @ p] [] =
      pret [(F_NAME, name), (F_LOCATION, loc), (F_PURPOSE, p)]"
    by (simp add: split_on_none assms(1,2) p flag_names pbind_def plift_def)
  then show ?thesis
    using assms(3)
    by (auto simp: main_def GetCommand_def commands_def pbind_def plift_def pret_def number_flags_def int_flag_def
        run_command_def purpose_flag_def Let_def fun_eq_iff simp del: parse_flags.simps)
qed

lemma main_addkey:
  assumes "CHR ''='' \<notin> set loc"
  shows "main L [''addkey'', ''--status=primary'', ''--size='' @ str_int n, ''--location='' @ loc] =
    AddKey_cmd L (Some loc) PRIMARY None n"
proof -
  have "parse_flags [''addkey'', ''--status=primary'', ''--size='' @ str_int n, ''--location='' @ loc] [] =
      pret [(F_STATUS, ''primary''), (F_SIZE, str_int n), (F_LOCATION, loc)]"
    by (simp add: split_on_none assms str_int_no_equals flag_names pbind_def plift_def)
  then show ?thesis
    by (auto simp: main_def GetCommand_def commands_def pbind_def plift_def pret_def number_flags_def int_flag_def
        run_command_def py_int_str_int upper_primary [simplified] GetStatus_PRIMARY local_def Let_def fun_eq_iff simp del: parse_flags.simps)
qed

text \<open>A key set made and given its first key on the command line, as far as nothing can fail.\<close>

lemma create_and_add:
  assumes mock: "w_mock w = None" and dir: "loc \<in> set (fs_dirs (w_fs w))" and o: "loc_open (w_fs w) loc"
    and new: "\<not> path_exists (w_fs w) (path_join loc ''meta'')"
    and eq: "CHR ''='' \<notin> set name" "CHR ''='' \<notin> set loc"
    and p: "(p, pp, t) \<in> {(''crypt'', DECRYPT_AND_ENCRYPT, AES), (''sign'', SIGN_AND_VERIFY, HMAC_SHA1)}"
    and v: "IsValidSize t sz"
  shows "\<exists>w1 w2 kz k. main L [''create'', ''--name='' @ name, ''--location='' @ loc, ''--purpose='' @ p] w = Some (Inr (), w1)
    \<and> main L [''addkey'', ''--status=primary'', ''--size='' @ str_int sz, ''--location='' @ loc] w1 = Some (Inr (), w2)
    \<and> GenericKeyczar_Read (w_fs w2) loc = Inr kz \<and> kz_inv kz \<and> kz_statuses kz = [1 \<mapsto> PRIMARY]
    \<and> kmd_type (kz_metadata kz) = t \<and> purpose (kz_metadata kz) = pp \<and> primary_key kz = Inr k"
proof -
  define kmd where "kmd = KeyMetadata_init name pp t False"
  have m: "metadata_for name (Some pp) None = Inr kmd" using p by (auto simp: metadata_for_def kmd_def)
  have kt: "kmd_type kmd = t" "purpose kmd = pp" by (simp_all add: kmd_def KeyMetadata_init_def)
  from create_on_disk [OF mock dir o new m] obtain w1 kz0 where c: "Create (Some loc) name (Some pp) None w = Some (Inr (), w1)"
    "w_mock w1 = None" "fs_dirs (w_fs w1) = fs_dirs (w_fs w)" "fs_opens (w_fs w1) = fs_opens (w_fs w)"
    "GenericKeyczar_Read (w_fs w1) loc = Inr kz0" "kz_complete kz0" "kz_keys kz0 = []" "kz_statuses kz0 = Map.empty"
    "kmd_type (kz_metadata kz0) = t" "purpose (kz_metadata kz0) = pp" "max_version_number kz0 = 0"
    using kt by blast
  have t: "t \<in> {AES, HMAC_SHA1}" using p by auto
  then obtain kz1 ent where a: "AddVersion L PRIMARY (Some sz) (kz0, w_ent w1) = Some (Inr (), kz1, ent)"
    using first_key [of kz0 sz L PRIMARY "w_ent w1"] c(7,9) v by auto
  have sz: "sz \<noteq> -1" using v t by (auto simp: IsValidSize_def)
  have "loc \<in> set (fs_dirs (w_fs w1))" "loc_open (w_fs w1) loc" using dir o c(3,4) by (simp_all add: loc_open_def)
  from addkey_on_disk [where crypter = None and L = L and s = PRIMARY and n = sz, OF c(2) this _ c(6)] a sz t c(5,9) obtain w2 kz where
    k: "AddKey_cmd L (Some loc) PRIMARY None sz w1 = Some (Inr (), w2)" "GenericKeyczar_Read (w_fs w2) loc = Inr kz"
    "kz_statuses kz = spec_add (max_version_number kz0 + 1) PRIMARY (kz_statuses kz0)" "kz_inv kz"
    "kmd_type (kz_metadata kz) = t" "purpose (kz_metadata kz) = pp"
    using c(10) by auto
  have s: "kz_statuses kz = [1 \<mapsto> PRIMARY]"
    by (simp add: k(3) c(8,11) spec_add_def demote_old_def fun_eq_iff)
  then obtain x where "primary_key kz = Inr x" using statuses_primary_key [OF k(4), of 1] by auto
  moreover have "main L [''create'', ''--name='' @ name, ''--location='' @ loc, ''--purpose='' @ p] w = Some (Inr (), w1)"
    using main_create [OF eq, of p pp L] p c(1) by auto
  moreover have "main L [''addkey'', ''--status=primary'', ''--size='' @ str_int sz, ''--location='' @ loc] w1 = Some (Inr (), w2)"
    using main_addkey [OF eq(2), of L sz] k(1) by simp
  ultimately show ?thesis using k(2,4,5,6) s by blast
qed

end
