(* ===== verification/InteropSpec.thy ===== *)
theory InteropSpec
  imports Interop AddKeySpec
begin

text \<open>
  What the driver of the interoperability tests does: which combinations it generates, that it
  respects the list of excluded tests, the commands it sends to \<open>keyczart\<close>, and the directories
  it prepares.
\<close>

subsection \<open>What a loop keeps\<close>

text \<open>\<open>m\<close> keeps \<open>P\<close>, whether it returns or raises.\<close>

definition keeps :: "('s \<Rightarrow> bool) \<Rightarrow> ('s, exn, 'a) st \<Rightarrow> bool" where
  "keeps P m \<longleftrightarrow> (\<forall>s. P s \<longrightarrow> P (snd (m s)))"

named_theorems keeps_intros \<open>programs that keep a property of the state\<close>

lemma keeps_ret [keeps_intros]: "keeps P (sret x)" "keeps P (sraise e)" "keeps P (slift r)"
  by (simp_all add: keeps_def st_defs)

lemma keeps_bind:
  assumes "keeps P m" and "\<And>x s s'. m s = (Inr x, s') \<Longrightarrow> keeps P (f x)"
  shows "keeps P (sbind m f)"
  unfolding keeps_def
proof (intro allI impI)
  fix s assume "P s"
  obtain r s1 where m: "m s = (r, s1)" by fastforce
  with \<open>P s\<close> assms(1) have "P s1" by (auto simp: keeps_def)
  then show "P (snd (sbind m f s))"
    using assms(2) [of s] m by (cases r) (auto simp: sbind_def keeps_def)
qed

lemma keeps_lift_bind:
  assumes "\<And>x. r = Inr x \<Longrightarrow> keeps P (f x)"
  shows "keeps P (sbind (slift r) f)"
  by (rule keeps_bind) (auto simp: slift_def keeps_def intro: assms [unfolded keeps_def, rule_format])

lemma keeps_for_in:
  assumes "\<And>x. x \<in> set xs \<Longrightarrow> keeps P (body x)"
  shows "keeps P (for_in xs body)"
  using assms by (induction xs) (auto intro!: keeps_bind keeps_ret)

lemma keeps_if:
  assumes "c \<Longrightarrow> keeps P m" and "\<not> c \<Longrightarrow> keeps P m'"
  shows "keeps P (if c then m else m')"
  using assms by simp

lemma keeps_modify: "(\<And>s. P s \<Longrightarrow> P (f s)) \<Longrightarrow> keeps P (smodify f)"
  by (simp add: keeps_def smodify_def)

lemma keeps_self: "(\<And>v. keeps P (m v)) \<Longrightarrow> keeps P (\<lambda>s. m s s)"
  by (simp add: keeps_def)

subsection \<open>Excluded tests\<close>

text \<open>A combination is excluded when one of the configured entries matches it.\<close>

definition excluded :: "runner \<Rightarrow> string \<Rightarrow> string \<Rightarrow> string \<Rightarrow> options \<Rightarrow> bool" where
  "excluded r implementation operation algorithm options \<longleftrightarrow>
     (\<exists>ts. rn_ignored_tests r = JList ts
       \<and> (\<exists>t \<in> set ts. ignored_by implementation operation algorithm options t = Inr True))"

lemma check_ignored_result:
  "check_ignored i op a opts ts w = (Inr b, w') \<Longrightarrow>
     b = (\<exists>t \<in> set ts. ignored_by i op a opts t = Inr True) \<and> (\<not> b \<longrightarrow> w' = w)"
proof (induction ts)
  case (Cons t ts)
  then show ?case
    by (auto simp: sbind_def slift_def sret_def Collect_event_def smodify_def split: sum.splits if_splits prod.splits)
qed (simp add: sret_def)

lemma IsException_result:
  assumes "IsException r i op a opts w = (Inr b, w')"
  shows "b = excluded r i op a opts" and "\<not> b \<Longrightarrow> w' = w"
proof -
  obtain ts where ts: "rn_ignored_tests r = JList ts" "check_ignored i op a opts ts w = (Inr b, w')"
    using assms by (cases "rn_ignored_tests r") (auto simp: IsException_def sbind_def slift_def)
  from check_ignored_result [OF ts(2)] show "b = excluded r i op a opts" "\<not> b \<Longrightarrow> w' = w"
    by (auto simp: excluded_def ts(1))
qed

text \<open>All that the test for an exclusion changes is the logger.\<close>

lemma keeps_check_ignored:
  assumes "\<And>m d. keeps P (Collect_event m d)"
  shows "keeps P (check_ignored i op a opts ts)"
proof (induction ts)
  case (Cons t ts)
  then show ?case
    by (auto intro!: keeps_lift_bind keeps_if assms keeps_bind [OF assms] keeps_ret)
qed (simp add: keeps_ret)

lemma keeps_IsException:
  assumes "\<And>m d. keeps P (Collect_event m d)"
  shows "keeps P (IsException r i op a opts)"
  unfolding IsException_def by (intro keeps_lift_bind keeps_check_ignored assms)

subsection \<open>What the generators yield\<close>

lemma keeps_GetGenerateKeysets:
  assumes "\<And>ks. ks_key_set_options ks = opts \<Longrightarrow> ks_purpose ks \<in> {keytype, ''encrypt''} \<Longrightarrow> keeps P (body ks)"
  shows "keeps P (GetGenerateKeysets algorithms opts keytype body)"
  unfolding GetGenerateKeysets_def
  by (intro keeps_lift_bind keeps_for_in keeps_if keeps_bind keeps_ret assms) simp_all

definition listed :: "exn + 'a list \<Rightarrow> 'a \<Rightarrow> bool" where
  "listed r x \<longleftrightarrow> (\<exists>xs. r = Inr xs \<and> x \<in> set xs)"

lemma keeps_for_listed:
  assumes "\<And>x. listed r x \<Longrightarrow> keeps P (body x)"
  shows "keeps P (sbind (slift r) (\<lambda>xs. for_in xs body))"
  using assms by (intro keeps_lift_bind keeps_for_in) (simp add: listed_def)

text \<open>The combinations that \<open>_GenerateAll\<close> and \<open>_TestAll\<close> are meant to yield.\<close>

definition generates :: "runner \<Rightarrow> string \<Rightarrow> string \<Rightarrow> test_keyset \<Rightarrow> options \<Rightarrow> bool" where
  "generates r implementation operation keyset opts \<longleftrightarrow>
     listed (names_of (rn_implementations r)) implementation \<and> listed (names_of (rn_operations r)) operation
     \<and> listed (Options r operation keyset ''generateOptions'') opts
     \<and> \<not> excluded r implementation operation (ks_name keyset) opts"

definition tests_with :: "runner \<Rightarrow> string \<Rightarrow> test_keyset \<Rightarrow> options \<Rightarrow> string \<Rightarrow> options \<Rightarrow> bool" where
  "tests_with r operation keyset generate_options implementation opts \<longleftrightarrow>
     listed (names_of (rn_implementations r)) implementation
     \<and> (\<exists>ks. listed (GetTestKeysets (rn_algorithms r) keyset) ks \<and> listed (Options r operation ks ''testOptions'') opts)
     \<and> \<not> excluded r implementation operation (ks_name keyset) (dict_of (opts @ generate_options))"

lemma keeps_unless_excluded:
  assumes "\<And>m d. keeps P (Collect_event m d)" and "\<not> excluded r i op a opts \<Longrightarrow> keeps P m"
  shows "keeps P (sbind (IsException r i op a opts) (\<lambda>ignored. if ignored then sret () else m))"
  by (rule keeps_bind [OF keeps_IsException [OF assms(1)]])
     (auto dest: IsException_result(1) intro!: keeps_if keeps_ret assms(2))

lemma keeps_GenerateAll:
  assumes "\<And>m d. keeps P (Collect_event m d)"
    and "\<And>i op ks opts. generates r i op ks opts \<Longrightarrow> keeps P (body (i, op, ks, opts))"
  shows "keeps P (GenerateAll r body)"
  unfolding GenerateAll_def
  by (intro keeps_for_listed keeps_lift_bind keeps_GetGenerateKeysets keeps_unless_excluded assms)
     (simp add: generates_def)

lemma keeps_TestAll:
  assumes "\<And>m d. keeps P (Collect_event m d)"
    and "\<And>i opts. tests_with r op ks gopts i opts \<Longrightarrow> keeps P (body (i, opts))"
  shows "keeps P (TestAll r op ks gopts body)"
  unfolding TestAll_def
  by (intro keeps_for_listed keeps_lift_bind keeps_unless_excluded assms) (auto simp: tests_with_def)

text \<open>Every test that is set up is one that is meant to be, and its arguments are what it was made for.\<close>

definition test_ok :: "runner \<Rightarrow> test_case \<Rightarrow> bool" where
  "test_ok r tc \<longleftrightarrow> (\<exists>ks. ks_name ks = tc_algorithm tc
     \<and> generates r (tc_generate_implementation tc) (tc_operation tc) ks (tc_generate_options tc)
     \<and> tests_with r (tc_operation tc) ks (tc_generate_options tc) (tc_test_implementation tc) (tc_test_options tc))"

abbreviation all_tests :: "(test_case \<Rightarrow> bool) \<Rightarrow> 'z iworld_scheme \<Rightarrow> bool" where
  "all_tests p w \<equiv> (\<forall>(n, tc) \<in> set (iw_tests w). p tc)"

lemma keeps_tests_frame:
  assumes "\<And>w. iw_tests (snd (m w)) = iw_tests w"
  shows "keeps (all_tests p) m"
  using assms by (simp add: keeps_def)

lemma tests_frame_call: "iw_tests (snd (CallImplementation H r i ps w)) = iw_tests w"
  by (auto simp: CallImplementation_def sbind_def slift_def Let_def split: sum.split prod.split proc_error.split)

lemma tests_frame_collect: "iw_tests (snd (Collect_event m d w)) = iw_tests w"
  by (simp add: Collect_event_def smodify_def)

lemma tests_frame_output: "iw_tests (snd (Output s w)) = iw_tests w"
  by (simp add: Output_def smodify_def)

lemma keeps_frames:
  "keeps (all_tests p) (CallImplementation H r i ps)" "keeps (all_tests p) (Collect_event m d)"
  "keeps (all_tests p) (Output s)"
  by (rule keeps_tests_frame, rule tests_frame_call tests_frame_collect tests_frame_output)+

lemma keeps_OutputCollection: "keeps (all_tests p) OutputCollection"
  unfolding OutputCollection_def
  by (rule keeps_self)
     (auto intro!: keeps_bind keeps_for_in keeps_modify keeps_if keeps_frames keeps_ret)

lemma SetupInteropTests_ok: "keeps (all_tests (test_ok r)) (SetupInteropTests H r)"
proof -
  have log: "keeps (all_tests (test_ok r)) (Collect_event m d)" for m d
    by (rule keeps_frames)
  show ?thesis
    unfolding SetupInteropTests_def Generate_output_def
  proof (intro keeps_bind keeps_OutputCollection keeps_GenerateAll log, clarsimp)
    fix i op ks opts
    assume g: "generates r i op ks opts"
    have reg: "keeps (all_tests (test_ok r)) (smodify (\<lambda>w. w\<lparr>iw_tests := AList.update n tc (iw_tests w)\<rparr>))"
      if "test_ok r tc" for n tc
      by (rule keeps_modify) (use that in \<open>auto dest!: subsetD [OF set_AList_update]\<close>)
    have ok: "test_ok r \<lparr>tc_output_json = out, tc_test_implementation = ti, tc_generate_implementation = i,
        tc_operation = op, tc_algorithm = ks_name ks, tc_generate_options = opts, tc_test_options = topts\<rparr>"
      if "tests_with r op ks opts ti topts" for out ti topts
      using g that by (auto simp: test_ok_def)
    show "keeps (all_tests (test_ok r)) (sbind (CallImplementation H r i js) (\<lambda>out.
        TestAll r op ks opts (\<lambda>(ti, topts). sbind (slift (join_values ''_'' opts)) (\<lambda>g.
          sbind (slift (join_values ''_'' topts)) (\<lambda>t. smodify (\<lambda>w. w\<lparr>iw_tests :=
            AList.update (test_name_for ti i op (ks_name ks) g t) \<lparr>tc_output_json = out,
               tc_test_implementation = ti, tc_generate_implementation = i, tc_operation = op,
               tc_algorithm = ks_name ks, tc_generate_options = opts, tc_test_options = topts\<rparr> (iw_tests w)\<rparr>))))))" for js
      by (intro keeps_bind keeps_frames keeps_TestAll log) (auto intro!: keeps_lift_bind reg ok)
  qed
qed

lemma SetupInteropTests_tests:
  "iw_tests w = [] \<Longrightarrow> all_tests (test_ok r) (snd (SetupInteropTests H r w))"
  using SetupInteropTests_ok [of r H, unfolded keeps_def, THEN spec, of w] by simp

subsection \<open>Directories\<close>

text \<open>Making directories changes no file and removes no directory.\<close>

definition only_adds_dirs :: "fs \<Rightarrow> fs \<Rightarrow> bool" where
  "only_adds_dirs f f' \<longleftrightarrow> fs_files f' = fs_files f \<and> fs_opens f' = fs_opens f \<and> set (fs_dirs f) \<subseteq> set (fs_dirs f')"

lemma os_mkdir_adds: "only_adds_dirs f (snd (os_mkdir loc f))"
  by (auto simp: only_adds_dirs_def os_mkdir_def)

lemma os_makedirs_leaf:
  assumes "makedirs_split loc = (head, tail)" and "\<not> (head \<noteq> [] \<and> tail \<noteq> [] \<and> \<not> path_exists f head)"
  shows "os_makedirs loc f = os_mkdir loc f"
  using assms by (subst os_makedirs.simps) auto

lemma os_makedirs_adds: "only_adds_dirs f (snd (os_makedirs loc f))"
proof (induction loc arbitrary: f rule: os_makedirs.induct)
  case (1 loc)
  show ?case
  proof (cases "makedirs_split loc")
    case (Pair head tail)
    show ?thesis
    proof (cases "head \<noteq> [] \<and> tail \<noteq> [] \<and> \<not> path_exists f head")
      case True
      obtain r f1 where m: "os_makedirs head f = (r, f1)" by fastforce
      have "only_adds_dirs f f1" using "1.IH" Pair True m by (metis snd_conv)
      with Pair True m os_mkdir_adds [of f1 loc] show ?thesis
        by (subst os_makedirs.simps) (auto simp: only_adds_dirs_def sbind_def sret_def split: sum.split)
    next
      case False
      with Pair os_mkdir_adds show ?thesis by (simp add: os_makedirs_leaf)
    qed
  qed
qed

lemma os_makedirs_result: "fst (os_makedirs loc f) \<in> {Inr (), Inl PyOSError}"
proof (induction loc arbitrary: f rule: os_makedirs.induct)
  case (1 loc)
  have mk: "fst (os_mkdir n f) \<in> {Inr (), Inl PyOSError}" for n f by (simp add: os_mkdir_def)
  show ?case
  proof (cases "makedirs_split loc")
    case (Pair head tail)
    show ?thesis
    proof (cases "head \<noteq> [] \<and> tail \<noteq> [] \<and> \<not> path_exists f head")
      case True
      obtain r f1 where m: "os_makedirs head f = (r, f1)" by fastforce
      have "r \<in> {Inr (), Inl PyOSError}" using "1.IH" Pair True m by (metis fst_conv)
      with Pair True m mk [of loc f1] show ?thesis
        by (subst os_makedirs.simps) (auto simp: sbind_def sret_def split: sum.split)
    next
      case False
      with Pair mk [of loc f] show ?thesis by (simp add: os_makedirs_leaf)
    qed
  qed
qed

text \<open>Removing the files right under a directory.\<close>

definition without_files :: "string set \<Rightarrow> fs \<Rightarrow> fs" where
  "without_files ps f = f\<lparr>fs_files := filter (\<lambda>(p, d). p \<notin> ps) (fs_files f)\<rparr>"

lemma clear_loop:
  "for_in names (\<lambda>filename f'. let file_path = path_join loc filename in
     if os_path_isfile f' file_path then os_remove file_path f' else (Inr (), f')) f
   = (Inr (), without_files (path_join loc ` set names) f)"
proof (induction names arbitrary: f)
  case Nil
  then show ?case by (simp add: sret_def without_files_def split_def)
next
  case (Cons n names)
  let ?p = "path_join loc n"
  have one: "(if os_path_isfile f ?p then os_remove ?p f else (Inr (), f)) = (Inr (), without_files {?p} f)"
  proof (cases "os_path_isfile f ?p")
    case True
    have "AList.delete ?p (fs_files f) = filter (\<lambda>(p, d). p \<notin> {?p}) (fs_files f)"
      by (auto simp: AList.delete_eq intro: filter_cong)
    with True show ?thesis by (simp add: os_path_isfile_def os_remove_def without_files_def)
  next
    case False
    then have "filter (\<lambda>(p, d). p \<notin> {?p}) (fs_files f) = fs_files f"
      by (intro filter_True) (auto simp: os_path_isfile_def image_iff)
    with False show ?thesis by (simp add: without_files_def)
  qed
  show ?case
    unfolding for_in.simps sbind_def Let_def one sum.case prod.case Cons [unfolded Let_def]
    by (simp add: without_files_def split_def conj_commute)
qed

text \<open>
  A directory that exists is emptied: no file is left right under it, every other file stays as it
  was.
\<close>

definition has_parent :: "fs \<Rightarrow> string \<Rightarrow> bool" where
  "has_parent f loc \<longleftrightarrow> (let head = fst (makedirs_split loc) in head = [] \<or> path_exists f head)"

lemma mem_map_filter: "y \<in> set (List.map_filter f xs) \<longleftrightarrow> (\<exists>x \<in> set xs. f x = Some y)"
  by (induction xs) (auto split: option.splits)

lemma name_under_join: "name_under loc p = Some n \<Longrightarrow> path_join loc n = p"
proof -
  assume a: "name_under loc p = Some n"
  define pre where "pre = path_join loc []"
  have n: "take (length pre) p = pre" "n = drop (length pre) p" "n \<noteq> []" "CHR ''/'' \<notin> set n"
    using a by (auto simp: name_under_def pre_def Let_def split: if_splits)
  have "hd n \<noteq> CHR ''/''" using hd_in_set [OF n(3)] n(4) by metis
  then have "path_join loc n = pre @ n" by (simp add: path_join_def pre_def)
  with n(1,2) show ?thesis by (metis append_take_drop_id)
qed

lemma MakeDirs_empties:
  assumes dir: "loc \<in> set (fs_dirs (iw_fs w))" and par: "has_parent (iw_fs w) loc"
  shows "\<exists>w'. MakeDirs H loc w = (Inr (), w')
    \<and> iw_fs w' = without_files {p. name_under loc p \<noteq> None} (iw_fs w)"
proof -
  let ?f = "iw_fs w"
  obtain head tail where s: "makedirs_split loc = (head, tail)" by fastforce
  have "\<not> (head \<noteq> [] \<and> tail \<noteq> [] \<and> \<not> path_exists ?f head)" using par s by (auto simp: has_parent_def)
  then have mk: "os_makedirs loc ?f = (Inl PyOSError, ?f)"
    using dir by (simp add: os_makedirs_leaf [OF s] os_mkdir_def path_exists_def)
  let ?names = "List.map_filter (name_under loc) (map fst (fs_files ?f) @ fs_dirs ?f)"
  have "filter (\<lambda>(p, d). p \<notin> path_join loc ` set ?names) (fs_files ?f)
      = filter (\<lambda>(p, d). p \<notin> {p. name_under loc p \<noteq> None}) (fs_files ?f)"
  proof (rule filter_cong [OF refl], clarsimp)
    fix p d assume pd: "(p, d) \<in> set (fs_files ?f)"
    show "(p \<notin> path_join loc ` set ?names) = (name_under loc p = None)"
    proof
      assume out: "p \<notin> path_join loc ` set ?names"
      show "name_under loc p = None"
      proof (rule ccontr)
        assume "name_under loc p \<noteq> None"
        then obtain n where n: "name_under loc p = Some n" by blast
        have "p \<in> set (map fst (fs_files ?f) @ fs_dirs ?f)" using pd by (force simp: image_iff)
        then have "n \<in> set ?names" using n unfolding mem_map_filter by blast
        then show False using out name_under_join [OF n] by blast
      qed
    next
      assume none: "name_under loc p = None"
      show "p \<notin> path_join loc ` set ?names"
      proof
        assume "p \<in> path_join loc ` set ?names"
        then obtain n where n: "n \<in> set ?names" "p = path_join loc n" by blast
        from n(1) obtain q where "name_under loc q = Some n" unfolding mem_map_filter by blast
        then show False using none n(2) name_under_join by auto
      qed
    qed
  qed
  then have "clear_files loc ?f = (Inr (), without_files {p. name_under loc p \<noteq> None} ?f)"
    using dir by (simp add: clear_files_def os_listdir_def sbind_def slift_def clear_loop without_files_def)
  with mk show ?thesis
    by (simp add: MakeDirs_def io_fs_def Debug_def Output_def smodify_def)
qed

subsection \<open>The choices of options\<close>

text \<open>The options of an operation with a key set, and the values that are listed for each.\<close>

definition option_values :: "runner \<Rightarrow> string \<Rightarrow> test_keyset \<Rightarrow> string \<Rightarrow> exn + (string \<times> json list) list" where
  "option_values r operation ks option_string =
     ebind (ebind (ebind (json_get operation (rn_operations r)) (json_get option_string)) members) (\<lambda>oo.
     ebind (ebind (ks_Options ks option_string) members) (\<lambda>ko.
     emap (\<lambda>(name, l). ebind (option_list r l) (\<lambda>vs. Inr (name, vs))) (dict_of (ko @ oo))))"

definition chosen :: "(string \<times> json list) list \<Rightarrow> options \<Rightarrow> bool" where
  "chosen d opts \<longleftrightarrow> list_all2 (\<lambda>(n, v) (m, vs). n = m \<and> v \<in> set vs) opts d"

lemma emap_pair: "emap (\<lambda>(n, l). ebind (f l) (\<lambda>vs. Inr (n, vs))) d =
    ebind (emap (\<lambda>(n, l). f l) d) (\<lambda>vss. Inr (zip (map fst d) vss))"
  by (induction d) (auto simp: ebind_def split: sum.split)

lemma length_emap: "emap f xs = Inr ys \<Longrightarrow> length ys = length xs"
  by (induction xs arbitrary: ys) (auto simp: ebind_Inr_conv)

lemma chosen_zip:
  assumes "length ns = length vss"
  shows "opts \<in> zip ns ` set (product_lists vss) \<longleftrightarrow> chosen (zip ns vss) opts"
  using assms
proof (induction ns vss arbitrary: opts rule: list_induct2)
  case (Cons n ns vs vss)
  show ?case
  proof (cases opts)
    case (Cons o1 os)
    have "opts \<in> zip (n # ns) ` set (product_lists (vs # vss)) \<longleftrightarrow>
        fst o1 = n \<and> snd o1 \<in> set vs \<and> os \<in> zip ns ` set (product_lists vss)"
      unfolding Cons by (cases o1) (auto simp: image_iff)
    then show ?thesis unfolding Cons.IH by (cases o1) (auto simp: Cons chosen_def)
  qed (auto simp: chosen_def)
qed (auto simp: chosen_def)

lemma length_product_lists: "length (product_lists vss) = prod_list (map length vss)"
  by (induction vss) (auto simp: length_concat comp_def sum_list_triv)

text \<open>
  \<open>_Options\<close> yields exactly the choices of one listed value for each option, so many as the product
  of the numbers of values.
\<close>

lemma Options_choices:
  assumes "Options r operation ks option_string = Inr oss"
  shows "\<exists>d. option_values r operation ks option_string = Inr d \<and> (\<forall>opts. opts \<in> set oss \<longleftrightarrow> chosen d opts)
    \<and> length oss = prod_list (map (\<lambda>(n, vs). length vs) d)"
proof -
  obtain oo ko where o: "ebind (ebind (json_get operation (rn_operations r)) (json_get option_string)) members = Inr oo"
    "ebind (ks_Options ks option_string) members = Inr ko"
    and oss: "(let d = dict_of (ko @ oo) in if d = [] then Inr [[]]
      else ebind (emap (\<lambda>(n, l). option_list r l) d) (\<lambda>a. Inr (map (zip (map fst d)) (product_lists a)))) = Inr oss"
    using assms unfolding Options_def by (auto simp: ebind_Inr_conv Let_def)
  let ?d = "dict_of (ko @ oo)"
  show ?thesis
  proof (cases "?d = []")
    case True
    then show ?thesis using oss o by (auto simp: option_values_def chosen_def)
  next
    case False
    then obtain a where a: "emap (\<lambda>(n, l). option_list r l) ?d = Inr a" "oss = map (zip (map fst ?d)) (product_lists a)"
      using oss by (auto simp: ebind_Inr_conv Let_def)
    have l: "length (map fst ?d) = length a" using length_emap [OF a(1)] by simp
    have "option_values r operation ks option_string = Inr (zip (map fst ?d) a)"
      unfolding option_values_def o by (simp add: emap_pair a(1))
    moreover have "map (\<lambda>(n, vs). length vs) (zip (map fst ?d) a) = map length a"
      using l by (intro nth_equalityI) auto
    ultimately show ?thesis
      using chosen_zip [OF l] a(2) by (intro exI [of _ "zip (map fst ?d) a"]) (simp add: length_product_lists)
  qed
qed

subsection \<open>The commands that the driver sends\<close>

lemma interop_create_flags:
  assumes "get_flags r algorithm ''createFlags'' = Inr [''--purpose='' @ p]" and "get_flags r algorithm ''addKeyFlags'' = Inr []"
  shows "GetCreateFlags r algorithm sz loc = Inr [''create'', ''--name='' @ algorithm @ str_int sz, ''--location='' @ loc, ''--purpose='' @ p]"
    and "GetAddKeyFlags r algorithm sz loc [] = Inr [''addkey'', ''--status=primary'', ''--size='' @ str_int sz, ''--location='' @ loc]"
  using assms by (simp_all add: GetCreateFlags_def GetAddKeyFlags_def Let_def)

lemma interop_creates:
  assumes "w_mock w = None" and "loc \<in> set (fs_dirs (w_fs w))" and "loc_open (w_fs w) loc"
    and "\<not> path_exists (w_fs w) (path_join loc ''meta'')"
    and "CHR ''='' \<notin> set algorithm" and "CHR ''='' \<notin> set loc"
    and "(p, pp, t) \<in> {(''crypt'', DECRYPT_AND_ENCRYPT, AES), (''sign'', SIGN_AND_VERIFY, HMAC_SHA1)}"
    and "IsValidSize t sz"
    and "get_flags r algorithm ''createFlags'' = Inr [''--purpose='' @ p]" and "get_flags r algorithm ''addKeyFlags'' = Inr []"
  shows "\<exists>create addkey w1 w2 kz k. GetCreateFlags r algorithm sz loc = Inr create \<and> GetAddKeyFlags r algorithm sz loc [] = Inr addkey
    \<and> main L create w = Some (Inr (), w1) \<and> main L addkey w1 = Some (Inr (), w2)
    \<and> GenericKeyczar_Read (w_fs w2) loc = Inr kz \<and> kz_inv kz \<and> kz_statuses kz = [1 \<mapsto> PRIMARY]
    \<and> kmd_type (kz_metadata kz) = t \<and> purpose (kz_metadata kz) = pp \<and> primary_key kz = Inr k"
proof -
  have "CHR ''='' \<notin> set (algorithm @ str_int sz)" using assms(5) str_int_no_equals [of sz] by simp
  from create_and_add [OF assms(1-4) this assms(6-8), of L] show ?thesis
    unfolding interop_create_flags [OF assms(9,10)] by blast
qed

end
