(* ===== verification/InteropTest.thy ===== *)
theory InteropTest
  imports Keyczart
begin

text \<open>
  \<open>python/tests/keyczar_tests/interop_test.py\<close>: the program through which the interoperability
  driver uses the Python implementation. Its one argument is a JSON text: it creates key sets with
  \<open>keyczart\<close>, generates the output of an operation, or tests such an output. The state is that of
  \<open>keyczart\<close>. A value of the argument that should be text and is not has the result \<open>OutsideModel\<close>.
\<close>

subsection \<open>Operations\<close>

record base_operation =
  op_test_data :: bytes
  op_key_path :: string

text \<open>\<open>str\<close> of a value from JSON, whose text is of the type \<open>unicode\<close>: it must be ASCII.\<close>

fun str_json :: "json \<Rightarrow> exn + string" where
  "str_json (JStr s) = (if list_all (\<lambda>c. byte_ord c < 128) s then Inr s else Inl PyUnicodeError)"
| "str_json (JInt i) = Inr (str_int i)"
| "str_json (JBool b) = Inr (if b then ''True'' else ''False'')"
| "str_json JNull = Inr ''None''"
| "str_json _ = Inl OutsideModel"

definition BaseOperation_init :: "string \<Rightarrow> json \<Rightarrow> exn + base_operation" where
  "BaseOperation_init key_path test_data =
     ebind (str_json test_data) (\<lambda>d. Inr \<lparr>op_test_data = d, op_key_path = key_path\<rparr>)"

definition op_GetKeyPath :: "base_operation \<Rightarrow> string \<Rightarrow> string" where
  "op_GetKeyPath self algorithm = path_join (op_key_path self) algorithm"

text \<open>\<open>options[name]\<close> where the text is used, and \<open>options.get(name, "")\<close>.\<close>

definition get_default :: "string \<Rightarrow> json \<Rightarrow> exn + string" where
  "get_default name options = (case options of
     JObj ms \<Rightarrow> (case map_of (rev ms) name of None \<Rightarrow> Inr [] | Some v \<Rightarrow> as_str v)
   | _ \<Rightarrow> Inl PyAttributeError)"

definition op_GetReader :: "crypto \<Rightarrow> fs \<Rightarrow> base_operation \<Rightarrow> string \<Rightarrow> string \<Rightarrow> string \<Rightarrow> exn + reader" where
  "op_GetReader L f self algorithm crypter pub_key =
     ebind (CreateReader f (op_GetKeyPath self (algorithm @ crypter @ pub_key))) (\<lambda>reader.
     if crypter = [] then Inr reader
     else ebind (Crypter_Read f (op_GetKeyPath self crypter)) (\<lambda>key_set_crypter.
       Inr (EncryptedReader reader (crypter_dec L key_set_crypter))))"

text \<open>
  The key set that an operation uses: \<open>acc\<close> is what its class accepts, \<open>options\<close> has the crypter and
  \<open>pub\<close> the suffix of the location.
\<close>

definition op_keys :: "crypto \<Rightarrow> (key_purpose \<Rightarrow> bool) \<Rightarrow> base_operation \<Rightarrow> string \<Rightarrow> json \<Rightarrow> json \<Rightarrow> fs \<Rightarrow> exn + keyczar" where
  "op_keys L acc self algorithm options pub_options f =
     ebind (get_str ''cryptedKeySet'' options) (\<lambda>crypter.
     ebind (get_default ''pubKey'' pub_options) (\<lambda>pub_key.
     ebind (op_GetReader L f self algorithm crypter pub_key) (Keyczar_init acc)))"

text \<open>The same without a suffix, for the signers of the signed sessions.\<close>

definition op_signer_keys :: "crypto \<Rightarrow> (key_purpose \<Rightarrow> bool) \<Rightarrow> base_operation \<Rightarrow> json \<Rightarrow> fs \<Rightarrow> exn + keyczar" where
  "op_signer_keys L acc self options f =
     ebind (get_str ''signer'' options) (\<lambda>signer.
     ebind (get_str ''cryptedKeySet'' options) (\<lambda>crypter.
     ebind (op_GetReader L f self signer crypter []) (Keyczar_init acc)))"

definition option_is :: "string \<Rightarrow> string \<Rightarrow> json \<Rightarrow> exn + bool" where
  "option_is name value options = ebind (json_get name options) (\<lambda>v. Inr (v = JStr value))"

definition op_encoder :: "json \<Rightarrow> exn + encoder" where
  "op_encoder options = ebind (option_is ''encoding'' ''encoded'' options) (\<lambda>b.
     Inr (if b then Some Base64WSEncode else None))"

definition op_decoder :: "json \<Rightarrow> exn + decoder" where
  "op_decoder generate_options = ebind (option_is ''encoding'' ''encoded'' generate_options) (\<lambda>b.
     Inr (if b then Some Base64WSDecode else None))"

text \<open>The decorators.\<close>

definition JsonOutput :: "string prog \<Rightarrow> string prog" where
  "JsonOutput m = pbind m (\<lambda>output. pret (json_dumps (JObj [(''output'', JStr (Base64WSEncode output))])))"

definition JsonInput :: "(bytes \<Rightarrow> unit prog) \<Rightarrow> json \<Rightarrow> unit prog" where
  "JsonInput m json_dict = pbind (plift (ebind (get_str ''output'' json_dict) Base64WSDecode)) m"

definition passert :: "bool \<Rightarrow> unit prog" where
  "passert b = (if b then pret () else praise PyAssertionError)"

definition with_keys :: "(fs \<Rightarrow> exn + keyczar) \<Rightarrow> (keyczar \<Rightarrow> 'a prog) \<Rightarrow> 'a prog" where
  "with_keys keys m = pbind pget (\<lambda>w. pbind (plift (keys (w_fs w))) m)"

subsection \<open>Signing\<close>

definition UnversionedSign_Generate :: "crypto \<Rightarrow> base_operation \<Rightarrow> string \<Rightarrow> json \<Rightarrow> string prog" where
  "UnversionedSign_Generate L self algorithm options = JsonOutput (pbind (plift (op_encoder options)) (\<lambda>encoder.
     with_keys (op_keys L UnversionedSigner_acceptable self algorithm options options) (\<lambda>signer.
       on_ent (UnversionedSigner_Sign L signer (op_test_data self) encoder))))"

definition UnversionedSign_Test :: "crypto \<Rightarrow> base_operation \<Rightarrow> json \<Rightarrow> string \<Rightarrow> json \<Rightarrow> json \<Rightarrow> unit prog" where
  "UnversionedSign_Test L self output algorithm generate_options test_options = JsonInput (\<lambda>signature.
     pbind (plift (op_decoder generate_options)) (\<lambda>decoder.
     pbind (plift (option_is ''class'' ''verifier'' test_options)) (\<lambda>b.
     with_keys (op_keys L (if b then UnversionedVerifier_acceptable else UnversionedSigner_acceptable)
         self algorithm generate_options test_options) (\<lambda>verifier.
     pbind (plift (UnversionedVerifier_Verify L verifier (op_test_data self) signature decoder)) passert)))) output"

definition AttachedSign_Generate :: "crypto \<Rightarrow> base_operation \<Rightarrow> string \<Rightarrow> json \<Rightarrow> string prog" where
  "AttachedSign_Generate L self algorithm options = JsonOutput (pbind (plift (op_encoder options)) (\<lambda>encoder.
     with_keys (op_keys L Signer_acceptable self algorithm options options) (\<lambda>signer.
       on_ent (Signer_AttachedSign L signer (op_test_data self) (Some []) encoder))))"

text \<open>What is asserted is that the data that came back is neither \<open>None\<close> nor empty.\<close>

definition AttachedSign_Test :: "crypto \<Rightarrow> base_operation \<Rightarrow> json \<Rightarrow> string \<Rightarrow> json \<Rightarrow> json \<Rightarrow> unit prog" where
  "AttachedSign_Test L self output algorithm generate_options test_options = JsonInput (\<lambda>signature.
     pbind (plift (op_decoder generate_options)) (\<lambda>decoder.
     pbind (plift (option_is ''class'' ''verifier'' test_options)) (\<lambda>b.
     with_keys (op_keys L (if b then Verifier_acceptable else Signer_acceptable)
         self algorithm generate_options test_options) (\<lambda>verifier.
     pbind (plift (Verifier_AttachedVerify L verifier signature (Some []) decoder))
       (\<lambda>d. passert (d \<noteq> None \<and> d \<noteq> Some [])))))) output"

definition Sign_Generate :: "crypto \<Rightarrow> base_operation \<Rightarrow> string \<Rightarrow> json \<Rightarrow> string prog" where
  "Sign_Generate L self algorithm options = JsonOutput (pbind (plift (op_encoder options)) (\<lambda>encoder.
     with_keys (op_keys L Signer_acceptable self algorithm options options) (\<lambda>signer.
       on_ent (Signer_Sign L signer (op_test_data self) encoder))))"

definition Sign_Test :: "crypto \<Rightarrow> base_operation \<Rightarrow> json \<Rightarrow> string \<Rightarrow> json \<Rightarrow> json \<Rightarrow> unit prog" where
  "Sign_Test L self output algorithm generate_options test_options = JsonInput (\<lambda>signature.
     pbind (plift (op_decoder generate_options)) (\<lambda>decoder.
     pbind (plift (option_is ''class'' ''verifier'' test_options)) (\<lambda>b.
     with_keys (op_keys L (if b then Verifier_acceptable else Signer_acceptable)
         self algorithm generate_options test_options) (\<lambda>verifier.
     pbind (plift (Verifier_Verify L verifier (op_test_data self) signature decoder)) passert)))) output"

subsection \<open>Encrypting\<close>

definition Encrypt_Generate :: "crypto \<Rightarrow> base_operation \<Rightarrow> string \<Rightarrow> json \<Rightarrow> string prog" where
  "Encrypt_Generate L self algorithm options = JsonOutput (pbind (plift (op_encoder options)) (\<lambda>encoder.
     pbind (plift (option_is ''class'' ''crypter'' options)) (\<lambda>b.
     with_keys (op_keys L (if b then Crypter_acceptable else Encrypter_acceptable) self algorithm options options) (\<lambda>crypter.
       on_ent (Encrypter_Encrypt L crypter (op_test_data self) encoder)))))"

definition Encrypt_Test :: "crypto \<Rightarrow> base_operation \<Rightarrow> json \<Rightarrow> string \<Rightarrow> json \<Rightarrow> json \<Rightarrow> unit prog" where
  "Encrypt_Test L self output algorithm generate_options test_options = JsonInput (\<lambda>ciphertext.
     pbind (plift (op_decoder generate_options)) (\<lambda>decoder.
     with_keys (op_keys L Crypter_acceptable self algorithm generate_options test_options) (\<lambda>crypter.
     pbind (plift (Crypter_Decrypt L crypter ciphertext decoder)) (\<lambda>d. passert (d = op_test_data self))))) output"

subsection \<open>Signed sessions\<close>

text \<open>The key sets behind a session are used with the default encoders.\<close>

definition default_Encrypt :: "crypto \<Rightarrow> keyczar \<Rightarrow> bytes \<Rightarrow> (entropy, exn, string) st" where
  "default_Encrypt L kz d = Encrypter_Encrypt L kz d (Some Base64WSEncode)"

definition default_AttachedSign :: "crypto \<Rightarrow> keyczar \<Rightarrow> bytes \<Rightarrow> bytes option \<Rightarrow> (entropy, exn, string) st" where
  "default_AttachedSign L kz d nonce = Signer_AttachedSign L kz d nonce (Some Base64WSEncode)"

definition default_AttachedVerify :: "crypto \<Rightarrow> keyczar \<Rightarrow> string \<Rightarrow> bytes option \<Rightarrow> exn + bytes option" where
  "default_AttachedVerify L kz d nonce = Verifier_AttachedVerify L kz d nonce (Some Base64WSDecode)"

definition SignedSession_output :: "crypto \<Rightarrow> keyczar \<Rightarrow> keyczar \<Rightarrow> bytes \<Rightarrow> (entropy, exn, string) st" where
  "SignedSession_output L signer key_encrypter test_data =
     sbind (SignedSessionEncrypter_init (default_Encrypt L key_encrypter)) (\<lambda>crypter ent.
     case SignedSessionEncrypter_Encrypt L (default_AttachedSign L signer) test_data (crypter, ent) of
       (Inl e, crypter', ent') \<Rightarrow> (Inl e, ent')
     | (Inr encrypted_data, crypter', ent') \<Rightarrow>
         (Inr (json_dumps (JObj [(''output'', JStr encrypted_data),
            (''sessionMaterial'', JStr (se_session_material crypter'))])), ent'))"

definition SignedSession_Generate :: "crypto \<Rightarrow> base_operation \<Rightarrow> string \<Rightarrow> json \<Rightarrow> string prog" where
  "SignedSession_Generate L self crypter_algorithm options =
     with_keys (op_signer_keys L Signer_acceptable self options) (\<lambda>signer.
     with_keys (op_keys L Encrypter_acceptable self crypter_algorithm options options) (\<lambda>key_encrypter.
       on_ent (SignedSession_output L signer key_encrypter (op_test_data self))))"

definition SignedSession_Test :: "crypto \<Rightarrow> base_operation \<Rightarrow> json \<Rightarrow> string \<Rightarrow> json \<Rightarrow> json \<Rightarrow> unit prog" where
  "SignedSession_Test L self output algorithm generate_options test_options =
     pbind (plift (get_str ''output'' output)) (\<lambda>encrypted_data.
     pbind (plift (get_str ''sessionMaterial'' output)) (\<lambda>session_material.
     with_keys (op_signer_keys L Verifier_acceptable self generate_options) (\<lambda>verifier.
     with_keys (op_keys L Crypter_acceptable self algorithm generate_options test_options) (\<lambda>key_crypter.
     pbind (plift (SignedSessionDecrypter_init (crypter_dec L key_crypter) session_material)) (\<lambda>s.
     pbind (plift (fst (SignedSessionDecrypter_Decrypt L (default_AttachedVerify L verifier) encrypted_data s)))
       (\<lambda>decrypted_data. passert (decrypted_data = Some (op_test_data self))))))))"

subsection \<open>The program\<close>

datatype operation = UnversionedSignOperation | AttachedSignOperation | SignOperation | EncryptOperation
  | SignedSessionOperation

definition operations :: "(string \<times> operation) list" where
  "operations = [(''unversioned'', UnversionedSignOperation), (''attached'', AttachedSignOperation),
     (''sign'', SignOperation), (''encrypt'', EncryptOperation), (''signedSession'', SignedSessionOperation)]"

fun op_Generate :: "crypto \<Rightarrow> operation \<Rightarrow> base_operation \<Rightarrow> string \<Rightarrow> json \<Rightarrow> string prog" where
  "op_Generate L UnversionedSignOperation = UnversionedSign_Generate L"
| "op_Generate L AttachedSignOperation = AttachedSign_Generate L"
| "op_Generate L SignOperation = Sign_Generate L"
| "op_Generate L EncryptOperation = Encrypt_Generate L"
| "op_Generate L SignedSessionOperation = SignedSession_Generate L"

fun op_Test :: "crypto \<Rightarrow> operation \<Rightarrow> base_operation \<Rightarrow> json \<Rightarrow> string \<Rightarrow> json \<Rightarrow> json \<Rightarrow> unit prog" where
  "op_Test L UnversionedSignOperation = UnversionedSign_Test L"
| "op_Test L AttachedSignOperation = AttachedSign_Test L"
| "op_Test L SignOperation = Sign_Test L"
| "op_Test L EncryptOperation = Encrypt_Test L"
| "op_Test L SignedSessionOperation = SignedSession_Test L"

definition find_operation :: "string \<Rightarrow> exn + operation" where
  "find_operation operation_name = (case map_of operations operation_name of
     None \<Rightarrow> Inl PyKeyError | Some operation \<Rightarrow> Inr operation)"

fun it_Create :: "crypto \<Rightarrow> json list \<Rightarrow> unit prog" where
  "it_Create L [] = pret ()"
| "it_Create L (command # keyczart_commands) =
     pbind (plift (ebind (as_list command) (emap as_str))) (\<lambda>argv.
     pbind (main L argv) (\<lambda>u. it_Create L keyczart_commands))"

definition it_Generate :: "crypto \<Rightarrow> string \<Rightarrow> string \<Rightarrow> string \<Rightarrow> json \<Rightarrow> json \<Rightarrow> unit prog" where
  "it_Generate L operation_name key_path algorithm generate_options test_data =
     pbind (plift (find_operation operation_name)) (\<lambda>operation.
     pbind (plift (BaseOperation_init key_path test_data)) (\<lambda>current_operation.
     pbind (op_Generate L operation current_operation algorithm generate_options) print_line))"

definition it_Test :: "crypto \<Rightarrow> string \<Rightarrow> json \<Rightarrow> string \<Rightarrow> string \<Rightarrow> json \<Rightarrow> json \<Rightarrow> json \<Rightarrow> unit prog" where
  "it_Test L operation_name output key_path algorithm generate_options test_options test_data =
     pbind (plift (find_operation operation_name)) (\<lambda>operation.
     pbind (plift (BaseOperation_init key_path test_data)) (\<lambda>current_operation.
     pbind (op_Test L operation current_operation output algorithm generate_options test_options) (\<lambda>u.
       print_line ''Test passes'')))"

definition it_usage_lines :: "string list" where
  "it_usage_lines = [''Interop tests take a single JSON string describing the parameters'', [],
     ''The format of the JSON is as follows:'', ''{'',
     ''  '' @ [CHR 0x22] @ ''command'' @ [CHR 0x22] @ '' : ('' @ [CHR 0x22] @ ''create'' @ [CHR 0x22] @ ''|'' @
       [CHR 0x22] @ ''generate'' @ [CHR 0x22] @ ''|'' @ [CHR 0x22] @ ''test'' @ [CHR 0x22] @ ''),'',
     ''  ... any command specific arguments ...'', ''}'', []]"

definition it_Usage :: "unit prog" where
  "it_Usage = praise (KeyczarError (join_with [CHR 0x0A] it_usage_lines))"

definition it_main :: "crypto \<Rightarrow> string list \<Rightarrow> unit prog" where
  "it_main L argv = (if length argv > 2 \<or> argv = [] then it_Usage
     else pbind (plift (json_loads (argv ! 0))) (\<lambda>args. case args of
       JObj ms \<Rightarrow> (case map_of (rev ms) ''command'' of
         None \<Rightarrow> it_Usage
       | Some cmd \<Rightarrow>
          (if cmd = JStr ''create'' then
             pbind (plift (ebind (json_get ''keyczartCommands'' args) as_list)) (it_Create L)
           else if cmd = JStr ''generate'' then
             pbind (plift (get_str ''operation'' args)) (\<lambda>operation.
             pbind (plift (get_str ''keyPath'' args)) (\<lambda>key_path.
             pbind (plift (get_str ''algorithm'' args)) (\<lambda>algorithm.
             pbind (plift (json_get ''generateOptions'' args)) (\<lambda>generate_options.
             pbind (plift (json_get ''testData'' args)) (\<lambda>test_data.
               it_Generate L operation key_path algorithm generate_options test_data)))))
           else if cmd = JStr ''test'' then
             pbind (plift (get_str ''operation'' args)) (\<lambda>operation.
             pbind (plift (json_get ''output'' args)) (\<lambda>output.
             pbind (plift (get_str ''keyPath'' args)) (\<lambda>key_path.
             pbind (plift (get_str ''algorithm'' args)) (\<lambda>algorithm.
             pbind (plift (json_get ''generateOptions'' args)) (\<lambda>generate_options.
             pbind (plift (json_get ''testOptions'' args)) (\<lambda>test_options.
             pbind (plift (json_get ''testData'' args)) (\<lambda>test_data.
               it_Test L operation output key_path algorithm generate_options test_options test_data)))))))
           else it_Usage))
     | _ \<Rightarrow> praise OutsideModel))"

end
