(* ===== verification/InteropTestSpec.thy ===== *)
theory InteropTestSpec
  imports InteropTest InteropSpec PublicSpec
begin

text \<open>
  What the Python program of the interoperability tests promises: it accepts what it generated,
  over any key sets of which one undoes what the other does, and so the tests that the driver makes
  of its outputs pass.
\<close>

subsection \<open>The contract of an operation\<close>

text \<open>
  \<open>ready\<close> says of a directory of key sets that the test is made for the keys that the output was
  generated with. Then the test accepts the output, whatever randomness went into it.
\<close>

locale interop_operation =
  fixes generate :: "base_operation \<Rightarrow> string \<Rightarrow> json \<Rightarrow> string prog"
    and test :: "base_operation \<Rightarrow> json \<Rightarrow> string \<Rightarrow> json \<Rightarrow> json \<Rightarrow> unit prog"
    and ready :: "base_operation \<Rightarrow> string \<Rightarrow> json \<Rightarrow> json \<Rightarrow> fs \<Rightarrow> bool"
  assumes output_text: "generate self a g w = Some (Inr out, w1) \<Longrightarrow> \<exists>j ent. json_plain j \<and> out = json_dumps j \<and> w1 = w\<lparr>w_ent := ent\<rparr>"
    and accepts: "ready self a g t (w_fs w) \<Longrightarrow> generate self a g w = Some (Inr (json_dumps j), w1) \<Longrightarrow>
      json_plain j \<Longrightarrow> w_fs w2 = w_fs w \<Longrightarrow> test self j a g t w2 = Some (Inr (), w2)"
begin

lemma reads_own_output:
  assumes "generate self a g w = Some (Inr out, w1)" and "ready self a g t (w_fs w)"
  shows "\<exists>j ent. json_plain j \<and> out = json_dumps j \<and> w1 = w\<lparr>w_ent := ent\<rparr>
    \<and> (\<forall>w2. w_fs w2 = w_fs w \<longrightarrow> test self j a g t w2 = Some (Inr (), w2))"
  using output_text [OF assms(1)] accepts assms by blast

end

subsection \<open>The decorators and the options\<close>

lemma pbind_Inr_conv: "pbind m f w = Some (Inr y, w2) \<longleftrightarrow> (\<exists>x w1. m w = Some (Inr x, w1) \<and> f x w1 = Some (Inr y, w2))"
  by (auto simp: pbind_def split: option.splits prod.splits sum.splits)

lemma plift_Inr_conv: "plift r w = Some (Inr x, w1) \<longleftrightarrow> r = Inr x \<and> w1 = w"
  by (auto simp: plift_def)

lemma on_ent_Inr_conv: "on_ent m w = Some (Inr x, w1) \<longleftrightarrow> (\<exists>ent. m (w_ent w) = (Inr x, ent) \<and> w1 = w\<lparr>w_ent := ent\<rparr>)"
  by (auto simp: on_ent_def split: prod.splits)

lemma with_keys_Inr_conv: "with_keys keys m w = Some (Inr x, w1) \<longleftrightarrow> (\<exists>kz. keys (w_fs w) = Inr kz \<and> m kz w = Some (Inr x, w1))"
  by (auto simp: with_keys_def pbind_Inr_conv plift_Inr_conv pget_def)

lemmas prog_convs = pbind_Inr_conv plift_Inr_conv on_ent_Inr_conv with_keys_Inr_conv

lemma with_keys_eval: "with_keys keys m w = (case keys (w_fs w) of Inl e \<Rightarrow> Some (Inl e, w) | Inr kz \<Rightarrow> m kz w)"
  by (simp add: with_keys_def pbind_def pget_def plift_def split: sum.split)

lemma pbind_plift [simp]: "pbind (plift (Inr x)) f = f x"
  by (simp add: pbind_def plift_def fun_eq_iff)

lemma pbind_Some: "m w = Some (Inr x, w1) \<Longrightarrow> pbind m f w = f x w1"
  by (simp add: pbind_def)

definition b64_output :: "bytes \<Rightarrow> json" where
  "b64_output s = JObj [(''output'', JStr (Base64WSEncode s))]"

lemma json_plain_b64_output [simp]: "json_plain (b64_output s)"
  by (simp add: b64_output_def)

lemma JsonOutput_conv: "JsonOutput m w = Some (Inr out, w1) \<longleftrightarrow> (\<exists>s. m w = Some (Inr s, w1) \<and> out = json_dumps (b64_output s))"
  by (auto simp: JsonOutput_def pbind_Inr_conv pret_def b64_output_def)

lemma JsonInput_output [simp]: "JsonInput m (b64_output s) = m s"
  by (simp add: JsonInput_def b64_output_def get_str_def)

lemma json_dumps_inj: "json_plain j \<Longrightarrow> json_plain j' \<Longrightarrow> json_dumps j = json_dumps j' \<Longrightarrow> j = j'"
  by (metis json_loads_dumps sum.inject(2))

lemma op_codec: "op_encoder g = Inr encoder \<Longrightarrow> \<exists>decoder. op_decoder g = Inr decoder \<and> codec_pair encoder decoder"
  by (cases "option_is ''encoding'' ''encoded'' g") (auto simp: op_encoder_def op_decoder_def codec_pairs)

lemma passert_True [simp]: "passert True w = Some (Inr (), w)"
  by (simp add: passert_def pret_def)

subsection \<open>The key sets of an operation\<close>

text \<open>One key set verifies or decrypts what the other signs or encrypts.\<close>

definition signs_for :: "crypto \<Rightarrow> keyczar \<Rightarrow> keyczar \<Rightarrow> bool" where
  "signs_for L kz kz' \<longleftrightarrow> (\<exists>prv h pub. primary_key kz = Inr prv \<and> key_hash_id prv = Inr h
     \<and> map_of (kz_keys kz') (HashId h) = Some pub \<and> sign_pair L prv pub)"

definition encrypts_for :: "crypto \<Rightarrow> keyczar \<Rightarrow> keyczar \<Rightarrow> bool" where
  "encrypts_for L kz kz' \<longleftrightarrow> (\<exists>pub h prv. primary_key kz = Inr pub \<and> key_hash_id pub = Inr h
     \<and> map_of (kz_keys kz') (HashId h) = Some prv \<and> encrypt_pair L pub prv)"

text \<open>Without a header every key is tried, so none may raise.\<close>

definition signs_unversioned_for :: "crypto \<Rightarrow> keyczar \<Rightarrow> keyczar \<Rightarrow> bool" where
  "signs_unversioned_for L kz kz' \<longleftrightarrow> (\<exists>prv v pub. primary_key kz = Inr prv \<and> sign_pair L prv pub
     \<and> v \<in> set (kz_versions kz') \<and> map_of (kz_keys kz') (VersionId v) = Some pub)
     \<and> (\<forall>v \<in> set (kz_versions kz'). \<forall>x d. \<exists>k b. map_of (kz_keys kz') (VersionId v) = Some k \<and> key_Verify L k d x = Inr b)"

definition Sign_ready :: "crypto \<Rightarrow> base_operation \<Rightarrow> string \<Rightarrow> json \<Rightarrow> json \<Rightarrow> fs \<Rightarrow> bool" where
  "Sign_ready L self a g t f \<longleftrightarrow> (\<exists>b kz kz'. option_is ''class'' ''verifier'' t = Inr b
     \<and> op_keys L Signer_acceptable self a g g f = Inr kz
     \<and> op_keys L (if b then Verifier_acceptable else Signer_acceptable) self a g t f = Inr kz' \<and> signs_for L kz kz')"

definition AttachedSign_ready :: "crypto \<Rightarrow> base_operation \<Rightarrow> string \<Rightarrow> json \<Rightarrow> json \<Rightarrow> fs \<Rightarrow> bool" where
  "AttachedSign_ready L self a g t f \<longleftrightarrow> Sign_ready L self a g t f \<and> op_test_data self \<noteq> []"

definition UnversionedSign_ready :: "crypto \<Rightarrow> base_operation \<Rightarrow> string \<Rightarrow> json \<Rightarrow> json \<Rightarrow> fs \<Rightarrow> bool" where
  "UnversionedSign_ready L self a g t f \<longleftrightarrow> (\<exists>b kz kz'. option_is ''class'' ''verifier'' t = Inr b
     \<and> op_keys L UnversionedSigner_acceptable self a g g f = Inr kz
     \<and> op_keys L (if b then UnversionedVerifier_acceptable else UnversionedSigner_acceptable) self a g t f = Inr kz'
     \<and> signs_unversioned_for L kz kz')"

definition Encrypt_ready :: "crypto \<Rightarrow> base_operation \<Rightarrow> string \<Rightarrow> json \<Rightarrow> json \<Rightarrow> fs \<Rightarrow> bool" where
  "Encrypt_ready L self a g t f \<longleftrightarrow> (\<exists>b kz kz'. option_is ''class'' ''crypter'' g = Inr b
     \<and> op_keys L (if b then Crypter_acceptable else Encrypter_acceptable) self a g g f = Inr kz
     \<and> op_keys L Crypter_acceptable self a g t f = Inr kz' \<and> encrypts_for L kz kz')"

definition SignedSession_ready :: "crypto \<Rightarrow> base_operation \<Rightarrow> string \<Rightarrow> json \<Rightarrow> json \<Rightarrow> fs \<Rightarrow> bool" where
  "SignedSession_ready L self a g t f \<longleftrightarrow> backend_ok L \<and> (\<exists>s v kz kz'. op_signer_keys L Signer_acceptable self g f = Inr s
     \<and> op_signer_keys L Verifier_acceptable self g f = Inr v \<and> signs_for L s v
     \<and> op_keys L Encrypter_acceptable self a g g f = Inr kz
     \<and> op_keys L Crypter_acceptable self a g t f = Inr kz' \<and> encrypts_for L kz kz')"

subsection \<open>The five operations keep the contract\<close>

interpretation sign_op: interop_operation "Sign_Generate L" "Sign_Test L" "Sign_ready L" for L
proof
  fix self a g t w w1 out j and w2 :: world
  show "Sign_Generate L self a g w = Some (Inr out, w1) \<Longrightarrow> \<exists>j ent. json_plain j \<and> out = json_dumps j \<and> w1 = w\<lparr>w_ent := ent\<rparr>"
    unfolding Sign_Generate_def JsonOutput_conv prog_convs using json_plain_b64_output by blast
  assume r: "Sign_ready L self a g t (w_fs w)" and gen: "Sign_Generate L self a g w = Some (Inr (json_dumps j), w1)"
    and j: "json_plain j" and fs: "w_fs w2 = w_fs w"
  obtain sig kz encoder ent where s: "j = b64_output sig" "op_encoder g = Inr encoder"
    "op_keys L Signer_acceptable self a g g (w_fs w) = Inr kz" "Signer_Sign L kz (op_test_data self) encoder (w_ent w) = (Inr sig, ent)"
    using gen json_dumps_inj [OF j json_plain_b64_output] unfolding Sign_Generate_def JsonOutput_conv prog_convs by blast
  obtain decoder where d: "op_decoder g = Inr decoder" "codec_pair encoder decoder" using op_codec [OF s(2)] by blast
  obtain b kz' prv h pub where k: "option_is ''class'' ''verifier'' t = Inr b"
    "op_keys L (if b then Verifier_acceptable else Signer_acceptable) self a g t (w_fs w2) = Inr kz'"
    "primary_key kz = Inr prv" "key_hash_id prv = Inr h" "map_of (kz_keys kz') (HashId h) = Some pub" "sign_pair L prv pub"
    using r s(3) fs by (auto simp: Sign_ready_def signs_for_def)
  have "Verifier_Verify L kz' (op_test_data self) sig decoder = Inr True" by (rule Verify_Sign [OF k(3-6) d(2) s(4)])
  then show "Sign_Test L self j a g t w2 = Some (Inr (), w2)"
    by (simp add: Sign_Test_def s(1) d(1) k(1) with_keys_eval k(2))
qed

interpretation attached_op: interop_operation "AttachedSign_Generate L" "AttachedSign_Test L" "AttachedSign_ready L" for L
proof
  fix self a g t w w1 out j and w2 :: world
  show "AttachedSign_Generate L self a g w = Some (Inr out, w1) \<Longrightarrow> \<exists>j ent. json_plain j \<and> out = json_dumps j \<and> w1 = w\<lparr>w_ent := ent\<rparr>"
    unfolding AttachedSign_Generate_def JsonOutput_conv prog_convs using json_plain_b64_output by blast
  assume r: "AttachedSign_ready L self a g t (w_fs w)" and gen: "AttachedSign_Generate L self a g w = Some (Inr (json_dumps j), w1)"
    and j: "json_plain j" and fs: "w_fs w2 = w_fs w"
  obtain sig kz encoder ent where s: "j = b64_output sig" "op_encoder g = Inr encoder"
    "op_keys L Signer_acceptable self a g g (w_fs w) = Inr kz"
    "Signer_AttachedSign L kz (op_test_data self) (Some []) encoder (w_ent w) = (Inr sig, ent)"
    using gen json_dumps_inj [OF j json_plain_b64_output] unfolding AttachedSign_Generate_def JsonOutput_conv prog_convs by blast
  obtain decoder where d: "op_decoder g = Inr decoder" "codec_pair encoder decoder" using op_codec [OF s(2)] by blast
  obtain b kz' prv h pub where k: "option_is ''class'' ''verifier'' t = Inr b"
    "op_keys L (if b then Verifier_acceptable else Signer_acceptable) self a g t (w_fs w2) = Inr kz'"
    "primary_key kz = Inr prv" "key_hash_id prv = Inr h" "map_of (kz_keys kz') (HashId h) = Some pub" "sign_pair L prv pub"
    and ne: "op_test_data self \<noteq> []"
    using r s(3) fs by (auto simp: AttachedSign_ready_def Sign_ready_def signs_for_def)
  have "Verifier_AttachedVerify L kz' sig (Some []) decoder = Inr (Some (op_test_data self))"
    by (rule AttachedVerify_Sign [OF k(3-6) d(2) s(4)])
  then show "AttachedSign_Test L self j a g t w2 = Some (Inr (), w2)"
    by (simp add: AttachedSign_Test_def s(1) d(1) k(1) with_keys_eval k(2) ne)
qed

interpretation unversioned_op: interop_operation "UnversionedSign_Generate L" "UnversionedSign_Test L" "UnversionedSign_ready L" for L
proof
  fix self a g t w w1 out j and w2 :: world
  show "UnversionedSign_Generate L self a g w = Some (Inr out, w1) \<Longrightarrow> \<exists>j ent. json_plain j \<and> out = json_dumps j \<and> w1 = w\<lparr>w_ent := ent\<rparr>"
    unfolding UnversionedSign_Generate_def JsonOutput_conv prog_convs using json_plain_b64_output by blast
  assume r: "UnversionedSign_ready L self a g t (w_fs w)"
    and gen: "UnversionedSign_Generate L self a g w = Some (Inr (json_dumps j), w1)"
    and j: "json_plain j" and fs: "w_fs w2 = w_fs w"
  obtain sig kz encoder ent where s: "j = b64_output sig" "op_encoder g = Inr encoder"
    "op_keys L UnversionedSigner_acceptable self a g g (w_fs w) = Inr kz"
    "UnversionedSigner_Sign L kz (op_test_data self) encoder (w_ent w) = (Inr sig, ent)"
    using gen json_dumps_inj [OF j json_plain_b64_output] unfolding UnversionedSign_Generate_def JsonOutput_conv prog_convs by blast
  obtain decoder where d: "op_decoder g = Inr decoder" "codec_pair encoder decoder" using op_codec [OF s(2)] by blast
  obtain b kz' prv v pub where k: "option_is ''class'' ''verifier'' t = Inr b"
    "op_keys L (if b then UnversionedVerifier_acceptable else UnversionedSigner_acceptable) self a g t (w_fs w2) = Inr kz'"
    "primary_key kz = Inr prv" "sign_pair L prv pub" "v \<in> set (kz_versions kz')" "map_of (kz_keys kz') (VersionId v) = Some pub"
    and total: "\<forall>v \<in> set (kz_versions kz'). \<forall>x. \<exists>k b. map_of (kz_keys kz') (VersionId v) = Some k
      \<and> key_Verify L k (op_test_data self) x = Inr b"
    using r s(3) fs by (auto simp: UnversionedSign_ready_def signs_unversioned_for_def)
  have "UnversionedVerifier_Verify L kz' (op_test_data self) sig decoder = Inr True"
    by (rule UnversionedVerify_Sign [OF k(3,4) d(2) s(4) k(5,6) total])
  then show "UnversionedSign_Test L self j a g t w2 = Some (Inr (), w2)"
    by (simp add: UnversionedSign_Test_def s(1) d(1) k(1) with_keys_eval k(2))
qed

interpretation encrypt_op: interop_operation "Encrypt_Generate L" "Encrypt_Test L" "Encrypt_ready L" for L
proof
  fix self a g t w w1 out j and w2 :: world
  show "Encrypt_Generate L self a g w = Some (Inr out, w1) \<Longrightarrow> \<exists>j ent. json_plain j \<and> out = json_dumps j \<and> w1 = w\<lparr>w_ent := ent\<rparr>"
    unfolding Encrypt_Generate_def JsonOutput_conv prog_convs using json_plain_b64_output by blast
  assume r: "Encrypt_ready L self a g t (w_fs w)" and gen: "Encrypt_Generate L self a g w = Some (Inr (json_dumps j), w1)"
    and j: "json_plain j" and fs: "w_fs w2 = w_fs w"
  obtain b kz kz' pub h prv where k: "option_is ''class'' ''crypter'' g = Inr b"
    "op_keys L (if b then Crypter_acceptable else Encrypter_acceptable) self a g g (w_fs w) = Inr kz"
    "op_keys L Crypter_acceptable self a g t (w_fs w2) = Inr kz'"
    "primary_key kz = Inr pub" "key_hash_id pub = Inr h" "map_of (kz_keys kz') (HashId h) = Some prv" "encrypt_pair L pub prv"
    using r fs by (auto simp: Encrypt_ready_def encrypts_for_def)
  obtain ct encoder ent where s: "j = b64_output ct" "op_encoder g = Inr encoder"
    "Encrypter_Encrypt L kz (op_test_data self) encoder (w_ent w) = (Inr ct, ent)"
    using gen json_dumps_inj [OF j json_plain_b64_output] k(1,2) unfolding Encrypt_Generate_def JsonOutput_conv prog_convs by auto
  obtain decoder where d: "op_decoder g = Inr decoder" "codec_pair encoder decoder" using op_codec [OF s(2)] by blast
  have "Crypter_Decrypt L kz' ct decoder = Inr (op_test_data self)" by (rule Decrypt_Encrypt [OF k(4-7) d(2) s(3)])
  then show "Encrypt_Test L self j a g t w2 = Some (Inr (), w2)"
    by (simp add: Encrypt_Test_def s(1) d(1) with_keys_eval k(3))
qed

lemma default_transports: "encrypts_for L kz kz' \<Longrightarrow> transports (default_Encrypt L kz) (crypter_dec L kz')"
  unfolding transports_def default_Encrypt_def crypter_dec_def encrypts_for_def
  using Decrypt_Encrypt codec_pairs(2) by blast

lemma default_attaches: "signs_for L kz kz' \<Longrightarrow> attaches (default_AttachedSign L kz) (default_AttachedVerify L kz')"
  unfolding attaches_def default_AttachedSign_def default_AttachedVerify_def signs_for_def
  using AttachedVerify_Sign codec_pairs(2) by blast

lemma SignedSessionEncrypter_material:
  "SignedSessionEncrypter_Encrypt L sign d (se, ent) = (res, se', ent') \<Longrightarrow> se_session_material se' = se_session_material se"
  by (auto simp: SignedSessionEncrypter_Encrypt_def split: prod.splits sum.splits)

lemma SignedSession_output_conv:
  assumes "SignedSession_output L s kz d r = (Inr out, ent)"
  obtains se r1 blob se' where "SignedSessionEncrypter_init (default_Encrypt L kz) r = (Inr se, r1)"
    "SignedSessionEncrypter_Encrypt L (default_AttachedSign L s) d (se, r1) = (Inr blob, se', ent)"
    "out = json_dumps (JObj [(''output'', JStr blob), (''sessionMaterial'', JStr (se_session_material se))])"
  using assms SignedSessionEncrypter_material
  by (fastforce simp: SignedSession_output_def sbind_def split: prod.splits sum.splits)

interpretation session_op: interop_operation "SignedSession_Generate L" "SignedSession_Test L" "SignedSession_ready L" for L
proof
  fix self a g t w w1 out j and w2 :: world
  show "\<exists>j ent. json_plain j \<and> out = json_dumps j \<and> w1 = w\<lparr>w_ent := ent\<rparr>"
    if gen: "SignedSession_Generate L self a g w = Some (Inr out, w1)"
  proof -
    obtain s kz ent where e: "SignedSession_output L s kz (op_test_data self) (w_ent w) = (Inr out, ent)" "w1 = w\<lparr>w_ent := ent\<rparr>"
      using gen unfolding SignedSession_Generate_def prog_convs by blast
    obtain blob and se :: session_encrypter where "out = json_dumps (JObj [(''output'', JStr blob), (''sessionMaterial'', JStr (se_session_material se))])"
      by (rule SignedSession_output_conv [OF e(1)]) blast
    moreover have "json_plain (JObj [(''output'', JStr blob), (''sessionMaterial'', JStr (se_session_material se))])" by simp
    ultimately show ?thesis using e(2) by blast
  qed
  assume r: "SignedSession_ready L self a g t (w_fs w)" and gen: "SignedSession_Generate L self a g w = Some (Inr (json_dumps j), w1)"
    and j: "json_plain j" and fs: "w_fs w2 = w_fs w"
  obtain s v kz kz' where k: "op_signer_keys L Signer_acceptable self g (w_fs w) = Inr s"
    "op_signer_keys L Verifier_acceptable self g (w_fs w2) = Inr v" "signs_for L s v"
    "op_keys L Encrypter_acceptable self a g g (w_fs w) = Inr kz"
    "op_keys L Crypter_acceptable self a g t (w_fs w2) = Inr kz'" "encrypts_for L kz kz'" and L: "backend_ok L"
    using r fs by (auto simp: SignedSession_ready_def)
  obtain ent where e: "SignedSession_output L s kz (op_test_data self) (w_ent w) = (Inr (json_dumps j), ent)"
    using gen k(1,4) unfolding SignedSession_Generate_def prog_convs by auto
  obtain se r1 blob se' where o: "SignedSessionEncrypter_init (default_Encrypt L kz) (w_ent w) = (Inr se, r1)"
    "SignedSessionEncrypter_Encrypt L (default_AttachedSign L s) (op_test_data self) (se, r1) = (Inr blob, se', ent)"
    "json_dumps j = json_dumps (JObj [(''output'', JStr blob), (''sessionMaterial'', JStr (se_session_material se))])"
    by (rule SignedSession_output_conv [OF e])
  have j': "j = JObj [(''output'', JStr blob), (''sessionMaterial'', JStr (se_session_material se))]"
    by (rule json_dumps_inj [OF j _ o(3)]) simp
  obtain x where "SignedSessionDecrypter_init (crypter_dec L kz') (se_session_material se) = Inr x"
    "fst (SignedSessionDecrypter_Decrypt L (default_AttachedVerify L v) blob x) = Inr (Some (op_test_data self))"
    using signed_session_transport [OF default_transports [OF k(6)] default_attaches [OF k(3)] L o(1,2)] by blast
  then show "SignedSession_Test L self j a g t w2 = Some (Inr (), w2)"
    by (simp add: SignedSession_Test_def j' get_str_def with_keys_eval k(2,5))
qed

fun op_ready :: "crypto \<Rightarrow> operation \<Rightarrow> base_operation \<Rightarrow> string \<Rightarrow> json \<Rightarrow> json \<Rightarrow> fs \<Rightarrow> bool" where
  "op_ready L UnversionedSignOperation = UnversionedSign_ready L"
| "op_ready L AttachedSignOperation = AttachedSign_ready L"
| "op_ready L SignOperation = Sign_ready L"
| "op_ready L EncryptOperation = Encrypt_ready L"
| "op_ready L SignedSessionOperation = SignedSession_ready L"

interpretation ops: interop_operation "op_Generate L x" "op_Test L x" "op_ready L x" for L x
  by (cases x) (simp_all add: sign_op.interop_operation_axioms attached_op.interop_operation_axioms
      unversioned_op.interop_operation_axioms encrypt_op.interop_operation_axioms session_op.interop_operation_axioms)

subsection \<open>The program\<close>

definition generate_request :: "string \<Rightarrow> string \<Rightarrow> string \<Rightarrow> json \<Rightarrow> string \<Rightarrow> json" where
  "generate_request operation key_path algorithm g d = JObj [(''command'', JStr ''generate''),
     (''operation'', JStr operation), (''keyPath'', JStr key_path), (''algorithm'', JStr algorithm),
     (''generateOptions'', g), (''testData'', JStr d)]"

definition test_request :: "string \<Rightarrow> string \<Rightarrow> string \<Rightarrow> json \<Rightarrow> json \<Rightarrow> json \<Rightarrow> string \<Rightarrow> json" where
  "test_request operation key_path algorithm g t out d = JObj [(''command'', JStr ''test''),
     (''operation'', JStr operation), (''keyPath'', JStr key_path), (''algorithm'', JStr algorithm),
     (''generateOptions'', g), (''testOptions'', t), (''output'', out), (''testData'', JStr d)]"

lemma it_main_generate: "json_plain g \<Longrightarrow>
    it_main L [json_dumps (generate_request operation key_path algorithm g d)] = it_Generate L operation key_path algorithm g (JStr d)"
  by (simp add: it_main_def json_loads_dumps generate_request_def get_str_def)

lemma it_main_test: "json_plain g \<Longrightarrow> json_plain t \<Longrightarrow> json_plain out \<Longrightarrow>
    it_main L [json_dumps (test_request operation key_path algorithm g t out d)] = it_Test L operation out key_path algorithm g t (JStr d)"
  by (simp add: it_main_def json_loads_dumps test_request_def get_str_def)

lemma it_generate_test:
  assumes x: "map_of operations operation = Some x" and d: "str_json (JStr d) = Inr d"
    and ready: "op_ready L x \<lparr>op_test_data = d, op_key_path = key_path\<rparr> a g t (w_fs w)"
    and gen: "it_Generate L operation key_path a g (JStr d) w = Some (Inr (), w1)"
  obtains j ent where "json_plain j" "w1 = w\<lparr>w_ent := ent, w_out := w_out w @ [json_dumps j]\<rparr>"
    "\<And>w2. w_fs w2 = w_fs w \<Longrightarrow>
       it_Test L operation j key_path a g t (JStr d) w2 = Some (Inr (), w2\<lparr>w_out := w_out w2 @ [''Test passes'']\<rparr>)"
proof -
  let ?self = "\<lparr>op_test_data = d, op_key_path = key_path\<rparr>"
  have init: "BaseOperation_init key_path (JStr d) = Inr ?self" using d by (simp add: BaseOperation_init_def del: str_json.simps)
  obtain out w0 where o: "op_Generate L x ?self a g w = Some (Inr out, w0)" "w1 = w0\<lparr>w_out := w_out w0 @ [out]\<rparr>"
    using gen x unfolding it_Generate_def init find_operation_def by (auto simp: pbind_Inr_conv print_line_def)
  from ops.reads_own_output [OF o(1) ready] obtain j ent where j: "json_plain j" "out = json_dumps j" "w0 = w\<lparr>w_ent := ent\<rparr>"
    and t: "\<And>w2. w_fs w2 = w_fs w \<Longrightarrow> op_Test L x ?self j a g t w2 = Some (Inr (), w2)" by blast
  have "it_Test L operation j key_path a g t (JStr d) w2 = Some (Inr (), w2\<lparr>w_out := w_out w2 @ [''Test passes'']\<rparr>)"
    if "w_fs w2 = w_fs w" for w2
    using x t [OF that] by (simp add: it_Test_def init find_operation_def pbind_Some [where m = "op_Test L x ?self j a g t"]
        print_line_def)
  with j o(2) that [of j ent] show ?thesis by simp
qed

end
