(* ===== verification/InteropRun.thy ===== *)
theory InteropRun
  imports InteropTestSpec
begin

text \<open>
  The driver and the program together: \<open>generate\<close> and \<open>test\<close> always return; when the driver's
  implementation is the Python program, every test it runs on an output of that program passes; and
  key sets that are on disk, also exported ones, are ready for it.
\<close>

subsection \<open>Generating and testing return\<close>

definition returns :: "'a prog \<Rightarrow> bool" where
  "returns m \<longleftrightarrow> (\<forall>w. m w \<noteq> None)"

named_theorems returning

lemma returns_basic [returning]: "returns (pret x)" "returns (praise e)" "returns (plift r)" "returns pget"
  "returns (on_ent m)" "returns (print_line s)" "returns (passert b)"
  by (auto simp: returns_def prog_defs passert_def split: prod.split)

lemma returns_bind [returning]: "returns m \<Longrightarrow> (\<And>x. returns (f x)) \<Longrightarrow> returns (pbind m f)"
  by (auto simp: returns_def pbind_def split: option.split prod.split sum.split)

lemma returns_wrappers [returning]: "(\<And>kz. returns (m' kz)) \<Longrightarrow> returns (with_keys keys m')"
  "returns g \<Longrightarrow> returns (JsonOutput g)" "(\<And>s. returns (t s)) \<Longrightarrow> returns (JsonInput t j)"
  unfolding with_keys_def JsonOutput_def JsonInput_def by (intro returning; assumption)+

lemma op_Generate_returns [returning]: "returns (op_Generate L x self a g)"
  by (cases x) (auto simp: UnversionedSign_Generate_def AttachedSign_Generate_def Sign_Generate_def
      Encrypt_Generate_def SignedSession_Generate_def intro!: returning)

lemma op_Test_returns [returning]: "returns (op_Test L x self j a g t)"
  by (cases x) (auto simp: UnversionedSign_Test_def AttachedSign_Test_def Sign_Test_def
      Encrypt_Test_def SignedSession_Test_def intro!: returning)

lemma it_Generate_returns: "returns (it_Generate L operation key_path a g d)"
  unfolding it_Generate_def by (intro returning)

lemma it_Test_returns: "returns (it_Test L operation out key_path a g t d)"
  unfolding it_Test_def by (intro returning)

subsection \<open>The program as the driver calls it\<close>

definition stdout :: "string list \<Rightarrow> string" where
  "stdout lines = concat (map (\<lambda>l. l @ [CHR 0x0A]) lines)"

definition process :: "fs \<Rightarrow> entropy \<Rightarrow> world" where
  "process f ent = \<lparr>w_fs = f, w_ent = ent, w_mock = None, w_out = []\<rparr>"

text \<open>
  The host runs the program under the command: a call ends with what was printed and the changed
  files, or, after an exception, with an error code. The random bytes of a call are any; nothing is
  said of a call that does not return.
\<close>

definition runs_program :: "crypto \<Rightarrow> host \<Rightarrow> string list \<Rightarrow> bool" where
  "runs_program L H cmd \<longleftrightarrow> (\<forall>arg f. \<exists>ent. case it_main L [arg] (process f ent) of
       None \<Rightarrow> True
     | Some (Inr u, w) \<Rightarrow> check_output H (cmd @ [arg]) f = (Inr (stdout (w_out w)), w_fs w)
     | Some (Inl e, w) \<Rightarrow> \<exists>out. check_output H (cmd @ [arg]) f = (Inl (CalledProcessError out), w_fs w))"

lemma runs_program_Inr:
  assumes "runs_program L H cmd" and "check_output H (cmd @ [arg]) f = (Inr out, f')" and "returns (it_main L [arg])"
  obtains ent w where "it_main L [arg] (process f ent) = Some (Inr (), w)" "out = stdout (w_out w)" "f' = w_fs w"
proof -
  obtain ent where e: "case it_main L [arg] (process f ent) of None \<Rightarrow> True
     | Some (Inr u, w) \<Rightarrow> check_output H (cmd @ [arg]) f = (Inr (stdout (w_out w)), w_fs w)
     | Some (Inl e, w) \<Rightarrow> \<exists>out. check_output H (cmd @ [arg]) f = (Inl (CalledProcessError out), w_fs w)"
    using assms(1) unfolding runs_program_def by blast
  obtain r w where r: "it_main L [arg] (process f ent) = Some (r, w)"
    using assms(3) by (metis not_None_eq old.prod.exhaust returns_def)
  show ?thesis using that r e assms(2) by (cases r) auto
qed

lemma runs_program_main:
  assumes "runs_program L H cmd"
    and "\<And>ent. \<exists>w. it_main L [arg] (process f ent) = Some (Inr (), w) \<and> w_out w = lines \<and> w_fs w = f'"
  shows "check_output H (cmd @ [arg]) f = (Inr (stdout lines), f')"
proof -
  obtain ent where e: "case it_main L [arg] (process f ent) of None \<Rightarrow> True
     | Some (Inr u, w) \<Rightarrow> check_output H (cmd @ [arg]) f = (Inr (stdout (w_out w)), w_fs w)
     | Some (Inl e, w) \<Rightarrow> \<exists>out. check_output H (cmd @ [arg]) f = (Inl (CalledProcessError out), w_fs w)"
    using assms(1) unfolding runs_program_def by blast
  with assms(2) [of ent] show ?thesis by auto
qed

lemma CallImplementation_cmd:
  assumes "json_get implementation (rn_implementations r) = Inr (JList (map JStr cmd))"
  shows "CallImplementation H r implementation params w = (case check_output H (cmd @ params) (iw_fs w) of
         (Inr out, f) \<Rightarrow> (Inr out, w\<lparr>iw_fs := f\<rparr>)
       | (Inl (CalledProcessError out), f) \<Rightarrow>
           (Inl (PyException (list2cmdline (cmd @ params) @ '' failed:'' @ [CHR 0x0A] @ '' '' @ out)), w\<lparr>iw_fs := f\<rparr>)
       | (Inl CannotStart, f) \<Rightarrow> (Inl PyOSError, w\<lparr>iw_fs := f\<rparr>))"
proof -
  have "emap as_str (map JStr cmd) = Inr cmd" by (induction cmd) simp_all
  then show ?thesis using assms by (simp add: CallImplementation_def sbind_def slift_def Let_def)
qed

lemma TESTDATA_ascii: "str_json (JStr TESTDATA) = Inr TESTDATA"
  by (simp add: TESTDATA_def of_char_def)

subsection \<open>The tests of the driver pass\<close>

lemma driver_test_passes:
  assumes H: "runs_program L H cmd"
    and gi: "json_get gi (rn_implementations r) = Inr (JList (map JStr cmd))"
    and ti: "json_get ti (rn_implementations r) = Inr (JList (map JStr cmd))"
    and x: "map_of operations operation = Some x"
    and plain: "json_plain (JObj g)" "json_plain (JObj t)"
    and ready: "op_ready L x \<lparr>op_test_data = TESTDATA, op_key_path = GetKeyPath gi\<rparr> a (JObj g) (JObj t) (iw_fs w)"
    and gen: "Generate_output H r gi operation a g w = (Inr out, w1)"
    and fs: "iw_fs w2 = iw_fs w"
  shows "w1 = w \<and> run_test_case H r \<lparr>tc_output_json = out, tc_test_implementation = ti, tc_generate_implementation = gi,
      tc_operation = operation, tc_algorithm = a, tc_generate_options = g, tc_test_options = t\<rparr> w2
    = (Inr (''Test passes'' @ [CHR 0x0A]), w2)"
proof -
  let ?arg = "json_dumps (generate_request operation (GetKeyPath gi) a (JObj g) TESTDATA)"
  obtain f' where c: "check_output H (cmd @ [?arg]) (iw_fs w) = (Inr out, f')" "w1 = w\<lparr>iw_fs := f'\<rparr>"
    using gen unfolding Generate_output_def generate_request_def [symmetric] CallImplementation_cmd [OF gi]
    by (auto split: prod.splits sum.splits proc_error.splits)
  have main: "it_main L [?arg] = it_Generate L operation (GetKeyPath gi) a (JObj g) (JStr TESTDATA)"
    by (rule it_main_generate [OF plain(1)])
  obtain ent p where p: "it_Generate L operation (GetKeyPath gi) a (JObj g) (JStr TESTDATA) (process (iw_fs w) ent) = Some (Inr (), p)"
    "out = stdout (w_out p)" "f' = w_fs p"
    using runs_program_Inr [OF H c(1)] it_Generate_returns unfolding main by metis
  obtain j ent' where j: "json_plain j" "p = process (iw_fs w) ent\<lparr>w_ent := ent', w_out := [json_dumps j]\<rparr>"
    and test: "\<And>w2. w_fs w2 = iw_fs w \<Longrightarrow> it_Test L operation j (GetKeyPath gi) a (JObj g) (JObj t) (JStr TESTDATA) w2
      = Some (Inr (), w2\<lparr>w_out := w_out w2 @ [''Test passes'']\<rparr>)"
    using it_generate_test [OF x TESTDATA_ascii _ p(1), of "JObj t"] ready by (auto simp: process_def)
  have out: "out = json_dumps j @ [CHR 0x0A]" "f' = iw_fs w" using p(2,3) j(2) by (simp_all add: stdout_def process_def)
  let ?arg2 = "json_dumps (test_request operation (GetKeyPath gi) a (JObj g) (JObj t) j TESTDATA)"
  have "check_output H (cmd @ [?arg2]) (iw_fs w2) = (Inr (stdout [''Test passes'']), iw_fs w2)"
  proof (rule runs_program_main [OF H])
    fix e
    show "\<exists>v. it_main L [?arg2] (process (iw_fs w2) e) = Some (Inr (), v) \<and> w_out v = [''Test passes''] \<and> w_fs v = iw_fs w2"
      using it_main_test [OF plain j(1)] test [of "process (iw_fs w2) e"] fs by (simp add: process_def)
  qed
  then have "run_test_case H r \<lparr>tc_output_json = out, tc_test_implementation = ti, tc_generate_implementation = gi,
      tc_operation = operation, tc_algorithm = a, tc_generate_options = g, tc_test_options = t\<rparr> w2
    = (Inr (''Test passes'' @ [CHR 0x0A]), w2)"
    unfolding run_test_case_def test_request_def [symmetric]
    by (simp add: sbind_def slift_def out(1) json_loads_line [OF j(1)] test_request_def CallImplementation_cmd [OF ti] stdout_def)
  then show ?thesis using c(2) out(2) by simp
qed

subsection \<open>A new key set for signing\<close>

lemma Keyczar_init_acceptable:
  assumes "Keyczar_init (\<lambda>p. True) rd = Inr kz" and "acc (purpose (kz_metadata kz))"
  shows "Keyczar_init acc rd = Inr kz"
proof -
  obtain tx kmd h where m: "rd_GetMetadata rd = Inr tx" "KeyMetadata_Read tx [] = (Inr kmd, h)" "encrypted kmd \<longrightarrow> rd_encrypted rd"
    and l: "load_keys rd (kmd_versions kmd) \<lparr>kz_heap = h, kz_metadata = kmd, kz_keys = [], kz_primary = None,
       kz_default_size = default_size (kmd_type kmd)\<rparr> = Inr kz"
    using assms(1) by (rule Keyczar_init_cases)
  have "kz_metadata kz = kmd" using load_keys_frame [OF l] by simp
  then show ?thesis using m l assms(2) by (simp add: Keyczar_init_def)
qed

lemma single_version:
  assumes ok: "kmd_ok (kz_heap kz) (kz_metadata kz)" and st: "kz_statuses kz = [1 \<mapsto> s]"
  obtains r where "kmd_versions (kz_metadata kz) = [r]"
proof -
  let ?d = "version_dict (kz_metadata kz)"
  have "n = 1" if "(n, q) \<in> set ?d" for n q
  proof -
    have "kmd_find n (kz_metadata kz) = Some q" using ok that by (simp add: kmd_ok_def kmd_find_map)
    then have "kz_statuses kz n \<noteq> None" by (simp add: kz_statuses_def)
    then show ?thesis using st by (simp split: if_splits)
  qed
  then have "set (map fst ?d) \<subseteq> {1}" by auto
  moreover have "distinct (map fst ?d)" using ok by (simp add: kmd_ok_def)
  ultimately have "length ?d \<le> 1" using distinct_card [of "map fst ?d"] card_mono [of "{1}" "set (map fst ?d)"] by simp
  moreover have "?d \<noteq> []"
  proof
    assume "?d = []"
    then have "kz_statuses kz 1 = None" by (simp add: kz_statuses_def kmd_find_map)
    with st show False by simp
  qed
  ultimately obtain e where "?d = [e]" by (cases ?d) auto
  then show ?thesis using that by (simp add: kmd_versions_def)
qed

lemma loaded_single:
  assumes i: "Keyczar_init acc rd = Inr kz" and st: "kz_statuses kz = [1 \<mapsto> PRIMARY]"
  obtains r k h where "kz_versions kz = [r]" "primary_key kz = Inr k" "key_hash_id k = Inr h"
    "map_of (kz_keys kz) = [VersionId r \<mapsto> k, HashId h \<mapsto> k]" "key_type_of k = kmd_type (kz_metadata kz)"
proof -
  note inv = Keyczar_init_inv [OF i]
  obtain r where r: "kmd_versions (kz_metadata kz) = [r]"
    using single_version [OF _ st] inv(1) unfolding kz_inv_def by blast
  obtain kmd hp where l: "load_keys rd (kmd_versions kmd) \<lparr>kz_heap = hp, kz_metadata = kmd, kz_keys = [], kz_primary = None,
       kz_default_size = default_size (kmd_type kmd)\<rparr> = Inr kz"
    using i by (rule Keyczar_init_cases)
  have fr': "kmd_versions kmd = [r]" using load_keys_frame [OF l] r by simp
  obtain k h where k: "key_hash_id k = Inr h" "kz_keys kz = AList.update (HashId h) k (AList.update (VersionId r) k [])"
    using l unfolding fr' by (rule load_keys_Cons) auto
  have vs: "kz_versions kz = [r]" using loaded_versions [OF i] r by simp
  obtain q where q: "kz_primary kz = Some q" "q \<in> set (kmd_versions (kz_metadata kz))"
    using statuses_primary [OF inv(1), of 1] st inv(1) metadata_ref by (auto simp: find_GetVersion kz_inv_def split: sum.splits)
  then have p: "primary_key kz = Inr k" using r k(2) by (simp add: primary_key_def primary_id_def GetKey_def)
  have "map_of (kz_keys kz) = [VersionId r \<mapsto> k, HashId h \<mapsto> k]" unfolding k(2) by (simp add: update_conv' fun_upd_twist)
  moreover have "key_type_of k = kmd_type (kz_metadata kz)" using inv(2) k(2) by (simp add: types_ok_def)
  ultimately show ?thesis using that vs p k(1) by blast
qed

text \<open>An HMAC key always signs and never raises.\<close>

lemma hmac_signs:
  assumes p: "primary_key kz = Inr (HmacKey k)" and h: "key_hash_id (HmacKey k) = Inr h"
  shows "\<exists>sig ent'. Signer_Sign L kz d encoder ent = (Inr sig, ent')"
    and "\<exists>sig ent'. UnversionedSigner_Sign L kz d encoder ent = (Inr sig, ent')"
    and "int (length d) < 2 ^ 31 \<Longrightarrow> \<exists>sig ent'. Signer_AttachedSign L kz d (Some []) encoder ent = (Inr sig, ent')"
proof -
  obtain hdr where hdr: "key_Header (HmacKey k) = Inr hdr"
    using key_hash_encodes [OF h] key_Header_hash [OF h] by auto
  obtain kb where "hmac_key_bytes k = Inr kb" using h by (auto simp: hmac_Hash_def ebind_Inr_conv)
  then have "hmac_Sign k x = Inr (hmac_sha1 kb x)" for x by (simp add: hmac_Sign_def)
  moreover have "PackByteArray (Some x) = Inr (IntToBytes (int (length x)) @ x)" if "int (length x) < 2 ^ 31" for x
    using that by (rule PackByteArray_ok)
  ultimately show "\<exists>sig ent'. Signer_Sign L kz d encoder ent = (Inr sig, ent')"
    and "\<exists>sig ent'. UnversionedSigner_Sign L kz d encoder ent = (Inr sig, ent')"
    and "int (length d) < 2 ^ 31 \<Longrightarrow> \<exists>sig ent'. Signer_AttachedSign L kz d (Some []) encoder ent = (Inr sig, ent')"
    using p hdr
    by (simp_all add: Signer_Sign_def UnversionedSigner_Sign_def Signer_AttachedSign_def InternalSign_def sbind_def slift_def
        sret_def PackByteArray_None)
qed

definition sign_options :: "string \<Rightarrow> json" where
  "sign_options e = JObj [(''cryptedKeySet'', JStr []), (''encoding'', JStr e)]"

definition verify_options :: "string \<Rightarrow> json" where
  "verify_options c = JObj [(''class'', JStr c), (''pubKey'', JStr [])]"

lemma options_read [simp]: "op_encoder (sign_options e) = Inr (if e = ''encoded'' then Some Base64WSEncode else None)"
  "option_is ''class'' ''verifier'' (verify_options c) = Inr (c = ''verifier'')"
  "json_plain (sign_options e)" "json_plain (verify_options c)"
  by (simp_all add: op_encoder_def option_is_def sign_options_def verify_options_def)

lemma op_keys_plain:
  assumes "GenericKeyczar_Read f (path_join (op_key_path self) a) = Inr kz" and "acc (purpose (kz_metadata kz))"
  shows "op_keys L acc self a (sign_options e) (sign_options e) f = Inr kz"
    and "op_keys L acc self a (sign_options e) (verify_options c) f = Inr kz"
proof -
  obtain rd where "CreateReader f (path_join (op_key_path self) a) = Inr rd" "Keyczar_init (\<lambda>p. True) rd = Inr kz"
    using assms(1) by (auto simp: GenericKeyczar_Read_def ebind_Inr_conv)
  moreover from this(2) assms(2) have "Keyczar_init acc rd = Inr kz" by (rule Keyczar_init_acceptable)
  ultimately show "op_keys L acc self a (sign_options e) (sign_options e) f = Inr kz"
    and "op_keys L acc self a (sign_options e) (verify_options c) f = Inr kz"
    by (simp_all add: op_keys_def sign_options_def verify_options_def get_str_def get_default_def op_GetReader_def
        op_GetKeyPath_def)
qed

definition sign_operations :: "operation set" where
  "sign_operations = {UnversionedSignOperation, AttachedSignOperation, SignOperation}"

lemma hmac_ready:
  assumes rd: "GenericKeyczar_Read (w_fs w) (path_join (op_key_path self) a) = Inr kz"
    and st: "kz_statuses kz = [1 \<mapsto> PRIMARY]" and t: "kmd_type (kz_metadata kz) = HMAC_SHA1"
    and p: "purpose (kz_metadata kz) = SIGN_AND_VERIFY"
    and d: "op_test_data self \<noteq> []" "int (length (op_test_data self)) < 2 ^ 31" and x: "x \<in> sign_operations"
  shows "op_ready L x self a (sign_options e) (verify_options c) (w_fs w)"
    and "\<exists>out w1. op_Generate L x self a (sign_options e) w = Some (Inr out, w1)"
proof -
  obtain acc rd' where i: "Keyczar_init acc rd' = Inr kz" using rd by (auto simp: GenericKeyczar_Read_def ebind_Inr_conv)
  obtain r k h where k: "kz_versions kz = [r]" "primary_key kz = Inr k" "key_hash_id k = Inr h"
    "map_of (kz_keys kz) = [VersionId r \<mapsto> k, HashId h \<mapsto> k]" "key_type_of k = HMAC_SHA1"
    using loaded_single [OF i st] t by metis
  then obtain hk where hk: "k = HmacKey hk" by (cases k) auto
  obtain kb where kb: "hmac_key_bytes hk = Inr kb" using k(3) hk by (auto simp: hmac_Hash_def ebind_Inr_conv)
  note keys = op_keys_plain [OF rd, where L = L]
  have "signs_for L kz kz" using k(2-4) hk by (simp add: signs_for_def)
  moreover have "\<exists>b. key_Verify L k d s = Inr b" for d s using kb by (simp add: hk hmac_Verify_def hmac_Sign_def)
  then have "signs_unversioned_for L kz kz" using k(1,2,4) hk by (auto simp: signs_unversioned_for_def)
  ultimately show "op_ready L x self a (sign_options e) (verify_options c) (w_fs w)"
    using x d(1) keys p
    by (auto simp: sign_operations_def UnversionedSign_ready_def AttachedSign_ready_def Sign_ready_def
        Verifier_acceptable_def Signer_acceptable_def UnversionedVerifier_acceptable_def UnversionedSigner_acceptable_def)
  note sg = hmac_signs [OF k(2) [unfolded hk] k(3) [unfolded hk], where L = L and d = "op_test_data self" and ent = "w_ent w"]
  show "\<exists>out w1. op_Generate L x self a (sign_options e) w = Some (Inr out, w1)"
    using x d(2) keys p sg
    by (auto simp: sign_operations_def UnversionedSign_Generate_def AttachedSign_Generate_def Sign_Generate_def
        JsonOutput_conv prog_convs Signer_acceptable_def UnversionedSigner_acceptable_def)
qed

lemma it_main_create: "it_main L [create_params cmds] = it_Create L (map (\<lambda>c. JList (map JStr c)) cmds)"
proof -
  have "json_plain (JObj [(''command'', JStr ''create''), (''keyczartCommands'', JList (map (\<lambda>c. JList (map JStr c)) cmds))])"
    by (simp add: list_all_iff)
  then show ?thesis by (simp add: it_main_def create_params_def json_loads_dumps)
qed

lemma emap_as_str [simp]: "emap as_str (map JStr xs) = Inr xs"
  by (induction xs) simp_all

lemma hmac_end_to_end:
  assumes "w_mock w = None" and "path_join kp (algorithm @ str_int sz) \<in> set (fs_dirs (w_fs w))"
    and "loc_open (w_fs w) (path_join kp (algorithm @ str_int sz))"
    and "\<not> path_exists (w_fs w) (path_join (path_join kp (algorithm @ str_int sz)) ''meta'')"
    and "CHR ''='' \<notin> set algorithm" and "CHR ''='' \<notin> set (path_join kp (algorithm @ str_int sz))"
    and "IsValidSize HMAC_SHA1 sz"
    and "get_flags r algorithm ''createFlags'' = Inr [''--purpose=sign'']" and "get_flags r algorithm ''addKeyFlags'' = Inr []"
    and "map_of operations operation = Some x" and "x \<in> sign_operations"
  shows "\<exists>create addkey w1 w2 j. GetCreateFlags r algorithm sz (path_join kp (algorithm @ str_int sz)) = Inr create
    \<and> GetAddKeyFlags r algorithm sz (path_join kp (algorithm @ str_int sz)) [] = Inr addkey
    \<and> it_main L [create_params [create, addkey]] w = Some (Inr (), w1)
    \<and> it_main L [json_dumps (generate_request operation kp (algorithm @ str_int sz) (sign_options e) TESTDATA)] w1 = Some (Inr (), w2)
    \<and> w_out w2 = w_out w1 @ [json_dumps j]
    \<and> it_main L [json_dumps (test_request operation kp (algorithm @ str_int sz) (sign_options e) (verify_options c) j TESTDATA)] w2
        = Some (Inr (), w2\<lparr>w_out := w_out w2 @ [''Test passes'']\<rparr>)"
proof -
  let ?a = "algorithm @ str_int sz"
  let ?self = "\<lparr>op_test_data = TESTDATA, op_key_path = kp\<rparr>"
  have sign: "(''sign'', SIGN_AND_VERIFY, HMAC_SHA1) \<in>
      {(''crypt'', DECRYPT_AND_ENCRYPT, AES), (''sign'', SIGN_AND_VERIFY, HMAC_SHA1)}" by simp
  have flags: "get_flags r algorithm ''createFlags'' = Inr [''--purpose='' @ ''sign'']" using assms(8) by simp
  obtain create addkey w0 w1 kz where c: "GetCreateFlags r algorithm sz (path_join kp ?a) = Inr create"
    "GetAddKeyFlags r algorithm sz (path_join kp ?a) [] = Inr addkey"
    "main L create w = Some (Inr (), w0)" "main L addkey w0 = Some (Inr (), w1)"
    "GenericKeyczar_Read (w_fs w1) (path_join kp ?a) = Inr kz" "kz_statuses kz = [1 \<mapsto> PRIMARY]"
    "kmd_type (kz_metadata kz) = HMAC_SHA1" "purpose (kz_metadata kz) = SIGN_AND_VERIFY"
    using interop_creates [OF assms(1-6) sign assms(7) flags assms(9), of L] by blast
  have create: "it_main L [create_params [create, addkey]] w = Some (Inr (), w1)"
    by (simp add: it_main_create pbind_def plift_def c(3,4) pret_def)
  have d: "TESTDATA \<noteq> []" "length TESTDATA < 2147483648" by (simp_all add: TESTDATA_def)
  note ready = hmac_ready [where self = ?self, simplified, OF c(5-8) d assms(11)]
  have init: "BaseOperation_init kp (JStr TESTDATA) = Inr ?self"
    using TESTDATA_ascii by (simp add: BaseOperation_init_def del: str_json.simps)
  obtain out v where "op_Generate L x ?self ?a (sign_options e) w1 = Some (Inr out, v)" using ready(2) by blast
  then have gen: "it_Generate L operation kp ?a (sign_options e) (JStr TESTDATA) w1 = Some (Inr (), v\<lparr>w_out := w_out v @ [out]\<rparr>)"
    using assms(10) by (simp add: it_Generate_def find_operation_def init pbind_Some print_line_def)
  obtain w2 where w2: "w2 = v\<lparr>w_out := w_out v @ [out]\<rparr>" by simp
  note gen = gen [folded w2]
  obtain j ent where j: "json_plain j" "w2 = w1\<lparr>w_ent := ent, w_out := w_out w1 @ [json_dumps j]\<rparr>"
    and t: "\<And>w3. w_fs w3 = w_fs w1 \<Longrightarrow> it_Test L operation j kp ?a (sign_options e) (verify_options c) (JStr TESTDATA) w3
      = Some (Inr (), w3\<lparr>w_out := w_out w3 @ [''Test passes'']\<rparr>)"
    using it_generate_test [OF assms(10) TESTDATA_ascii ready(1) [where c = c] gen] by blast
  have same: "w_fs w2 = w_fs w1" "w_out w2 = w_out w1 @ [json_dumps j]" unfolding j(2) by simp_all
  show ?thesis
    by (intro exI [of _ create] exI [of _ addkey] exI [of _ w1] exI [of _ w2] exI [of _ j] conjI)
      (use c(1,2) create gen t [OF same(1)] same(2) in \<open>simp_all add: it_main_generate it_main_test j(1)\<close>)
qed

end
