(* ===== verification/Examples.thy ===== *)
theory Examples
  imports InteropRun Asn1
begin

text \<open>
  Concrete keys, key sets and streams: the instances on which the properties of \<open>Spec2Isabelle\<close> are
  applied, so that their hypotheses are seen to hold together. The packages are \<open>demo_crypto\<close>.
\<close>

subsection \<open>Keys\<close>

definition zero_entropy :: entropy where
  "zero_entropy = (\<lambda>i. CHR 0x00)"

definition demo_aes :: aes_key where
  "demo_aes = fresh_aes zero_entropy"

definition demo_hmac :: hmac_key where
  "demo_hmac = \<lparr>hmac_key_string = Base64WSEncode ''secret'', hmac_size = 256\<rparr>"

lemma demo_backend: "backend_ok demo_crypto"
  using demo_aes_laws by (simp add: backend_ok_def demo_crypto_def)

lemma demo_aes_ok: "aes_ok demo_aes" "key_ok (AesKey demo_aes)"
  using session_ok_new [of zero_entropy None] by (simp_all add: session_ok_def Session_Create_def demo_aes_def)

lemma demo_hmac_ok: "key_ok (HmacKey demo_hmac)"
  by (simp add: demo_hmac_def IsValidSize_def)

lemma demo_hmac_bytes: "hmac_key_bytes demo_hmac = Inr ''secret''"
  by (simp add: hmac_key_bytes_def demo_hmac_def key_bytes_def del: encode_simps)

lemma demo_hmac_Sign: "hmac_Sign demo_hmac d = Inr (hmac_sha1 ''secret'' d)"
  by (simp add: hmac_Sign_def demo_hmac_bytes)

lemma demo_aes_Hash: obtains h where "aes_Hash demo_aes = Inr h"
  using aes_Header_ok [OF demo_aes_ok(1)] by blast

lemma demo_hmac_Hash: obtains h where "hmac_Hash demo_hmac = Inr h"
  by (simp add: hmac_Hash_def demo_hmac_bytes)

subsection \<open>Key sets\<close>

lemma complete_static:
  assumes i: "Keyczar_init acc rd = Inr kz" and k: "map_of (kz_keys kz) = [VersionId r \<mapsto> k, HashId h \<mapsto> k]"
    and h: "key_hash_id k = Inr h" and ok: "key_ok k"
  shows "kz_complete kz"
proof -
  have inv: "kz_inv kz" "types_ok kz" using Keyczar_init_inv [OF i] by simp_all
  then have d: "distinct (map fst (kz_keys kz))" by (simp add: kz_inv_def dict_ok_def)
  have "key_ok x" if "(i, x) \<in> set (kz_keys kz)" for i x
  proof -
    have "map_of (kz_keys kz) i = Some x" using that d by simp
    then show ?thesis using k ok by (auto split: if_splits)
  qed
  moreover have "hash_ok kz" using k h by (auto simp: hash_ok_def)
  ultimately show ?thesis using inv by (auto simp: kz_complete_def)
qed

lemma demo_aes_keyset:
  obtains kz h r where "Keyczar_init Crypter_acceptable (StaticKeyReader (AesKey demo_aes) DECRYPT_AND_ENCRYPT) = Inr kz"
    "primary_key kz = Inr (AesKey demo_aes)" "aes_Hash demo_aes = Inr h"
    "map_of (kz_keys kz) (HashId h) = Some (AesKey demo_aes)" "kz_complete kz" "kz_statuses kz = [1 \<mapsto> PRIMARY]"
    "\<forall>i x. map_of (kz_keys kz) i = Some x \<longrightarrow> key_type_of x = AES"
proof -
  obtain h where h: "aes_Hash demo_aes = Inr h" by (rule demo_aes_Hash)
  then have h': "key_hash_id (AesKey demo_aes) = Inr h" by simp
  obtain kz r where kz: "Keyczar_init Crypter_acceptable (StaticKeyReader (AesKey demo_aes) DECRYPT_AND_ENCRYPT) = Inr kz"
    "primary_key kz = Inr (AesKey demo_aes)"
    "map_of (kz_keys kz) = [VersionId r \<mapsto> AesKey demo_aes, HashId h \<mapsto> AesKey demo_aes]"
    "version_dict (kz_metadata kz) = [(1, r)]" "status (kz_heap kz ! r) = PRIMARY"
    using static_keyset [of "AesKey demo_aes" h Crypter_acceptable DECRYPT_AND_ENCRYPT] demo_aes_ok(2) h'
    by (auto simp: Crypter_acceptable_def)
  have "kz_statuses kz = [1 \<mapsto> PRIMARY]" using kz(4,5) by (auto simp: kz_statuses_def kmd_find_map fun_eq_iff)
  then show ?thesis using that complete_static [OF kz(1,3) h' demo_aes_ok(2)] kz h by simp
qed

lemma demo_Encrypt:
  assumes "primary_key kz = Inr (AesKey demo_aes)"
  shows "\<exists>ct r'. Encrypter_Encrypt demo_crypto kz d None zero_entropy = (Inr ct, r')"
proof -
  obtain raw r' where "aes_Encrypt demo_crypto demo_aes d zero_entropy = (Inr raw, r')"
    by (rule aes_Encrypt_shape [OF demo_backend demo_aes_ok(1)])
  then show ?thesis by (simp add: Encrypt_AES [OF assms])
qed

lemma demo_setup:
  assumes "aes_Hash demo_aes = Inr h" and "map_of (kz_keys kz) (HashId h) = Some (AesKey demo_aes)"
  obtains b kb hb where "dr_setup demo_crypto (stream_parse kz) demo_aes kb hb (CHR 0x00 # b) (replicate 16 CHR 0x00)"
proof -
  obtain kb hb where k: "aes_key_bytes demo_aes = Inr kb" "hmac_key_bytes (aes_hmac_key demo_aes) = Inr hb"
    "aes_args kb (replicate 16 CHR 0x00)"
    using aes_okE [OF demo_aes_ok(1)] by (metis length_replicate)
  obtain b where b: "h = Base64WSEncode b" "length b = 4" using key_hash_encodes [of "AesKey demo_aes"] assms(1) by auto
  have "stream_parse kz (CHR 0x00 # b) = Inr demo_aes"
    using assms(2) b by (simp add: stream_parse_def ParseHeader_zero GetKey_def)
  then have "dr_setup demo_crypto (stream_parse kz) demo_aes kb hb (CHR 0x00 # b) (replicate 16 CHR 0x00)"
    using k b demo_aes_laws by (simp add: dr_setup_def)
  then show ?thesis using that by blast
qed

lemma demo_aes_demoted:
  obtains kz h kz' where "primary_key kz = Inr (AesKey demo_aes)" "aes_Hash demo_aes = Inr h"
    "map_of (kz_keys kz) (HashId h) = Some (AesKey demo_aes)" "kz_complete kz" "run_op (OpDemote 1) kz = (Inr (), kz')"
proof -
  obtain kz h where k: "primary_key kz = Inr (AesKey demo_aes)" "aes_Hash demo_aes = Inr h"
    "map_of (kz_keys kz) (HashId h) = Some (AesKey demo_aes)" "kz_complete kz" "kz_statuses kz = [1 \<mapsto> PRIMARY]"
    by (rule demo_aes_keyset)
  have "implements (run_op (OpDemote 1) kz) kz (spec_op (OpDemote 1) (kz_statuses kz))"
    using k(4) by (intro run_op_refines) (simp add: kz_complete_def)
  then obtain kz' where "run_op (OpDemote 1) kz = (Inr (), kz')"
    by (cases "run_op (OpDemote 1) kz") (auto simp: implements_def k(5) spec_demote_def split: sum.splits)
  with that k show ?thesis by blast
qed

lemma demo_hmac_keyset:
  obtains kz h r where "Keyczar_init Signer_acceptable (StaticKeyReader (HmacKey demo_hmac) SIGN_AND_VERIFY) = Inr kz"
    "primary_key kz = Inr (HmacKey demo_hmac)" "key_hash_id (HmacKey demo_hmac) = Inr h"
    "map_of (kz_keys kz) (HashId h) = Some (HmacKey demo_hmac)"
    "kz_versions kz = [r]" "map_of (kz_keys kz) (VersionId r) = Some (HmacKey demo_hmac)" "kz_inv kz"
proof -
  obtain h where h: "key_hash_id (HmacKey demo_hmac) = Inr h" using demo_hmac_Hash by auto
  obtain kz r where kz: "Keyczar_init Signer_acceptable (StaticKeyReader (HmacKey demo_hmac) SIGN_AND_VERIFY) = Inr kz"
    "primary_key kz = Inr (HmacKey demo_hmac)"
    "map_of (kz_keys kz) = [VersionId r \<mapsto> HmacKey demo_hmac, HashId h \<mapsto> HmacKey demo_hmac]"
    "kz_versions kz = [r]"
    using static_keyset [of "HmacKey demo_hmac" h Signer_acceptable SIGN_AND_VERIFY] demo_hmac_ok h
    by (auto simp: Signer_acceptable_def)
  then show ?thesis using that h Keyczar_init_inv(1) by simp
qed

lemma demo_Sign:
  assumes "primary_key kz = Inr (HmacKey demo_hmac)"
  shows "\<exists>sig r'. Signer_Sign demo_crypto kz d encoder zero_entropy = (Inr sig, r')"
    and "\<exists>sig r'. UnversionedSigner_Sign demo_crypto kz d encoder zero_entropy = (Inr sig, r')"
    and "int (length d) < 2 ^ 31 \<Longrightarrow> \<exists>sig r'. Signer_AttachedSign demo_crypto kz d None encoder zero_entropy = (Inr sig, r')"
proof -
  obtain h where "key_hash_id (HmacKey demo_hmac) = Inr h" using demo_hmac_Hash by auto
  then obtain hdr where "key_Header (HmacKey demo_hmac) = Inr hdr"
    using key_hash_encodes [of "HmacKey demo_hmac" h] key_Header_hash [of "HmacKey demo_hmac" h] by auto
  moreover have "PackByteArray (Some d) = Inr (IntToBytes (int (length d)) @ d)" if "int (length d) < 2 ^ 31"
    using that by (rule PackByteArray_ok)
  ultimately show "\<exists>sig r'. Signer_Sign demo_crypto kz d encoder zero_entropy = (Inr sig, r')"
    and "\<exists>sig r'. UnversionedSigner_Sign demo_crypto kz d encoder zero_entropy = (Inr sig, r')"
    and "int (length d) < 2 ^ 31 \<Longrightarrow> \<exists>sig r'. Signer_AttachedSign demo_crypto kz d None encoder zero_entropy = (Inr sig, r')"
    using assms
    by (simp_all add: Signer_Sign_def UnversionedSigner_Sign_def Signer_AttachedSign_def InternalSign_def sbind_def slift_def
        sret_def demo_hmac_Sign PackByteArray_None)
qed

subsection \<open>A key set on disk\<close>

text \<open>The files of a key set with one key.\<close>

definition key_fs :: "key \<Rightarrow> key_purpose \<Rightarrow> key_status \<Rightarrow> fs" where
  "key_fs k p s = \<lparr>fs_files = [(path_join ''ks'' ''meta'',
        projr (KeyMetadata_str (one_version s) (one_key_metadata ''demo'' (key_type_of k) p))),
      (path_join ''ks'' (str_int 1), projr (key_str k))], fs_dirs = [''ks'', ''pub''], fs_opens = (\<lambda>p. True)\<rparr>"

definition key_world :: "key \<Rightarrow> key_purpose \<Rightarrow> key_status \<Rightarrow> world" where
  "key_world k p s = \<lparr>w_fs = key_fs k p s, w_ent = zero_entropy, w_mock = None, w_out = []\<rparr>"

lemma key_world_ok: "w_mock (key_world k p s) = None" "w_fs (key_world k p s) = key_fs k p s"
  "''ks'' \<in> set (fs_dirs (key_fs k p s))" "''pub'' \<in> set (fs_dirs (key_fs k p s))"
  "loc_open (key_fs k p s) ''ks''" "loc_open (key_fs k p s) ''pub''"
  by (auto simp: key_world_def key_fs_def loc_open_def path_join_def)

lemma key_disk:
  assumes ok: "key_ok k" and h: "key_hash_id k = Inr h"
  obtains kz r where "GenericKeyczar_Read (key_fs k p s) ''ks'' = Inr kz" "kz_complete kz" "kz_statuses kz = [1 \<mapsto> s]"
    "purpose (kz_metadata kz) = p" "kmd_type (kz_metadata kz) = key_type_of k" "s = PRIMARY \<longrightarrow> primary_key kz = Inr k"
    "GetKey kz (VersionId r) = Inr k" "kmd_find 1 (kz_metadata kz) = Some r"
proof -
  let ?md = "one_key_metadata ''demo'' (key_type_of k) p"
  have "kmd_ok (one_version s) ?md" by (simp add: kmd_ok_def one_version_def one_key_metadata_def)
  from KeyMetadata_Read_str [OF this] obtain tx where tx: "KeyMetadata_str (one_version s) ?md = Inr tx" by blast
  obtain ks where ks: "key_str k = Inr ks" using ReadKey_str [OF ok] by (auto simp: ebind_Inr_conv)
  have m: "rd_GetMetadata (FileReader (key_fs k p s) ''ks'') = KeyMetadata_str (one_version s) ?md"
    using tx by (simp add: FileReader_def ReadFile_def key_fs_def)
  have k: "rd_GetKey (FileReader (key_fs k p s) ''ks'') 1 = key_str k"
    using ks by (simp add: FileReader_def ReadFile_def key_fs_def)
  obtain kz r where kz: "Keyczar_init (\<lambda>p. True) (FileReader (key_fs k p s) ''ks'') = Inr kz"
    "map_of (kz_keys kz) = [VersionId r \<mapsto> k, HashId h \<mapsto> k]" "s = PRIMARY \<longrightarrow> primary_key kz = Inr k"
    "version_dict (kz_metadata kz) = [(1, r)]" "status (kz_heap kz ! r) = s" "purpose (kz_metadata kz) = p"
    "kmd_type (kz_metadata kz) = key_type_of k"
    using one_key_reader [OF ok h _ m k, of "\<lambda>p. True"] by blast
  have "kz_statuses kz = [1 \<mapsto> s]" using kz(4,5) by (auto simp: kz_statuses_def kmd_find_map fun_eq_iff)
  moreover have "GenericKeyczar_Read (key_fs k p s) ''ks'' = Inr kz"
    using kz(1) by (simp add: generic_read key_fs_def)
  ultimately show ?thesis
    using that complete_static [OF kz(1,2) h ok] kz by (simp add: kmd_find_map GetKey_def)
qed

definition demo_fs :: "key_status \<Rightarrow> fs" where
  "demo_fs s = key_fs (HmacKey demo_hmac) SIGN_AND_VERIFY s"

definition demo_world :: "key_status \<Rightarrow> world" where
  "demo_world s = key_world (HmacKey demo_hmac) SIGN_AND_VERIFY s"

lemma demo_open: "loc_open (demo_fs s) ''ks''"
  by (simp add: demo_fs_def key_world_ok)

lemma demo_disk:
  obtains kz where "GenericKeyczar_Read (demo_fs s) ''ks'' = Inr kz" "kz_complete kz" "kz_statuses kz = [1 \<mapsto> s]"
    "purpose (kz_metadata kz) = SIGN_AND_VERIFY"
proof -
  obtain h where "key_hash_id (HmacKey demo_hmac) = Inr h" using demo_hmac_Hash by auto
  from key_disk [OF demo_hmac_ok this, of SIGN_AND_VERIFY s] that show ?thesis unfolding demo_fs_def by metis
qed

lemma demo_world_fs: "w_fs (demo_world s) = demo_fs s"
  by (simp add: demo_world_def demo_fs_def key_world_ok)

lemma demo_world_ok: "w_mock (demo_world s) = None" "''ks'' \<in> set (fs_dirs (w_fs (demo_world s)))"
  "loc_open (w_fs (demo_world s)) ''ks''"
  by (simp_all add: demo_world_def key_world_ok)

text \<open>A directory without a key set.\<close>

definition fresh_world :: world where
  "fresh_world = \<lparr>w_fs = \<lparr>fs_files = [], fs_dirs = [''ks''], fs_opens = (\<lambda>p. True)\<rparr>, w_ent = zero_entropy,
     w_mock = None, w_out = []\<rparr>"

lemma fresh_world_ok: "w_mock fresh_world = None" "''ks'' \<in> set (fs_dirs (w_fs fresh_world))"
  "loc_open (w_fs fresh_world) ''ks''" "\<not> path_exists (w_fs fresh_world) (path_join ''ks'' ''meta'')"
  by (auto simp: fresh_world_def loc_open_def path_join_def path_exists_def)

text \<open>An empty key set for signing in that directory.\<close>

lemma fresh_disk:
  obtains w :: world and kz :: keyczar where "w_mock w = None" "''ks'' \<in> set (fs_dirs (w_fs w))" "loc_open (w_fs w) ''ks''"
    "GenericKeyczar_Read (w_fs w) ''ks'' = Inr kz" "kz_complete kz" "kz_keys kz = []" "kz_statuses kz = Map.empty"
    "kmd_type (kz_metadata kz) = HMAC_SHA1" "max_version_number kz = 0"
proof -
  let ?m = "KeyMetadata_init ''new'' SIGN_AND_VERIFY HMAC_SHA1 False"
  have m: "metadata_for ''new'' (Some SIGN_AND_VERIFY) None = Inr ?m" by (simp add: metadata_for_def)
  from create_on_disk [OF fresh_world_ok m] obtain w :: world and kz :: keyczar where "w_mock w = None"
    "fs_dirs (w_fs w) = fs_dirs (w_fs fresh_world)" "fs_opens (w_fs w) = fs_opens (w_fs fresh_world)"
    "GenericKeyczar_Read (w_fs w) ''ks'' = Inr kz" "kz_complete kz" "kz_keys kz = []" "kz_statuses kz = Map.empty"
    "kmd_type (kz_metadata kz) = kmd_type ?m" "max_version_number kz = 0" by blast
  with that [of w kz] fresh_world_ok(2,3) show ?thesis by (simp add: loc_open_def KeyMetadata_init_def)
qed

subsection \<open>A small configuration of the interoperability tests\<close>

definition demo_runner :: runner where
  "demo_runner = \<lparr>
     rn_algorithms = JObj [(''hmac'', JObj [(''purpose'', JStr ''sign''), (''asymmetric'', JBool False),
       (''keySizes'', JList [JInt 256]), (''createFlags'', JList [JStr ''--purpose=sign'']), (''addKeyFlags'', JList [])])],
     rn_ignored_tests = JList [JObj [(''implementation'', JList [JStr ''java'']), (''operation'', JList [JStr ''*'']),
       (''algorithm'', JList [JStr ''hmac256'']), (''options'', JObj [(''encoding'', JList [JStr ''encoded''])]),
       (''reason'', JStr ''not supported'')]],
     rn_operations = JObj [(''sign'', JObj [(''keytype'', JStr ''sign''),
       (''generateOptions'', JObj [(''encoding'', JList [JStr ''encoded'', JStr ''raw''])]), (''testOptions'', JObj [])])],
     rn_implementations = JObj [(''python'', JList [JStr ''py'']), (''java'', JList [JStr ''java''])],
     rn_key_set_options = JObj [(''sign'', JObj [(''generateOptions'', JObj []), (''testOptions'', JObj [])])],
     rn_macros = []\<rparr>"

definition demo_host :: host where
  "demo_host = \<lparr>check_output = (\<lambda>args f. (Inr ''null'', f)), strerror = (\<lambda>loc. ''error'')\<rparr>"

definition demo_iworld :: iworld where
  "demo_iworld = \<lparr>iw_fs = w_fs fresh_world, iw_logger = InteropLogger_init False, iw_out = [], iw_tests = [], iw_results = []\<rparr>"

lemma str_int_256: "str_int 256 = ''256''"
  by code_simp

lemma demo_tests:
  "map fst (iw_tests (snd (SetupInteropTests demo_host demo_runner demo_iworld))) =
     [''test_python_generated_by_python_sign_hmac256_encoded_'', ''test_python_generated_by_python_sign_hmac256_raw_'',
      ''test_java_generated_by_python_sign_hmac256_raw_'', ''test_python_generated_by_java_sign_hmac256_raw_'',
      ''test_java_generated_by_java_sign_hmac256_raw_'']"
  by (simp add: SetupInteropTests_def GenerateAll_def TestAll_def GetGenerateKeysets_def GetTestKeysets_def
      demo_runner_def demo_host_def demo_iworld_def names_of_def json_get_def Options_def ks_Options_def dict_of_def
      option_list_def IsException_def ignored_by_def contains_def json_in_def get_str_def join_values_def
      Collect_event_def Generate_output_def CallImplementation_def OutputCollection_def Output_def test_name_for_def
      ks_name_def str_int_256 InteropLogger_init_def collect_def st_defs Let_def)

lemma demo_runner_flags: "get_flags demo_runner ''hmac'' ''createFlags'' = Inr [''--purpose=sign'']"
  "get_flags demo_runner ''hmac'' ''addKeyFlags'' = Inr []"
  by code_simp+

subsection \<open>The Python program as an implementation of the driver\<close>

text \<open>A host on which any command is the program, with random bytes that are all zero.\<close>

definition python_host :: host where
  "python_host = \<lparr>check_output = (\<lambda>args f. case it_main demo_crypto (tl args) (process f zero_entropy) of
       None \<Rightarrow> (Inl CannotStart, f)
     | Some (Inr u, w) \<Rightarrow> (Inr (stdout (w_out w)), w_fs w)
     | Some (Inl e, w) \<Rightarrow> (Inl (CalledProcessError ''error''), w_fs w)), strerror = (\<lambda>loc. ''error'')\<rparr>"

lemma python_host_runs: "runs_program demo_crypto python_host [''py'']"
  unfolding runs_program_def
  by (intro allI exI [of _ zero_entropy]) (auto simp: python_host_def split: option.split prod.split sum.split)

text \<open>The directory that the driver makes for the key set.\<close>

definition driver_world :: world where
  "driver_world = \<lparr>w_fs = \<lparr>fs_files = [], fs_dirs = [''keys/python/hmac256''], fs_opens = (\<lambda>p. True)\<rparr>, w_ent = zero_entropy,
     w_mock = None, w_out = []\<rparr>"

lemma driver_path: "path_join (GetKeyPath ''python'') (''hmac'' @ str_int 256) = ''keys/python/hmac256''"
  unfolding str_int_256 by (simp add: GetKeyPath_def INTEROP_DATA_def path_join_def)

lemma driver_world_ok: "w_mock driver_world = None" "''keys/python/hmac256'' \<in> set (fs_dirs (w_fs driver_world))"
  "loc_open (w_fs driver_world) ''keys/python/hmac256''"
  "\<not> path_exists (w_fs driver_world) (path_join ''keys/python/hmac256'' ''meta'')"
  by (auto simp: driver_world_def loc_open_def path_join_def path_exists_def)

lemma driver_disk:
  obtains f kz where "GenericKeyczar_Read f ''keys/python/hmac256'' = Inr kz" "kz_statuses kz = [1 \<mapsto> PRIMARY]"
    "kmd_type (kz_metadata kz) = HMAC_SHA1" "purpose (kz_metadata kz) = SIGN_AND_VERIFY"
proof -
  have sz: "IsValidSize HMAC_SHA1 256" by (simp add: IsValidSize_def)
  have fl: "get_flags demo_runner ''hmac'' ''createFlags'' = Inr [''--purpose='' @ ''sign'']" using demo_runner_flags(1) by simp
  from interop_creates [OF driver_world_ok _ _ _ sz fl demo_runner_flags(2), of SIGN_AND_VERIFY demo_crypto] that
  show ?thesis by auto
qed

definition demo_generate :: options where
  "demo_generate = [(''cryptedKeySet'', JStr []), (''encoding'', JStr ''raw'')]"

definition demo_test :: options where
  "demo_test = [(''class'', JStr ''verifier''), (''pubKey'', JStr [])]"

lemma demo_options: "JObj demo_generate = sign_options ''raw''" "JObj demo_test = verify_options ''verifier''"
  by (simp_all add: demo_generate_def demo_test_def sign_options_def verify_options_def)

text \<open>The files are those the program itself made, and the program generates over them.\<close>

lemma driver_generates:
  obtains w :: iworld and out w1 where "Generate_output python_host demo_runner ''python'' ''sign'' ''hmac256'' demo_generate w = (Inr out, w1)"
    "op_ready demo_crypto SignOperation \<lparr>op_test_data = TESTDATA, op_key_path = GetKeyPath ''python''\<rparr> ''hmac256''
      (JObj demo_generate) (JObj demo_test) (iw_fs w)"
proof -
  let ?self = "\<lparr>op_test_data = TESTDATA, op_key_path = GetKeyPath ''python''\<rparr>"
  obtain f kz where kz: "GenericKeyczar_Read f ''keys/python/hmac256'' = Inr kz" "kz_statuses kz = [1 \<mapsto> PRIMARY]"
    "kmd_type (kz_metadata kz) = HMAC_SHA1" "purpose (kz_metadata kz) = SIGN_AND_VERIFY" by (rule driver_disk)
  have p: "path_join (op_key_path ?self) ''hmac256'' = ''keys/python/hmac256''"
    using driver_path by (simp add: str_int_256)
  have d: "op_test_data ?self \<noteq> []" "int (length (op_test_data ?self)) < 2 ^ 31" "SignOperation \<in> sign_operations"
    by (simp_all add: TESTDATA_def sign_operations_def)
  have rd: "GenericKeyczar_Read (w_fs (process f zero_entropy)) (path_join (op_key_path ?self) ''hmac256'') = Inr kz"
    unfolding p using kz(1) by (simp add: process_def)
  note ready = hmac_ready(1) [OF rd kz(2-4) d, where L = demo_crypto and e = "''raw''" and c = "''verifier''"]
    hmac_ready(2) [OF rd kz(2-4) d, where L = demo_crypto and e = "''raw''"]
  obtain out v where o: "op_Generate demo_crypto SignOperation ?self ''hmac256'' (JObj demo_generate) (process f zero_entropy) = Some (Inr out, v)"
    using ready(2) unfolding demo_options by blast
  have init: "BaseOperation_init (GetKeyPath ''python'') (JStr TESTDATA) = Inr ?self"
    using TESTDATA_ascii by (simp add: BaseOperation_init_def del: str_json.simps)
  have "it_Generate demo_crypto ''sign'' (GetKeyPath ''python'') ''hmac256'' (JObj demo_generate) (JStr TESTDATA) (process f zero_entropy)
      = Some (Inr (), v\<lparr>w_out := w_out v @ [out]\<rparr>)"
    using o by (simp add: it_Generate_def find_operation_def operations_def init pbind_Some print_line_def)
  then have g: "it_main demo_crypto [json_dumps (generate_request ''sign'' (GetKeyPath ''python'') ''hmac256'' (JObj demo_generate) TESTDATA)]
      (process f zero_entropy) = Some (Inr (), v\<lparr>w_out := w_out v @ [out]\<rparr>)"
    by (simp add: it_main_generate demo_options)
  have i: "json_get ''python'' (rn_implementations demo_runner) = Inr (JList (map JStr [''py'']))"
    by (simp add: demo_runner_def json_get_def)
  let ?w = "demo_iworld\<lparr>iw_fs := f\<rparr>"
  have "\<exists>r w1. Generate_output python_host demo_runner ''python'' ''sign'' ''hmac256'' demo_generate ?w = (Inr r, w1)"
    unfolding Generate_output_def generate_request_def [symmetric] CallImplementation_cmd [OF i]
    by (simp add: python_host_def g)
  moreover have "op_ready demo_crypto SignOperation ?self ''hmac256'' (JObj demo_generate) (JObj demo_test) (iw_fs ?w)"
    using ready(1) by (simp add: demo_options process_def del: op_ready.simps)
  ultimately show ?thesis using that by blast
qed

subsection \<open>An empty key set\<close>

definition empty_keyset :: keyczar where
  "empty_keyset = \<lparr>kz_heap = [], kz_metadata = KeyMetadata_init ''empty'' SIGN_AND_VERIFY HMAC_SHA1 False,
     kz_keys = [], kz_primary = None, kz_default_size = 256\<rparr>"

lemma empty_inv: "kz_inv empty_keyset" "hash_ok empty_keyset"
  by (auto simp: empty_keyset_def kz_inv_def dict_ok_def primary_ok_def hash_ok_def kmd_ok_def kmd_versions_def
      KeyMetadata_init_def kz_versions_def)

lemma empty_add: "\<exists>kz ent. AddVersion demo_crypto PRIMARY None (empty_keyset, zero_entropy) = Some (Inr (), kz, ent)"
proof -
  let ?k = "HmacKey_init (Base64WSEncode (map zero_entropy [0..<32])) 256"
  obtain ent where g: "GenKey demo_crypto HMAC_SHA1 (Some 256) zero_entropy = (Inr (HmacKey ?k), ent)"
    by (auto simp: GenKey_def IsValidSize_def stmap_def HmacKey_Generate_def st_defs Let_def)
  obtain h where h: "hmac_Hash ?k = Inr h"
    by (simp add: hmac_Hash_def hmac_key_bytes_def HmacKey_init_def key_bytes_def)
  then have kh: "key_hash_id (HmacKey ?k) = Inr h" by simp
  have v: "IsValidSize (kmd_type (kz_metadata empty_keyset)) 256" "kz_default_size empty_keyset = 256"
    "kmd_type (kz_metadata empty_keyset) = HMAC_SHA1" "kz_keys empty_keyset = []"
    by (simp_all add: empty_keyset_def KeyMetadata_init_def IsValidSize_def)
  have "fresh_key demo_crypto HMAC_SHA1 256 [] zero_entropy = Some (Inr (HmacKey ?k), ent)"
    by (subst fresh_key.simps) (simp add: g h)
  moreover obtain kz where "AddKey 0 (HmacKey ?k) (new_version PRIMARY empty_keyset) = (Inr (), kz)"
    using AddKey_ok [OF kh] by blast
  moreover have "length (kz_heap empty_keyset) = 0" by (simp add: empty_keyset_def)
  ultimately show ?thesis using v by (simp add: AddVersion_valid)
qed

text \<open>A set of public keys, exported from a DSA key set.\<close>

definition public_keyset :: keyczar where
  "public_keyset = \<lparr>kz_heap = [\<lparr>version_number = 1, status = PRIMARY, exportable = False\<rparr>],
     kz_metadata = \<lparr>kmd_name = ''public'', purpose = VERIFY, kmd_type = DSA_PUB, encrypted = False, version_dict = [(1, 0)]\<rparr>,
     kz_keys = [(VersionId 0, DsaPublicKey (DsaPublicKey_init [] [] [] [] \<lparr>dsa_y = 1, dsa_g = 1, dsa_p = 3, dsa_q = 5, dsa_x = None\<rparr> 1024))],
     kz_primary = Some 0, kz_default_size = 1024\<rparr>"

lemma public_inv: "kz_inv public_keyset"
  by (auto simp: public_keyset_def kz_inv_def dict_ok_def primary_ok_def kmd_ok_def kmd_versions_def kz_versions_def)

lemma public_statuses: "kz_statuses public_keyset = [1 \<mapsto> PRIMARY]"
  by (auto simp: kz_statuses_def kmd_find_map public_keyset_def fun_eq_iff)

subsection \<open>A crypter for keys\<close>

text \<open>A key set of AES keys serves to encrypt the keys of another.\<close>

lemma crypter_enc_pair:
  assumes p: "primary_key c = Inr (AesKey k)" and h: "aes_Hash k = Inr h"
    and m: "map_of (kz_keys c) (HashId h) = Some (AesKey k)" and ok: "backend_ok L" "aes_ok k"
  shows "enc_pair (Some (crypter_enc L c)) (crypter_dec L c)"
proof -
  have "\<exists>ct ent'. crypter_enc L c s ent = (Inr ct, ent') \<and> crypter_dec L c ct = Inr s" for s ent
  proof -
    obtain raw where "aes_Encrypt L k s ent = (Inr raw, \<lambda>i. ent (i + 16))"
      by (rule aes_Encrypt_shape [OF ok])
    then have e: "Encrypter_Encrypt L c s (Some Base64WSEncode) ent = (Inr (Base64WSEncode raw), \<lambda>i. ent (i + 16))"
      using p by (simp add: Encrypter_Encrypt_def sbind_def slift_def sret_def encode_with_def)
    have "Crypter_Decrypt L c (Base64WSEncode raw) (Some Base64WSDecode) = Inr s"
      using p h m ok by (intro Decrypt_Encrypt [OF p _ m _ codec_pairs(2) e]) simp_all
    then show ?thesis using e by (simp add: crypter_enc_def crypter_dec_def)
  qed
  then show ?thesis by (simp add: enc_pair_def)
qed

subsection \<open>Asymmetric keys\<close>

definition demo_modulus :: bytes where
  "demo_modulus = CHR 0xFF # replicate 63 CHR 0x00"

definition demo_rsa_obj :: rsa_obj where
  "demo_rsa_obj = \<lparr>rsa_n = BytesToLong demo_modulus, rsa_e = BytesToLong [CHR 0x03], rsa_priv = None\<rparr>"

definition demo_rsa :: rsa_public where
  "demo_rsa = \<lparr>rp_modulus = demo_modulus, rp_publicExponent = [CHR 0x03], rp_key = demo_rsa_obj, rp_size = 512\<rparr>"

definition demo_rsa_priv :: rsa_private where
  "demo_rsa_priv = \<lparr>rk_privateExponent = [], rk_primeP = [], rk_primeQ = [], rk_primeExponentP = [],
     rk_primeExponentQ = [], rk_crtCoefficient = [], rk_public = demo_rsa,
     rk_key = rsa_construct6 (BytesToLong demo_modulus) (BytesToLong [CHR 0x03]) (BytesToLong []) (BytesToLong [])
       (BytesToLong []) (BytesToLong []), rk_size = 512\<rparr>"

lemma demo_rsa_ok: "rsa_pub_ok demo_rsa"
  by (simp add: rsa_pub_ok_def demo_rsa_def demo_rsa_obj_def rsa_construct2_def IsValidSize_def)

lemma demo_num_bytes: "num_bytes demo_crypto (rsa_n demo_rsa_obj) = Inr (int 64)"
proof -
  have b: "BigIntToBytes (rsa_n demo_rsa_obj) = demo_modulus"
    by (simp add: demo_rsa_obj_def BigIntToBytes_BytesToLong) (simp add: demo_modulus_def lstrip_char_def)
  then have "\<not> rsa_n demo_rsa_obj \<le> 0"
    by (subst (asm) BigIntToBytes_rec) (auto simp: demo_modulus_def)
  then show ?thesis using b by (simp add: num_bytes_def demo_crypto_def demo_modulus_def)
qed

lemma demo_modulus_bound: "256 ^ (64 - 1) \<le> rsa_n (rp_key demo_rsa)"
proof (rule ccontr)
  assume "\<not> 256 ^ (64 - 1) \<le> rsa_n (rp_key demo_rsa)"
  then have "length (BigIntToBytes (rsa_n demo_rsa_obj)) \<le> 63"
    by (intro length_BigIntToBytes) (simp add: demo_rsa_def)
  then show False using demo_num_bytes by (simp add: num_bytes_def demo_crypto_def split: if_splits)
qed

lemma demo_rsa_priv_ok: "key_ok (RsaPrivateKey demo_rsa_priv)"
  using demo_rsa_ok by (simp add: rsa_priv_ok_def demo_rsa_priv_def demo_rsa_def IsValidSize_def)

lemma demo_rsa_pairs: "sign_pair demo_crypto (RsaPrivateKey demo_rsa_priv) (RsaPublicKey demo_rsa)"
  using demo_rsa_pair demo_modulus_bound by (simp add: rsa_signing_def demo_rsa_priv_def) (simp add: demo_rsa_def)

lemma demo_rsa_Hash: obtains h where "key_hash_id (RsaPrivateKey demo_rsa_priv) = Inr h"
  by (simp add: rsa_priv_Hash_def rsa_pub_Hash_def demo_rsa_priv_def)

lemma demo_rsa_Sign:
  assumes "primary_key kz = Inr (RsaPrivateKey demo_rsa_priv)"
  shows "\<exists>sig r'. Signer_Sign demo_crypto kz d encoder zero_entropy = (Inr sig, r')"
proof -
  obtain h where "key_hash_id (RsaPrivateKey demo_rsa_priv) = Inr h" by (rule demo_rsa_Hash)
  then obtain hdr where "key_Header (RsaPrivateKey demo_rsa_priv) = Inr hdr"
    using key_hash_encodes [of "RsaPrivateKey demo_rsa_priv" h] key_Header_hash [of "RsaPrivateKey demo_rsa_priv" h] by auto
  moreover obtain b where "rsa_Sign demo_crypto demo_rsa_priv (d @ VERSION_BYTE) = Inr b"
  proof (rule that)
    have "rsa_sign demo_crypto k m = Inr (BytesToLong m)" for k m by (simp add: demo_crypto_def)
    then show "rsa_Sign demo_crypto demo_rsa_priv (d @ VERSION_BYTE) = Inr (projr (rsa_Sign demo_crypto demo_rsa_priv (d @ VERSION_BYTE)))"
      by (simp only: rsa_Sign_def Let_def ebind_simps sum.sel)
  qed
  ultimately show ?thesis
    using assms by (simp add: Signer_Sign_def InternalSign_def sbind_def slift_def sret_def PackByteArray_None)
qed

definition demo_dsa :: dsa_public where
  "demo_dsa = \<lparr>dp_p = [CHR 0x03], dp_q = [CHR 0x05], dp_g = [CHR 0x01], dp_y = [CHR 0x01],
     dp_key = \<lparr>dsa_y = BytesToLong [CHR 0x01], dsa_g = BytesToLong [CHR 0x01], dsa_p = BytesToLong [CHR 0x03],
       dsa_q = BytesToLong [CHR 0x05], dsa_x = None\<rparr>, dp_size = 1024\<rparr>"

lemma demo_dsa_ok: "dsa_pub_ok demo_dsa"
  by (simp add: dsa_pub_ok_def demo_dsa_def IsValidSize_def)

subsection \<open>Sessions\<close>

lemma demo_Session_Encrypt:
  "\<exists>ct st. Session_Encrypt demo_crypto d None (Session_Create (fresh_aes r) nonce, ent) = (Inr ct, st)"
proof -
  obtain kz s' where c: "Session_crypter (Session_Create (fresh_aes r) nonce) = (Inr kz, s')"
    "primary_key kz = Inr (AesKey (session_key (Session_Create (fresh_aes r) nonce)))"
    by (rule Session_crypter_ok [OF session_ok_new])
  have "aes_ok (fresh_aes r)" using session_ok_new [of r None] by (simp add: session_ok_def Session_Create_def)
  then obtain ct ent' where "aes_Encrypt demo_crypto (fresh_aes r) d ent = (Inr ct, ent')"
    by (rule aes_Encrypt_shape [OF demo_backend])
  then have "Encrypter_Encrypt demo_crypto kz d None ent = (Inr ct, ent')"
    using c(2) by (simp add: Encrypt_AES Session_Create_def)
  then show ?thesis using c(1) by (simp add: Session_Encrypt_def)
qed

lemma demo_session:
  obtains se r' ct se' ent' where "SessionEncrypter_init (\<lambda>d. sret d) zero_entropy = (Inr se, r')"
    "SessionEncrypter_Encrypt demo_crypto d None (se, zero_entropy) = (Inr ct, se', ent')"
proof -
  let ?s = "Session_Create (fresh_aes zero_entropy) (Some (map (\<lambda>i. zero_entropy (i + 48)) [0..<16]))"
  obtain p where p: "Session_packed_key ?s = Inr p" using Session_packed_ok by blast
  obtain ct s1 e1 where "Session_Encrypt demo_crypto d None (?s, zero_entropy) = (Inr ct, s1, e1)"
    using demo_Session_Encrypt by (metis prod.collapse)
  with p show ?thesis
    by (intro that [of "\<lparr>se_session = ?s, se_session_material = p\<rparr>"])
       (auto simp: SessionEncrypter_init_def SessionEncrypter_Encrypt_def sbind_def slift_def sret_def Session_New_eq
          split: prod.split)
qed

lemma demo_signed_session:
  obtains se r' blob se' ent' where "SignedSessionEncrypter_init (\<lambda>d. sret d) zero_entropy = (Inr se, r')"
    "SignedSessionEncrypter_Encrypt demo_crypto (\<lambda>d n. sret d) d (se, zero_entropy) = (Inr blob, se', ent')"
proof -
  let ?s = "Session_Create (fresh_aes zero_entropy) (Some (map (\<lambda>i. zero_entropy (i + 48)) [0..<16]))"
  have "key_ok (AesKey (fresh_aes zero_entropy))"
    using session_ok_new [of zero_entropy None] by (simp add: session_ok_def Session_Create_def)
  then obtain j where j: "Session_json ?s = Inr j" using LoadJsonSession_json by blast
  obtain ct s1 e1 where "Session_Encrypt demo_crypto d None (?s, zero_entropy) = (Inr ct, s1, e1)"
    using demo_Session_Encrypt by (metis prod.collapse)
  with j show ?thesis
    by (intro that [of "\<lparr>se_session = ?s, se_session_material = j\<rparr>"])
       (auto simp: SignedSessionEncrypter_init_def SignedSessionEncrypter_Encrypt_def sbind_def slift_def sret_def
          Session_New_eq split: prod.split)
qed

end
