(* ===== verification/Spec2Isabelle.thy ===== *)
theory Spec2Isabelle
  imports KeyczartSpec PublicSpec Asn1 Convert InteropSpec InteropRun Examples
begin

text \<open>
  Keyczar is a library that keeps cryptographic keys in key sets, with versions that can be
  rotated, and gives programs the operations encrypt, decrypt, sign and verify on a key set. This
  development models its Python implementation, \<open>python/src/keyczar/\<close> under \<open>src/\<close> (Python 2, the
  language the sources are written in), the script \<open>convert_keyset.py\<close> of the C++ tools,
  \<open>interop/interop.py\<close>, the driver that tests the implementations against each other, and
  \<open>python/tests/keyczar_tests/interop_test.py\<close>, the program it calls for the Python one.

  The program and the theories. A key set on disk is a file \<open>meta\<close> and one file per version
  number. A reader (\<open>readers.py\<close>) gives their texts; \<open>Keyczar.__init__\<close> parses the metadata
  (\<open>keydata.py\<close>) and every key (\<open>keys.py\<close>), and keeps the keys in one dictionary under the version
  object and under a hash identifier of four bytes. A message carries a version byte and that
  identifier (the header); the crypters of \<open>keyczar.py\<close> look the key up and use it. \<open>keyczart.py\<close>
  is the command-line tool, and a writer (\<open>writers.py\<close>) puts a changed key set back on disk.

    Prelude        Python slices, \<open>str(n)\<close>, results \<open>exn + 'a\<close> and state with results (\<open>st\<close>)
    Errors         \<open>errors.py\<close>: the exceptions and their messages
    Json           the standard module \<open>json\<close> as far as it is used
    PyHash         the standard modules \<open>hashlib\<close> (SHA-1 on 32-bit words) and \<open>hmac\<close>
    KeyInfo        \<open>keyinfo.py\<close>: key types, statuses, purposes and cipher modes
    KeyData        \<open>keydata.py\<close>: \<open>KeyVersion\<close>, \<open>KeyMetadata\<close>
    ByteUtil       \<open>util.py\<close>: numbers, bytes and bits, hashing, padding, masks, EMSA
    Base64         \<open>util.py\<close>: \<open>Base64WSEncode\<close>, \<open>Base64WSDecode\<close> with \<open>binascii\<close>
    InStream       file-like sources of bytes, blocking or not
    Base64Stream   \<open>util.py\<close>: the incremental codecs and the stream writer and reader
    Packing        \<open>util.py\<close>: packed byte arrays
    Asn1           \<open>util.py\<close>: PKCS8 and X.509 import and export
    CryptoLib      the packages and the entropy that the source takes from outside
    SymmetricKeys  \<open>keys.py\<close>: \<open>Key\<close>, \<open>HmacKey\<close>, \<open>HmacKeyStream\<close>, \<open>AesKey\<close>, the cipher adaptors
    AsymmetricKeys \<open>keys.py\<close>: the RSA and DSA keys, DSA signatures of \<open>util.py\<close>
    Keys           \<open>keys.py\<close>: the six classes as one type, \<open>GenKey\<close>, \<open>ReadKey\<close>
    Streams        \<open>keys.py\<close>: \<open>EncryptingStreamWriter\<close>, \<open>DecryptingStreamReader\<close>
    Files          a file system, \<open>readers.py\<close> and \<open>writers.py\<close>
    Keyset         \<open>keyczar.py\<close>: \<open>Keyczar\<close>, \<open>GenericKeyczar\<close>
    Lifecycle      the invariant of a key set in memory and what each operation does to it
    KeysetSpec     the abstract table of statuses and the refinement
    KeysetIO       loading establishes the invariant, reachable states, write then load
    Crypters       \<open>keyczar.py\<close>: \<open>Encrypter\<close>, \<open>Crypter\<close>, \<open>Signer\<close>, \<open>Verifier\<close>, unversioned forms, streams
    Sessions       \<open>keyczar.py\<close>: the sessions and the signed sessions
    Keyczart       \<open>keyczart.py\<close>: flags, commands, generation of test key sets, output
    KeyczartSpec   what the commands do to the disk
    PublicSpec     the exported public part of a key set, on disk and as a verifier
    AddKeySpec     what \<open>create\<close> and \<open>addkey\<close> do to the disk, the keys that generators make, the flags
    Convert        \<open>cpp/src/keyczar/keyczar_tool/convert_keyset.py\<close>
    Interop        \<open>interop/interop.py\<close>: logger, key sets, options, tests, command line
    InteropSpec    what the driver keeps, excludes, generates and sends to \<open>keyczart\<close>
    InteropTest    \<open>interop_test.py\<close>: the operations and their tests, the program
    InteropTestSpec  the contract of an operation: its test accepts what it generated
    InteropRun     the driver with the program: tests pass; from no key set to a passed test
    Examples       concrete keys, key sets and streams for the witnesses

  How the state corresponds. A Python \<open>str\<close> is HOL's \<open>string\<close>, a list of bytes; an unbounded integer
  is \<open>int\<close>; SHA-1 works on 32-bit words, and the integers of \<open>struct\<close> are bounded where it bounds
  them. An object whose fields change is a record that is passed and returned. Version objects
  are shared between the metadata, the key dictionary and the primary version, and their status is
  changed in place; so a key set holds a store of versions (\<open>kz_heap\<close>) and everything else refers
  to positions in it. A dictionary is an association list without repeated keys (\<open>dict_ok\<close>). An
  exception is the value \<open>Inl e\<close>; an operation that changes an object has type \<open>('s, exn, 'a) st\<close>,
  \<open>'s \<Rightarrow> (exn + 'a) \<times> 's\<close>, and a raise leaves the changes made before it in place. \<open>OutsideModel\<close>
  is the value for the few inputs that the model does not follow (text beyond Latin-1 in JSON, a
  component of the wrong kind in DER); no property is stated of it.

  Loops. A loop over data is a recursive function, and its termination is proved. The loops that
  may not end are \<open>partial_function (option)\<close>, \<open>None\<close> being a call that does not return:
  \<open>fresh_key\<close> (draws keys until the hash identifier is free; C4 says exactly when it ends),
  \<open>unpack_loop\<close> (follows signed lengths in the data; C35), and \<open>read_loop\<close>, \<open>ReadBytes_loop\<close> and
  \<open>dr_loop\<close> (wait for a source; C14, C15 and C16 state that they return). The JSON parser takes
  fuel, the length of the text and one more, and each value consumes a character; the round trips
  show that it suffices for what the library writes.

  What is a parameter. PyCrypto, M2Crypto, pyasn1 and the C library's logarithm are the record
  \<open>crypto\<close>, an argument \<open>L\<close> of what calls them. What the code relies on are predicates on it:
  \<open>aes_laws\<close> and \<open>backend_ok\<close> (CBC decryption inverts encryption, on whole blocks, continuing
  where the last call stopped), \<open>rsa_pair\<close>, \<open>dsa_pair\<close> (a private key inverts its public key),
  \<open>der_laws\<close> (a DER value decodes to itself). \<open>demo_crypto\<close> and \<open>demo_der\<close> satisfy them. Entropy is an
  infinite sequence of bytes that \<open>RandBytes\<close> consumes. No cryptographic strength is assumed or
  proved: that a forgery is hard to find is not a statement about this code, that one without the
  right HMAC is refused is (C8, C10, C15). The operating system that starts programs for the driver
  is the record \<open>host\<close>; \<open>runs_program\<close> says of it that a command is the modelled program, which
  \<open>python_host\<close> satisfies.

  Interfaces. \<open>name_table\<close> (KeyInfo, four interpretations on the enumerations), \<open>version_table\<close>
  (KeyData, on the metadata's dictionary), \<open>byte_source\<close> (InStream, on plain streams, on the Base64
  reader and on the sources a decrypting reader gets), \<open>key_storage\<close> (Files, on the file writer),
  \<open>signature_scheme\<close> and \<open>encryption_scheme\<close> (Crypters, on the key classes), \<open>interop_operation\<close>
  (InteropTestSpec, on each operation of the test program and on their dispatch).

  What is shown.
    C1-C5    a key set in memory: one primary version in every reachable state, refinement of the
             table of statuses, adding versions, when adding ends, no key is lost
    C6       writing a key set and loading it again
    C7-C12   encryption and signing over key sets, in every form
    C13-C16  the streams compute what the plain operations compute, reject what is forged, and
             what they do with a stream that is cut off
    C17-C22  the command-line tool on files: each command against the key set in memory, the public
             key set that is exported, and the commands that the interoperability driver sends
    C23-C25  the tests that this driver sets up, that they pass with the Python program, and the
             whole way from an empty directory to a passed test
    C26-C27  a refusal of the tool; the effect of a failed addition
    C28-C29  sessions
    C30-C31  keys: RSA with OAEP, types; that keys and metadata read back from their own texts are
             the lemmas \<open>ReadKey_str\<close> and \<open>KeyMetadata_Read_str\<close>, used for C6
    C32-C38  bytes: Base64, packed arrays, numbers, hashing, constant-time comparison
    C39-C40  ASN.1 and the conversion of old key sets

  What is not modelled. \<open>util.ImportAll\<close>, \<open>ImportBackends\<close> and the compatibility classes for
  Python before 2.6 (they import modules at run time and have no behaviour of the library);
  \<open>setup.py\<close> and \<open>__init__.py\<close>; the warning printed for short keys; the deprecation warnings;
  the unit tests, samples and generated documentation; the C++ and Java implementations, with the
  script \<open>generate-test-keys.py\<close> that only starts the Java tool; SCons, swtoolkit and cpplint, which
  are third-party build tools kept in the repository. Every other Python file is modelled.

  A generator of \<open>interop.py\<close> is the function that applies the body of the consuming loop to each
  value it yields, so effects keep their order; the programs it calls and the texts of operating
  system errors are its parameter \<open>host\<close>.
\<close>

section \<open>The life of a key set\<close>

text \<open>
  C1. However a key set was loaded and whatever versions were added, promoted, demoted and revoked
  since, also when operations failed: at most one version of its metadata is primary, and the key
  set has that version's key as its primary key.
\<close>

theorem reachable_single_primary:
  assumes "kz_reachable L (kz, ent)"
  shows "kz_inv kz \<and> single_primary (kz_statuses kz)
    \<and> (\<forall>n. kz_statuses kz n = Some PRIMARY \<longrightarrow> (\<exists>k. primary_key kz = Inr k))"
proof -
  have "kz_inv kz" using kz_reachable_inv [OF assms] by simp
  then show ?thesis using inv_single_primary statuses_primary_key by blast
qed

theorem reachable_single_primary_witness:
  "\<exists>kz k. kz_reachable demo_crypto (kz, zero_entropy) \<and> kz_statuses kz 1 = Some PRIMARY
     \<and> single_primary (kz_statuses kz) \<and> primary_key kz = Inr k"
proof -
  obtain kz where kz: "GenericKeyczar_Read (demo_fs PRIMARY) ''ks'' = Inr kz" "kz_statuses kz = [1 \<mapsto> PRIMARY]"
    by (rule demo_disk)
  then have "kz_reachable demo_crypto (kz, zero_entropy)"
    by (intro reach_load [where rd = "FileReader (demo_fs PRIMARY) ''ks''"]) (simp add: generic_read demo_fs_def key_fs_def)
  with reachable_single_primary [OF this] kz(2) show ?thesis by auto
qed

text \<open>
  C2. Promoting, demoting and revoking implement the operations on an abstract table of statuses:
  each operation succeeds exactly when the specification does, with the specified table, and is
  otherwise refused with an error of the library and no effect; so does a sequence of operations.
\<close>

theorem lifecycle_refines:
  assumes "kz_inv kz"
  shows "implements (run_op p kz) kz (spec_op p (kz_statuses kz))
    \<and> kz_statuses (run_ops ps kz) = spec_ops ps (kz_statuses kz)"
  using run_op_refines [OF assms] run_ops_refines [OF assms] by simp_all

theorem lifecycle_refines_witness:
  "\<exists>kz. kz_statuses kz = [1 \<mapsto> PRIMARY]
     \<and> kz_statuses (run_ops [OpRevoke 1, OpDemote 1, OpDemote 1, OpPromote 2, OpRevoke 1] kz) = Map.empty"
proof -
  obtain kz where kz: "kz_complete kz" "kz_statuses kz = [1 \<mapsto> PRIMARY]" by (rule demo_disk)
  then have "kz_inv kz" by (simp add: kz_complete_def)
  from lifecycle_refines [OF this, of "OpDemote 1" "[OpRevoke 1, OpDemote 1, OpDemote 1, OpPromote 2, OpRevoke 1]"]
  have "kz_statuses (run_ops [OpRevoke 1, OpDemote 1, OpDemote 1, OpPromote 2, OpRevoke 1] kz) = Map.empty"
    by (simp add: kz(2) spec_demote_def spec_revoke_def spec_promote_def del: run_ops.simps)
  with kz(2) show ?thesis by blast
qed

text \<open>
  C3. A version added to a key set gets the next number, which no version has, and a fresh key of
  the set's type, found under the version and under a hash identifier that was free; its status
  is the one asked for, the old primary version becomes active when that is primary, and every
  other entry stays.
\<close>

theorem add_version_adds:
  assumes "kz_inv kz" and "AddVersion L s size0 (kz, ent) = Some (Inr (), kz', ent')"
  shows "kz_inv kz' \<and> (\<exists>k h. key_type_of k = kmd_type (kz_metadata kz) \<and> key_hash_id k = Inr h
     \<and> map_of (kz_keys kz) (HashId h) = None
     \<and> map_of (kz_keys kz') = (map_of (kz_keys kz))(VersionId (length (kz_heap kz)) \<mapsto> k, HashId h \<mapsto> k)
     \<and> kz_statuses kz' = spec_add (max_version_number kz + 1) s (kz_statuses kz)
     \<and> kz_statuses kz (max_version_number kz + 1) = None
     \<and> kz_primary kz' = (if s = PRIMARY then Some (length (kz_heap kz)) else kz_primary kz))"
  using AddVersion_inv [OF assms] AddVersion_success [OF assms] by blast+

theorem add_version_adds_witness:
  "\<exists>kz ent. AddVersion demo_crypto PRIMARY None (empty_keyset, zero_entropy) = Some (Inr (), kz, ent)
     \<and> kz_statuses kz 1 = Some PRIMARY"
proof -
  obtain kz ent where a: "AddVersion demo_crypto PRIMARY None (empty_keyset, zero_entropy) = Some (Inr (), kz, ent)"
    using empty_add by blast
  have "max_version_number empty_keyset = 0"
    by (simp add: max_version_number_def empty_keyset_def kz_versions_def)
  with add_version_adds [OF empty_inv(1) a] a show ?thesis
    by (intro exI [of _ kz] exI [of _ ent]) (auto simp: spec_add_def)
qed

text \<open>
  C4. Adding a version returns unless every key the generator would go on to produce has a hash
  identifier that the key set already holds: the loop that draws fresh keys is the only thing
  that may not end, and exactly then.
\<close>

theorem add_version_terminates:
  "AddVersion L s size0 (kz, ent) = None \<longleftrightarrow>
     IsValidSize (kmd_type (kz_metadata kz)) (case size0 of None \<Rightarrow> kz_default_size kz | Some n \<Rightarrow> n)
     \<and> (\<forall>i. collides (kz_keys kz) (gen_run L (kmd_type (kz_metadata kz))
           (case size0 of None \<Rightarrow> kz_default_size kz | Some n \<Rightarrow> n) ent i))"
    (is "?a = None \<longleftrightarrow> IsValidSize ?t ?sz \<and> ?c")
proof (cases "IsValidSize ?t ?sz")
  case True
  have "?a = None \<longleftrightarrow> fresh_key L ?t ?sz (kz_keys kz) ent = None"
    by (auto simp: AddVersion_valid [OF True] split: option.split sum.split prod.split)
  also have "\<dots> \<longleftrightarrow> ?c" using fresh_key_returns fresh_key_stuck by blast
  finally show ?thesis using True by simp
next
  case False
  then show ?thesis using AddVersion_invalid [OF False, of L s ent] by auto
qed





section \<open>Encrypting and signing\<close>



text \<open>
  C8. Nothing is decrypted that is not authentic: when a key set of AES keys returns a plaintext,
  the message is long enough, its version byte is 0, the next four bytes name a key of the set,
  and its last twenty bytes are the HMAC of all before them under that key's HMAC key.
\<close>

theorem decrypts_only_authentic:
  assumes "Crypter_Decrypt L kz ct decoder = Inr d" and "\<forall>i k. map_of (kz_keys kz) i = Some k \<longrightarrow> key_type_of k = AES"
  shows "\<exists>msg a. decode_with decoder ct = Inr msg \<and> 41 \<le> length msg \<and> msg ! 0 = CHR 0x00
    \<and> map_of (kz_keys kz) (HashId (Base64WSEncode (take 4 (drop 1 msg)))) = Some (AesKey a)
    \<and> hmac_Sign (aes_hmac_key a) (take (length msg - 20) msg) = Inr (drop (length msg - 20) msg)"
proof -
  obtain msg key where m: "decode_with decoder ct = Inr msg" "5 \<le> length msg" "ParseHeader kz (take 5 msg) = Inr key"
    "key_Decrypt L key msg = Inr d"
    using assms(1) by (auto simp: Crypter_Decrypt_def slice_to_def clip_index_def ebind_Inr_conv split: if_splits)
  then have p: "msg ! 0 = CHR 0x00" "map_of (kz_keys kz) (HashId (Base64WSEncode (take 4 (drop 1 msg)))) = Some key"
    by (auto simp: ParseHeader_zero GetKey_def drop_take split: if_splits option.splits)
  then have "key_type_of key = AES" using assms(2) by blast
  then obtain a where a: "key = AesKey a" by (cases key) simp_all
  then have "aes_Decrypt L a msg = Inr d" using m(4) by simp
  from aes_Decrypt_authentic [OF this] show ?thesis using m p a by blast
qed

theorem decrypts_only_authentic_witness:
  "\<exists>kz ct msg. \<exists>a :: aes_key. Crypter_Decrypt demo_crypto kz ct None = Inr ''hi''
     \<and> hmac_Sign (aes_hmac_key a) (take (length msg - 20) msg) = Inr (drop (length msg - 20) msg)"
proof -
  obtain kz h where k: "primary_key kz = Inr (AesKey demo_aes)" "aes_Hash demo_aes = Inr h"
    "map_of (kz_keys kz) (HashId h) = Some (AesKey demo_aes)" "\<forall>i x. map_of (kz_keys kz) i = Some x \<longrightarrow> key_type_of x = AES"
    by (rule demo_aes_keyset)
  obtain raw r' where e: "Encrypter_Encrypt demo_crypto kz ''hi'' None zero_entropy = (Inr raw, r')"
    using demo_Encrypt [OF k(1)] by blast
  have d: "Crypter_Decrypt demo_crypto kz raw None = Inr ''hi''"
    using k demo_backend demo_aes_ok(1) by (intro Decrypt_Encrypt [OF k(1) _ k(3) _ codec_pairs(1) e]) simp_all
  from decrypts_only_authentic [OF d k(4)] obtain msg and a :: aes_key where
    "hmac_Sign (aes_hmac_key a) (take (length msg - 20) msg) = Inr (drop (length msg - 20) msg)" by blast
  with d show ?thesis by blast
qed

text \<open>
  C9. A signature made with a key set is accepted by every key set that holds the matching key
  under the signer's hash identifier.
\<close>

theorem verify_sign:
  assumes "primary_key kz = Inr prv" and "key_hash_id prv = Inr h"
    and "map_of (kz_keys kz') (HashId h) = Some pub" and "sign_pair L prv pub"
    and "codec_pair encoder decoder" and "Signer_Sign L kz data encoder r = (Inr sig, r')"
  shows "Verifier_Verify L kz' data sig decoder = Inr True"
  using assms by (rule Verify_Sign)

theorem verify_sign_witness:
  "\<exists>kz sig r'. Signer_Sign demo_crypto kz ''hi'' (Some Base64WSEncode) zero_entropy = (Inr sig, r')
     \<and> Verifier_Verify demo_crypto kz ''hi'' sig (Some Base64WSDecode) = Inr True"
proof -
  obtain kz h where k: "primary_key kz = Inr (HmacKey demo_hmac)" "key_hash_id (HmacKey demo_hmac) = Inr h"
    "map_of (kz_keys kz) (HashId h) = Some (HmacKey demo_hmac)"
    by (rule demo_hmac_keyset)
  obtain sig r' where s: "Signer_Sign demo_crypto kz ''hi'' (Some Base64WSEncode) zero_entropy = (Inr sig, r')"
    using demo_Sign [OF k(1)] by blast
  have "Verifier_Verify demo_crypto kz ''hi'' sig (Some Base64WSDecode) = Inr True"
    by (rule verify_sign [OF k _ codec_pairs(2) s]) simp
  with s show ?thesis by blast
qed

text \<open>
  C10. With an HMAC key a signature is accepted exactly when it is the HMAC of the data followed by
  the version byte; every other byte string is rejected, without an exception.
\<close>

theorem hmac_verify_exact:
  assumes "map_of (kz_keys kz) (HashId (Base64WSEncode b)) = Some (HmacKey k)" and "length b = 4"
    and "hmac_key_bytes k = Inr kb"
  shows "Verifier_Verify L kz data (CHR 0x00 # b @ sig) None = Inr (sig = hmac_sha1 kb (data @ [CHR 0x00]))"
proof -
  have "ParseHeader kz (CHR 0x00 # b) = Inr (HmacKey k)"
    using assms(1) by (simp add: ParseHeader_zero GetKey_def)
  then show ?thesis
    using assms(2,3)
    by (auto simp: Verifier_Verify_def decode_with_def InternalVerify_def hmac_Verify_eq hmac_Sign_def PackByteArray_def
        VERSION_BYTE_def slice_to_def slice_from_def clip_index_def)
qed

theorem hmac_verify_exact_witness:
  "\<exists>kz b. Verifier_Verify demo_crypto kz ''hi'' (CHR 0x00 # b @ []) None
      = Inr ([] = hmac_sha1 ''secret'' (''hi'' @ [CHR 0x00]))"
proof -
  obtain kz :: keyczar and h where k: "key_hash_id (HmacKey demo_hmac) = Inr h" "map_of (kz_keys kz) (HashId h) = Some (HmacKey demo_hmac)"
    by (rule demo_hmac_keyset)
  obtain b where "h = Base64WSEncode b" "length b = 4" using key_hash_encodes [OF k(1)] by blast
  with hmac_verify_exact [OF _ _ demo_hmac_bytes, of kz b demo_crypto "''hi''" "[]"] k(2) show ?thesis by blast
qed

text \<open>
  C11. Data signed with the signature attached, with or without a nonce, comes back from
  \<open>AttachedVerify\<close> with the same nonce.
\<close>

theorem attached_verify_sign:
  assumes "primary_key kz = Inr prv" and "key_hash_id prv = Inr h"
    and "map_of (kz_keys kz') (HashId h) = Some pub" and "sign_pair L prv pub"
    and "codec_pair encoder decoder" and "Signer_AttachedSign L kz data nonce encoder r = (Inr blob, r')"
  shows "Verifier_AttachedVerify L kz' blob nonce decoder = Inr (Some data)"
  using assms by (rule AttachedVerify_Sign)

theorem attached_verify_sign_witness:
  "\<exists>kz blob r'. Signer_AttachedSign demo_crypto kz ''hi'' None None zero_entropy = (Inr blob, r')
     \<and> Verifier_AttachedVerify demo_crypto kz blob None None = Inr (Some ''hi'')"
proof -
  obtain kz h where k: "primary_key kz = Inr (HmacKey demo_hmac)" "key_hash_id (HmacKey demo_hmac) = Inr h"
    "map_of (kz_keys kz) (HashId h) = Some (HmacKey demo_hmac)"
    by (rule demo_hmac_keyset)
  obtain blob r' where s: "Signer_AttachedSign demo_crypto kz ''hi'' None None zero_entropy = (Inr blob, r')"
    using demo_Sign(3) [OF k(1), of "''hi''" None] by auto
  have "Verifier_AttachedVerify demo_crypto kz blob None None = Inr (Some ''hi'')"
    by (rule attached_verify_sign [OF k _ codec_pairs(1) s]) simp
  with s show ?thesis by blast
qed

text \<open>
  C12. An unversioned signature is accepted by a key set that holds the matching key under any
  version, when no key of the set raises on a signature that is not its own.
\<close>

theorem unversioned_verify_sign:
  assumes "primary_key kz = Inr prv" and "sign_pair L prv pub" and "codec_pair encoder decoder"
    and "UnversionedSigner_Sign L kz data encoder r = (Inr sig, r')"
    and "v \<in> set (kz_versions kz')" and "map_of (kz_keys kz') (VersionId v) = Some pub"
    and "\<forall>w \<in> set (kz_versions kz'). \<forall>x. \<exists>k b. map_of (kz_keys kz') (VersionId w) = Some k \<and> key_Verify L k data x = Inr b"
  shows "UnversionedVerifier_Verify L kz' data sig decoder = Inr True"
  using assms by (rule UnversionedVerify_Sign)

theorem unversioned_verify_sign_witness:
  "\<exists>kz sig r'. UnversionedSigner_Sign demo_crypto kz ''hi'' None zero_entropy = (Inr sig, r')
     \<and> UnversionedVerifier_Verify demo_crypto kz ''hi'' sig None = Inr True"
proof -
  obtain kz r where k: "primary_key kz = Inr (HmacKey demo_hmac)" "kz_versions kz = [r]"
    "map_of (kz_keys kz) (VersionId r) = Some (HmacKey demo_hmac)"
    by (rule demo_hmac_keyset)
  obtain sig r' where s: "UnversionedSigner_Sign demo_crypto kz ''hi'' None zero_entropy = (Inr sig, r')"
    using demo_Sign(2) [OF k(1)] by blast
  have "UnversionedVerifier_Verify demo_crypto kz ''hi'' sig None = Inr True"
    using k by (intro unversioned_verify_sign [OF k(1) _ codec_pairs(1) s _ k(3)])
      (simp_all add: hmac_Verify_eq demo_hmac_Sign)
  with s show ?thesis by blast
qed

section \<open>Streams\<close>

text \<open>
  C13. Writing data to an encrypting stream in any pieces and flushing it gives the ciphertext that
  \<open>Encrypt\<close> makes of the whole with the same random bytes, Base64 encoded or not.
\<close>

theorem stream_encrypts_like_encrypt:
  assumes "backend_ok L" and "aes_ok k" and "primary_key kz = Inr (AesKey k)"
    and "Encrypter_Encrypt L kz (concat ds) None r = (Inr ct, r')"
  shows "\<exists>out'. crypter_stream L kz out coded ds r = (Inr out', r') \<and> sink_out out' = out @ stream_text coded ct"
  using assms by (rule crypter_stream_eq)

theorem stream_encrypts_like_encrypt_witness:
  "\<exists>kz ct r' out'. Encrypter_Encrypt demo_crypto kz ''hello'' None zero_entropy = (Inr ct, r')
     \<and> crypter_stream demo_crypto kz [] True [''he'', [], ''llo''] zero_entropy = (Inr out', r')
     \<and> sink_out out' = Base64WSEncode ct"
proof -
  obtain kz where p: "primary_key kz = Inr (AesKey demo_aes)" by (rule demo_aes_keyset)
  obtain ct r' where e: "Encrypter_Encrypt demo_crypto kz (concat [''he'', [], ''llo'']) None zero_entropy = (Inr ct, r')"
    using demo_Encrypt [OF p] by blast
  from stream_encrypts_like_encrypt [OF demo_backend demo_aes_ok(1) p e, of "[]" True] e show ?thesis
    by (auto simp: stream_text_def)
qed





text \<open>
  C16. A ciphertext stream that ends within the signature, before any ciphertext block is known to
  be complete, is taken for an empty plaintext: the first read returns the empty string, which
  means the end, and raises nothing.
\<close>

theorem truncated_stream_reads_empty:
  assumes "dr_setup L (stream_parse kz) k kb hb hdr iv" and "length rest \<le> 20"
    and "stream_ok s" and "unread s = stream_text coded (hdr @ iv @ rest)"
  shows "\<exists>r'. dr_read source_read L (stream_parse kz) chars (CreateDecryptingStreamReader s coded n)
     = Some (Inr (Some []), r')"
proof -
  obtain src where src: "CreateDecryptingStreamReader s coded n = DecryptingStreamReader_init src n"
    by (cases coded) (simp_all add: CreateDecryptingStreamReader_def)
  have "source_holds src (hdr @ iv @ rest)"
    using source_holds_init [OF assms(3,4), of n] src by (simp add: DecryptingStreamReader_init_def)
  from sources.dr_read_truncated [OF assms(1) this assms(2)] show ?thesis by (simp only: src)
qed

theorem truncated_stream_reads_empty_witness:
  "\<exists>kz s r'. dr_read source_read demo_crypto (stream_parse kz) (-1) (CreateDecryptingStreamReader s False 100)
     = Some (Inr (Some []), r')"
proof -
  obtain kz :: keyczar and h where k: "aes_Hash demo_aes = Inr h" "map_of (kz_keys kz) (HashId h) = Some (AesKey demo_aes)"
    by (rule demo_aes_keyset)
  obtain b kb hb where su: "dr_setup demo_crypto (stream_parse kz) demo_aes kb hb (CHR 0x00 # b) (replicate 16 CHR 0x00)"
    by (rule demo_setup [OF k])
  let ?d = "CHR 0x00 # b @ replicate 16 CHR 0x00"
  from truncated_stream_reads_empty [OF su _ file_stream_simps(1), of "[]" ?d False "-1" 100] show ?thesis
    by (auto simp: stream_text_def)
qed

section \<open>The command-line tool\<close>













text \<open>
  C23. The interoperability driver sets up only tests that it should: each is for an implementation
  and an operation of the configuration, with options that are choices of listed values for
  generating and for testing, and neither combination is among the excluded ones; the choices are
  all there are, as many as the product of the numbers of values.
\<close>

theorem interop_tests_allowed:
  assumes "iw_tests w = []"
  shows "(\<forall>(name, tc) \<in> set (iw_tests (snd (SetupInteropTests H r w))). test_ok r tc)
    \<and> (Options r operation ks option_string = Inr oss \<longrightarrow> (\<exists>d. option_values r operation ks option_string = Inr d
        \<and> (\<forall>opts. opts \<in> set oss \<longleftrightarrow> chosen d opts) \<and> length oss = prod_list (map (\<lambda>(n, vs). length vs) d)))"
  using SetupInteropTests_tests [OF assms, where r = r and H = H] Options_choices [of r operation ks option_string oss] by blast

theorem interop_tests_allowed_witness:
  "\<exists>tc. (''test_java_generated_by_python_sign_hmac256_raw_'', tc)
       \<in> set (iw_tests (snd (SetupInteropTests demo_host demo_runner demo_iworld))) \<and> test_ok demo_runner tc"
proof -
  have e: "iw_tests demo_iworld = []" by (simp add: demo_iworld_def)
  have "''test_java_generated_by_python_sign_hmac256_raw_''
      \<in> set (map fst (iw_tests (snd (SetupInteropTests demo_host demo_runner demo_iworld))))"
    unfolding demo_tests by simp
  then obtain tc where tc: "(''test_java_generated_by_python_sign_hmac256_raw_'', tc)
      \<in> set (iw_tests (snd (SetupInteropTests demo_host demo_runner demo_iworld)))" by auto
  with interop_tests_allowed [OF e, of demo_host demo_runner] show ?thesis by blast
qed

text \<open>
  C24. When the driver runs the Python program as its implementation, generating leaves the files as
  they are, and every test of an output that the program generated passes: the key sets being ready
  for the operation, with options of any combination, whatever random bytes the program draws.
\<close>

theorem interop_program_passes:
  assumes "runs_program L H cmd"
    and "json_get gi (rn_implementations r) = Inr (JList (map JStr cmd))"
    and "json_get ti (rn_implementations r) = Inr (JList (map JStr cmd))"
    and "map_of operations operation = Some x" and "json_plain (JObj g)" and "json_plain (JObj t)"
    and "op_ready L x \<lparr>op_test_data = TESTDATA, op_key_path = GetKeyPath gi\<rparr> a (JObj g) (JObj t) (iw_fs w)"
    and "Generate_output H r gi operation a g w = (Inr out, w1)" and "iw_fs w2 = iw_fs w"
  shows "w1 = w \<and> run_test_case H r \<lparr>tc_output_json = out, tc_test_implementation = ti, tc_generate_implementation = gi,
      tc_operation = operation, tc_algorithm = a, tc_generate_options = g, tc_test_options = t\<rparr> w2
    = (Inr (''Test passes'' @ [CHR 0x0A]), w2)"
  using assms by (rule driver_test_passes)

theorem interop_program_passes_witness:
  "\<exists>(w :: iworld) out. Generate_output python_host demo_runner ''python'' ''sign'' ''hmac256'' demo_generate w = (Inr out, w)
     \<and> run_test_case python_host demo_runner \<lparr>tc_output_json = out, tc_test_implementation = ''python'',
         tc_generate_implementation = ''python'', tc_operation = ''sign'', tc_algorithm = ''hmac256'',
         tc_generate_options = demo_generate, tc_test_options = demo_test\<rparr> w = (Inr (''Test passes'' @ [CHR 0x0A]), w)"
proof -
  obtain w :: iworld and out w1 where g: "Generate_output python_host demo_runner ''python'' ''sign'' ''hmac256'' demo_generate w = (Inr out, w1)"
    and ready: "op_ready demo_crypto SignOperation \<lparr>op_test_data = TESTDATA, op_key_path = GetKeyPath ''python''\<rparr> ''hmac256''
      (JObj demo_generate) (JObj demo_test) (iw_fs w)" by (rule driver_generates)
  have i: "json_get ''python'' (rn_implementations demo_runner) = Inr (JList (map JStr [''py'']))"
    by (simp add: demo_runner_def json_get_def)
  have o: "map_of operations ''sign'' = Some SignOperation" by (simp add: operations_def)
  have plain: "json_plain (JObj demo_generate)" "json_plain (JObj demo_test)" by (simp_all add: demo_options)
  from interop_program_passes [OF python_host_runs i i o plain ready g refl] g show ?thesis by blast
qed



text \<open>
  C26. No command can promote, demote or revoke in an encrypted key set, or export its public keys:
  none passes a crypter on, so the key set cannot be read, and nothing changes.
\<close>

theorem keyczart_encrypted_refused:
  assumes "w_mock w = None" and "path_exists (w_fs w) loc"
    and "ReadFile (w_fs w) (path_join loc ''meta'') = Inr s" and "KeyMetadata_Read s [] = (Inr kmd, h)" and "encrypted kmd"
  shows "Promote_cmd L (Some loc) n w = Some (Inl (KeyczarError ''Need encrypted reader.''), w)
    \<and> Demote_cmd L (Some loc) n w = Some (Inl (KeyczarError ''Need encrypted reader.''), w)
    \<and> Revoke_cmd L (Some loc) n w = Some (Inl (KeyczarError ''Need encrypted reader.''), w)
    \<and> PubKey_cmd L (Some loc) (Some dest) w = Some (Inl (KeyczarError ''Need encrypted reader.''), w)"
  using encrypted_refused [OF assms, of L _ n] assms
  by (simp add: Promote_cmd_def Demote_cmd_def Revoke_cmd_def pbind_def PubKey_cmd_def CreateGenericKeyczar_def
      prog_defs with_crypter_def CreateReader_def reader_classes_def FileReader_CreateReader_def Keyczar_init_def
      FileReader_def)

theorem keyczart_encrypted_refused_witness:
  "\<exists>w. Promote_cmd demo_crypto (Some ''ks'') 1 w = Some (Inl (KeyczarError ''Need encrypted reader.''), w)"
proof -
  let ?m = "KeyMetadata_init ''e'' DECRYPT_AND_ENCRYPT AES True"
  obtain s m' h' where s: "KeyMetadata_str [] ?m = Inr s" "KeyMetadata_Read s [] = (Inr m', h')" "kmd_view h' m' = kmd_view [] ?m"
    using KeyMetadata_Read_str [OF kmd_ok_init [of "[]" "''e''" DECRYPT_AND_ENCRYPT AES True], of "[]"] by blast
  let ?w = "\<lparr>w_fs = \<lparr>fs_files = [(path_join ''ks'' ''meta'', s)], fs_dirs = [''ks''], fs_opens = (\<lambda>p. True)\<rparr>,
      w_ent = zero_entropy, w_mock = None, w_out = []\<rparr>"
  have e: "encrypted m'" using s(3) by (simp add: kmd_view_def KeyMetadata_init_def)
  have "Promote_cmd demo_crypto (Some ''ks'') 1 ?w = Some (Inl (KeyczarError ''Need encrypted reader.''), ?w)"
    using keyczart_encrypted_refused [of ?w "''ks''" s, OF _ _ _ s(2) e, of demo_crypto 1]
    by (simp add: path_exists_def ReadFile_def)
  then show ?thesis by blast
qed

section \<open>Keys\<close>

text \<open>
  C27. A failed addition to a set of public keys is not undone: asked for a primary version, it
  demotes the old one first, then raises because public keys cannot be generated, and leaves the
  set without a primary key.
\<close>

theorem add_public_loses_primary:
  assumes "kz_inv kz" and "kmd_type (kz_metadata kz) = DSA_PUB \<or> kmd_type (kz_metadata kz) = RSA_PUB"
    and "IsValidSize (kmd_type (kz_metadata kz)) (case size0 of None \<Rightarrow> kz_default_size kz | Some n \<Rightarrow> n)"
  shows "\<exists>m kz'. AddVersion L PRIMARY size0 (kz, ent) = Some (Inl (KeyczarError m), kz', ent)
    \<and> kz_statuses kz' = demote_old (kz_statuses kz)
    \<and> primary_key kz' = Inl (KeyNotFoundError (VersionId (length (kz_heap kz))))"
  using AddVersion_public [OF assms, of L ent] by blast

theorem add_public_loses_primary_witness:
  "\<exists>kz m kz'. kz_statuses kz 1 = Some PRIMARY \<and> AddVersion demo_crypto PRIMARY None (kz, zero_entropy)
      = Some (Inl (KeyczarError m), kz', zero_entropy) \<and> kz_statuses kz' 1 = Some ACTIVE"
proof -
  from add_public_loses_primary [OF public_inv, of None demo_crypto zero_entropy]
  obtain m kz' where "AddVersion demo_crypto PRIMARY None (public_keyset, zero_entropy) = Some (Inl (KeyczarError m), kz', zero_entropy)"
    "kz_statuses kz' = demote_old (kz_statuses public_keyset)"
    by (auto simp: public_keyset_def IsValidSize_def)
  then show ?thesis
    by (intro exI [of _ public_keyset] exI [of _ m] exI [of _ kz']) (simp add: public_statuses demote_old_def)
qed

text \<open>
  C28. Sessions: what a \<open>SessionEncrypter\<close> encrypts is decrypted by a \<open>SessionDecrypter\<close> made from its
  session material, when the key sets behind them transport byte strings.
\<close>

theorem session_round_trip:
  assumes "transports enc dec" and "backend_ok L" and "codec_pair encoder decoder"
    and "SessionEncrypter_init enc r = (Inr se, r')"
    and "SessionEncrypter_Encrypt L d encoder (se, ent) = (Inr ct, se', ent')"
  shows "\<exists>s. SessionDecrypter_init dec (se_session_material se) = Some (Inr s)
    \<and> fst (SessionDecrypter_Decrypt L ct decoder s) = Inr d"
  using assms by (rule session_transport)

theorem session_round_trip_witness:
  "\<exists>se r' ct st s. SessionEncrypter_init (\<lambda>d. sret d) zero_entropy = (Inr se, r')
     \<and> SessionEncrypter_Encrypt demo_crypto ''hi'' None (se, zero_entropy) = (Inr ct, st)
     \<and> SessionDecrypter_init (\<lambda>c. Inr c) (se_session_material se) = Some (Inr s)
     \<and> fst (SessionDecrypter_Decrypt demo_crypto ct None s) = Inr ''hi''"
proof -
  obtain se r' ct se' ent' where i: "SessionEncrypter_init (\<lambda>d. sret d) zero_entropy = (Inr se, r')"
    and e: "SessionEncrypter_Encrypt demo_crypto ''hi'' None (se, zero_entropy) = (Inr ct, se', ent')"
    by (rule demo_session)
  have "transports (\<lambda>d. sret d) (\<lambda>c. Inr c)" by (simp add: transports_def sret_def)
  from session_round_trip [OF this demo_backend codec_pairs(1) i e] i e show ?thesis by blast
qed

text \<open>
  C29. Signed sessions: the nonce travels with the key, and what is encrypted and signed with the
  session comes back from a decrypter made from the session material.
\<close>

theorem signed_session_round_trip:
  assumes "transports enc dec" and "attaches sign verify" and "backend_ok L"
    and "SignedSessionEncrypter_init enc r = (Inr se, r')"
    and "SignedSessionEncrypter_Encrypt L sign d (se, ent) = (Inr blob, se', ent')"
  shows "\<exists>s. SignedSessionDecrypter_init dec (se_session_material se) = Inr s
    \<and> fst (SignedSessionDecrypter_Decrypt L verify blob s) = Inr (Some d)"
  using assms by (rule signed_session_transport)

theorem signed_session_round_trip_witness:
  "\<exists>se r' blob st s. SignedSessionEncrypter_init (\<lambda>d. sret d) zero_entropy = (Inr se, r')
     \<and> SignedSessionEncrypter_Encrypt demo_crypto (\<lambda>d n. sret d) ''hi'' (se, zero_entropy) = (Inr blob, st)
     \<and> SignedSessionDecrypter_init (\<lambda>c. Inr c) (se_session_material se) = Inr s
     \<and> fst (SignedSessionDecrypter_Decrypt demo_crypto (\<lambda>c n. Inr (Some c)) blob s) = Inr (Some ''hi'')"
proof -
  obtain se r' blob se' ent' where i: "SignedSessionEncrypter_init (\<lambda>d. sret d) zero_entropy = (Inr se, r')"
    and e: "SignedSessionEncrypter_Encrypt demo_crypto (\<lambda>d n. sret d) ''hi'' (se, zero_entropy) = (Inr blob, se', ent')"
    by (rule demo_signed_session)
  have t: "transports (\<lambda>d. sret d) (\<lambda>c. Inr c)" by (simp add: transports_def sret_def)
  have a: "attaches (\<lambda>d n. sret d) (\<lambda>c n. Inr (Some c))" by (simp add: attaches_def sret_def)
  from signed_session_round_trip [OF t a demo_backend i e] i e show ?thesis by blast
qed

text \<open>
  C30. RSA with OAEP: a message that fits the modulus comes back, unless the random padding made a
  block with so many leading zero bytes that the decryption, which strips them, finds it too short.
\<close>

theorem rsa_round_trip:
  assumes "rsa_pair L (rk_key prv) (rp_key pub)" and "rsa_n (rk_key prv) = rsa_n (rp_key pub)"
    and "num_bytes L (rsa_n (rp_key pub)) = Inr (int k)" and "length msg + 42 \<le> k" and "int k < 2 ^ 32"
    and "256 ^ (k - 1) \<le> rsa_n (rp_key pub)"
    and "rsa_pub_Encrypt L pub msg r = (Inr ct, r')"
  shows "rsa_Decrypt L prv ct = Inr msg
     \<or> (\<exists>n < 42. rsa_Decrypt L prv ct = Inl (KeyczarError
          (''OAEP Decoding Error - encoded_message is too small: '' @ str_nat n)))"
  using assms by (rule rsa_Decrypt_Encrypt)

theorem rsa_round_trip_witness:
  "\<exists>ct r' n. rsa_pub_Encrypt demo_crypto demo_rsa ''hi'' zero_entropy = (Inr ct, r')
     \<and> (rsa_Decrypt demo_crypto demo_rsa_priv ct = Inr ''hi''
        \<or> rsa_Decrypt demo_crypto demo_rsa_priv ct = Inl (KeyczarError
          (''OAEP Decoding Error - encoded_message is too small: '' @ str_nat n)))"
proof -
  have n: "num_bytes demo_crypto (rsa_n (rp_key demo_rsa)) = Inr (int 64)" using demo_num_bytes by (simp add: demo_rsa_def)
  obtain ct where e: "rsa_pub_Encrypt demo_crypto demo_rsa ''hi'' zero_entropy = (Inr ct, \<lambda>i. zero_entropy (i + 20))"
    using rsa_Encrypt_ok [OF n, of "''hi''" zero_entropy] by (auto simp: demo_crypto_def)
  have "rsa_n (rk_key demo_rsa_priv) = rsa_n (rp_key demo_rsa)" by (simp add: demo_rsa_priv_def demo_rsa_def demo_rsa_obj_def rsa_construct6_def)
  from rsa_round_trip [OF demo_rsa_pair this n _ _ demo_modulus_bound e] e show ?thesis by fastforce
qed

text \<open>
  C31. \<open>GenKey\<close> makes keys of the type asked for and of no other: it refuses sizes that the type does
  not have and public key types, with an error of the library and before it draws random bytes.
\<close>

theorem gen_key_type:
  "GenKey L t n r = (res, r') \<longrightarrow>
     (let sz = (case n of None \<Rightarrow> default_size t | Some m \<Rightarrow> m) in
      if \<not> IsValidSize t sz \<or> t \<in> {DSA_PUB, RSA_PUB} then \<exists>m. res = Inl (KeyczarError m) \<and> r' = r
      else \<forall>k. res = Inr k \<longrightarrow> key_type_of k = t)"
proof
  assume g: "GenKey L t n r = (res, r')"
  let ?sz = "case n of None \<Rightarrow> default_size t | Some m \<Rightarrow> m"
  have e: "GenKey L t n = GenKey L t (Some ?sz)" by (cases n) (simp_all add: GenKey_def)
  have "\<not> IsValidSize t ?sz \<or> t \<in> {DSA_PUB, RSA_PUB} \<Longrightarrow> \<exists>m. res = Inl (KeyczarError m) \<and> r' = r"
    using g GenKey_bad_size [of t ?sz L r] GenKey_public [of t ?sz L r] unfolding e by fastforce
  moreover have "res = Inr k \<Longrightarrow> key_type_of k = t" for k using g GenKey_type by blast
  ultimately show "let sz = ?sz in
      if \<not> IsValidSize t sz \<or> t \<in> {DSA_PUB, RSA_PUB} then \<exists>m. res = Inl (KeyczarError m) \<and> r' = r
      else \<forall>k. res = Inr k \<longrightarrow> key_type_of k = t"
    by (simp add: Let_def)
qed

theorem gen_key_type_witness:
  "\<exists>m. fst (GenKey demo_crypto HMAC_SHA1 (Some 255) zero_entropy) = Inl (KeyczarError m)"
  using gen_key_type [of demo_crypto HMAC_SHA1 "Some 255" zero_entropy
      "fst (GenKey demo_crypto HMAC_SHA1 (Some 255) zero_entropy)" "snd (GenKey demo_crypto HMAC_SHA1 (Some 255) zero_entropy)"]
  by (auto simp: IsValidSize_def)

section \<open>Bytes\<close>

text \<open>
  C32. Web-safe Base64 decodes to what was encoded, is injective, uses only the 64 digits, and has
  the length of the padded code without its padding.
\<close>

theorem base64_round_trip:
  "Base64WSDecode (Base64WSEncode s) = Inr s \<and> (Base64WSEncode s = Base64WSEncode t \<longleftrightarrow> s = t)
   \<and> set (Base64WSEncode s) \<subseteq> {c. b64_digit c}
   \<and> length (Base64WSEncode s) = 4 * (length s div 3)
       + (if length s mod 3 = 0 then 0 else if length s mod 3 = 1 then 2 else 3)"
  using encode_digits [of s] by (auto simp: encode_inject length_encode)

text \<open>
  C33. Whatever is wrong with the input of \<open>Base64WSDecode\<close>, its only error is
  \<open>Base64DecodingError\<close>; characters outside the alphabet are no error but skipped, four at a time
  after a code.
\<close>

theorem base64_errors:
  assumes "\<forall>c \<in> set junk. \<not> b64_digit c \<and> c \<notin> {CHR ''='', CHR '' '', CHR 0x0D, CHR 0x0A}" and "4 dvd length junk"
  shows "Base64WSDecode (Base64WSEncode s @ junk) = Inr s
    \<and> (Base64WSDecode x = Inl e \<longrightarrow> e = Base64DecodingError)"
  using decode_with_junk [OF assms] decode_errors by blast

theorem base64_errors_witness:
  "Base64WSDecode (Base64WSEncode ''data'' @ ''!!!!'') = Inr ''data''"
proof -
  have "length ''!!!!'' = 4" by simp
  then have l: "4 dvd length ''!!!!''" by (simp only: dvd_refl)
  have "\<forall>c \<in> set ''!!!!''. \<not> b64_digit c \<and> c \<notin> {CHR ''='', CHR '' '', CHR 0x0D, CHR 0x0A}"
    by (simp add: b64_digit_def b64_val_def from_urlsafe_def of_char_def)
  from base64_errors [OF this l, of "''data''"] show ?thesis by blast
qed

text \<open>
  C34. Byte arrays packed together, fewer than \<open>2 ^ 31\<close> and each shorter than \<open>2 ^ 31\<close> bytes, can be packed
  and unpack to the same list.
\<close>

theorem arrays_round_trip:
  assumes "int (length arrays) < 2 ^ 31" and "\<forall>a \<in> set arrays. int (length a) < 2 ^ 31"
  shows "\<exists>s. PackMultipleByteArrays (map Some arrays) = Inr s \<and> UnpackMultipleByteArrays s = Some (Inr arrays)"
  using PackMultipleByteArrays_ok [OF assms] unpack_pack_multiple by blast

theorem arrays_round_trip_witness:
  "\<exists>s. PackMultipleByteArrays [Some ''key'', Some [], Some ''hmac''] = Inr s
     \<and> UnpackMultipleByteArrays s = Some (Inr [''key'', [], ''hmac''])"
  using arrays_round_trip [of "[''key'', [], ''hmac'']"] by simp

text \<open>
  C35. Unpacking ends when no four bytes of the data are a negative length, but a length of -4 after
  the count makes it loop for ever, whatever follows.
\<close>

theorem unpacking_ends:
  "(loop_moves data \<longrightarrow> UnpackMultipleByteArrays data \<noteq> None)
   \<and> (length count = 4 \<longrightarrow> UnpackMultipleByteArrays (count @ [CHR 0xFF, CHR 0xFF, CHR 0xFF, CHR 0xFC] @ rest) = None)"
  using UnpackMultiple_total unpack_minus_four by blast

theorem unpacking_ends_witness:
  "UnpackMultipleByteArrays [CHR 0x00, CHR 0x00, CHR 0x00, CHR 0x01, CHR 0xFF, CHR 0xFF, CHR 0xFF, CHR 0xFC] = None"
  using unpacking_ends [of "[]" "[CHR 0x00, CHR 0x00, CHR 0x00, CHR 0x01]" "[]"] by simp

text \<open>
  C36. Numbers and bytes: the minimal big-endian code of a natural number decodes to it, decoding and
  coding again strips leading zeros only, the four-byte code keeps a number modulo \<open>2 ^ 32\<close>, and
  bits and bytes convert without loss.
\<close>

theorem numbers_round_trip:
  "BytesToLong (BigIntToBytes (int n)) = int n \<and> BigIntToBytes (BytesToLong s) = lstrip_char CHR 0x00 s
   \<and> BytesToLong (IntToBytes m) = m mod 2 ^ 32 \<and> length (IntToBytes m) = 4 \<and> BinToBytes (BytesToBin s) = Inr s"
  by (simp add: BytesToLong_BigIntToBytes BigIntToBytes_BytesToLong BytesToLong_IntToBytes BinToBytes_BytesToBin)

text \<open>
  C37. \<open>PrefixHash\<close> hashes its inputs without ambiguity: it is the SHA-1 of a code that differs for
  different lists, while \<open>Hash\<close> sees only the concatenation.
\<close>

theorem prefix_hash_unambiguous:
  assumes "\<forall>x \<in> set xs \<union> set ys. length x < 2 ^ 32" and "xs \<noteq> ys"
  shows "PrefixHash xs = sha1 (prefix_encode xs) \<and> prefix_encode xs \<noteq> prefix_encode ys \<and> Hash xs = sha1 (concat xs)"
  using prefix_encode_inject [OF assms(1)] assms(2) by (auto simp: PrefixHash_encode Hash_concat)

theorem prefix_hash_unambiguous_witness:
  "prefix_encode [''ab'', ''c''] \<noteq> prefix_encode [''a'', ''bc''] \<and> concat [''ab'', ''c''] = concat [''a'', ''bc'']"
  using prefix_hash_unambiguous [of "[''ab'', ''c'']" "[''a'', ''bc'']"] by simp

text \<open>
  C38. The comparison of signatures that does not stop at the first difference computes equality,
  and a streamed HMAC is the HMAC of the pieces together.
\<close>

theorem hmac_equivalences:
  "(VerifySignedData mac sig \<longleftrightarrow> mac = sig)
   \<and> (CreateStreamable k = Inr h \<longrightarrow> Inr (hs_Sign (foldl (\<lambda>h d. hs_Update d h) h ds)) = hmac_Sign k (concat ds))"
  using VerifySignedData_eq hmac_stream_Sign by blast

theorem hmac_equivalences_witness:
  "\<exists>h. CreateStreamable demo_hmac = Inr h
     \<and> Inr (hs_Sign (hs_Update ''b'' (hs_Update ''a'' h))) = hmac_Sign demo_hmac ''ab''"
proof -
  obtain h where h: "CreateStreamable demo_hmac = Inr h"
    by (simp add: CreateStreamable_def demo_hmac_bytes)
  with hmac_equivalences [of "[]" "[]" demo_hmac h "[''a'', ''b'']"] show ?thesis by auto
qed

section \<open>Formats\<close>

text \<open>
  C39. The PKCS8 and X.509 texts that the exports write parse to the parameters they were made from,
  for RSA and for DSA keys, over any DER codec that decodes what it encodes.
\<close>

theorem asn1_round_trips:
  assumes "der_laws L" and "pretty_law pretty"
  shows "(ExportRsaPkcs8 L ps = Inr s \<longrightarrow> (\<exists>qs. ParsePkcs8 L s = Inr qs \<and> same_params RSA_PARAMS ps qs))
    \<and> (ExportDsaPkcs8 L ps = Inr s \<longrightarrow> (\<exists>qs. ParsePkcs8 L s = Inr qs \<and> same_params (DSA_PARAMS @ [''x'']) ps qs))
    \<and> (ExportRsaX509 L ps = Inr s \<longrightarrow> (\<exists>qs. ParseX509 L pretty s = Inr qs \<and> same_params [''n'', ''e''] ps qs))
    \<and> (ExportDsaX509 L ps = Inr s \<longrightarrow> (\<exists>qs. ParseX509 L pretty s = Inr qs \<and> same_params (DSA_PARAMS @ [''y'']) ps qs))"
  using ParsePkcs8_ExportRsa [OF assms(1)] ParsePkcs8_ExportDsa [OF assms(1)]
    ParseX509_ExportRsa [OF assms] ParseX509_ExportDsa [OF assms] by blast

theorem asn1_round_trips_witness:
  "\<exists>s qs. ExportDsaPkcs8 demo_der [(''p'', 23), (''q'', 11), (''g'', 4), (''x'', 7)] = Inr s
     \<and> ParsePkcs8 demo_der s = Inr qs \<and> same_params [''p'', ''q'', ''g'', ''x''] [(''p'', 23), (''q'', 11), (''g'', 4), (''x'', 7)] qs"
proof -
  let ?ps = "[(''p'', 23), (''q'', 11), (''g'', 4), (''x'', 7)]"
  obtain s where s: "ExportDsaPkcs8 demo_der ?ps = Inr s"
    by (simp add: ExportDsaPkcs8_def param_ints_def DSA_PARAMS_def param_def demo_der_def Let_def)
  have "pretty_law (\<lambda>b. ''[ '' @ b @ '' ]B'')" unfolding pretty_law_def by auto
  from asn1_round_trips [OF demo_der_laws' this, of ?ps s] s show ?thesis by (auto simp: DSA_PARAMS_def)
qed

text \<open>
  C40. \<open>convert_keyset\<close> keeps the keys: the text of a public key, rewritten, reads as the key with a
  zero byte before each number, which has the same numbers, size and hash identifier.
\<close>

theorem conversion_keeps_keys:
  assumes "rsa_pub_ok k" and "dsa_pub_ok d"
  shows "(\<exists>k'. ebind (rewrite_text (rsa_pub_str k)) RsaPublicKey_Read = Inr k'
      \<and> rp_key k' = rp_key k \<and> rp_size k' = rp_size k \<and> rsa_pub_Hash k' = rsa_pub_Hash k
      \<and> rp_modulus k' = CHR 0x00 # rp_modulus k)
    \<and> (\<exists>d'. ebind (rewrite_text (dsa_pub_str d)) DsaPublicKey_Read = Inr d'
      \<and> dp_key d' = dp_key d \<and> dp_size d' = dp_size d \<and> dsa_pub_Hash d' = dsa_pub_Hash d
      \<and> dp_y d' = CHR 0x00 # dp_y d)"
  using rewrite_rsa_text [OF assms(1)] rewrite_dsa_text [OF assms(2)] padded_same
  by (intro conjI exI [of _ "padded_rsa k"] exI [of _ "padded_dsa d"]) (simp_all add: padded_rsa_def padded_dsa_def)

theorem conversion_keeps_keys_witness:
  "\<exists>k'. ebind (rewrite_text (rsa_pub_str demo_rsa)) RsaPublicKey_Read = Inr k'
     \<and> rsa_pub_Hash k' = rsa_pub_Hash demo_rsa \<and> rp_modulus k' = CHR 0x00 # demo_modulus"
  using conversion_keeps_keys [OF demo_rsa_ok demo_dsa_ok] by (auto simp: demo_rsa_def)

end
